(* ===== verification/Prelude.thy ===== *)
theory Prelude
  imports Main "HOL-Library.Word" "HOL-Library.List_Lexorder" "HOL-Library.Char_ord"
begin

text \<open>
  Shared vocabulary of the development: Rust's machine integers as words, the
  saturating and checked arithmetic of the standard library, \<open>Result\<close> as a sum
  with the \<open>?\<close> operator as \<open>rbind\<close>, \<open>for\<close> loops with an early exit as \<open>rfold\<close>,
  byte strings and text, and ranges of consecutive heights.
\<close>

named_theorems rust_arith \<open>unat of the saturating and checked operations\<close>
named_theorems encode_inj \<open>encoders whose output determines the input\<close>

type_synonym u8 = "8 word"
type_synonym u32 = "32 word"
type_synonym u64 = "64 word"
type_synonym i64 = "64 word"
type_synonym bytes = "u8 list"
type_synonym H256 = "256 word"

section \<open>Result values\<close>

type_synonym ('e, 'a) result = "'e + 'a"

definition rbind :: "('e, 'a) result \<Rightarrow> ('a \<Rightarrow> ('e, 'b) result) \<Rightarrow> ('e, 'b) result" where
  "rbind r f = (case r of Inl e \<Rightarrow> Inl e | Inr a \<Rightarrow> f a)"

definition ok_or :: "'a option \<Rightarrow> 'e \<Rightarrow> ('e, 'a) result" where
  "ok_or x e = (case x of None \<Rightarrow> Inl e | Some a \<Rightarrow> Inr a)"

definition map_err :: "('e \<Rightarrow> 'f) \<Rightarrow> ('e, 'a) result \<Rightarrow> ('f, 'a) result" where
  "map_err f r = (case r of Inl e \<Rightarrow> Inl (f e) | Inr a \<Rightarrow> Inr a)"

definition is_ok :: "('e, 'a) result \<Rightarrow> bool" where
  "is_ok r = (case r of Inl _ \<Rightarrow> False | Inr _ \<Rightarrow> True)"

definition ensure :: "bool \<Rightarrow> 'e \<Rightarrow> ('e, unit) result" where
  "ensure b e = (if b then Inr () else Inl e)"

lemma rbind_simps [simp]:
  "rbind (Inl e) f = Inl e" "rbind (Inr a) f = f a"
  by (simp_all add: rbind_def)

lemma rbind_eq_Inr: "rbind r f = Inr b \<longleftrightarrow> (\<exists>a. r = Inr a \<and> f a = Inr b)"
  by (cases r) auto

lemma rbind_eq_Inl: "rbind r f = Inl e \<longleftrightarrow> r = Inl e \<or> (\<exists>a. r = Inr a \<and> f a = Inl e)"
  by (cases r) auto

lemma ok_or_simps [simp]:
  "ok_or None e = Inl e" "ok_or (Some a) e = Inr a"
  by (simp_all add: ok_or_def)

lemma ok_or_eq_Inr [simp]: "ok_or x e = Inr a \<longleftrightarrow> x = Some a"
  by (cases x) auto

lemma map_err_simps [simp]:
  "map_err f (Inl e) = Inl (f e)" "map_err f (Inr a) = Inr a"
  by (simp_all add: map_err_def)

lemma map_err_eq_Inr [simp]: "map_err f r = Inr a \<longleftrightarrow> r = Inr a"
  by (cases r) auto

lemma is_ok_simps [simp]: "\<not> is_ok (Inl e)" "is_ok (Inr a)"
  by (simp_all add: is_ok_def)

lemma is_ok_iff: "is_ok r \<longleftrightarrow> (\<exists>a. r = Inr a)"
  by (cases r) auto

lemma ensure_eq_Inr [simp]: "ensure b e = Inr u \<longleftrightarrow> b"
  by (simp add: ensure_def)

lemma ensure_simps [simp]: "ensure True e = Inr ()" "ensure False e = Inl e"
  by (simp_all add: ensure_def)

text \<open>A guard that returns an error: passing it is its negation.\<close>

lemma guard_eq_Inr [simp]:
  "(if b then Inl e else r) = Inr c \<longleftrightarrow> \<not> b \<and> r = Inr c"
  by simp

lemma ensure_eq_Inl: "ensure b e = Inl x \<longleftrightarrow> \<not> b \<and> x = e"
  by (auto simp: ensure_def)

text \<open>A \<open>for\<close> loop whose body may leave the function with an error.\<close>

fun rfold :: "('a \<Rightarrow> 's \<Rightarrow> ('e, 's) result) \<Rightarrow> 'a list \<Rightarrow> 's \<Rightarrow> ('e, 's) result" where
  "rfold f [] s = Inr s"
| "rfold f (x # xs) s = rbind (f x s) (rfold f xs)"

lemma rfold_append: "rfold f (xs @ ys) s = rbind (rfold f xs s) (rfold f ys)"
  by (induction xs arbitrary: s) (auto simp: rbind_def split: sum.splits)

lemma rfold_invariant:
  assumes "rfold f xs s = Inr t" and "P s"
    and "\<And>x s t. x \<in> set xs \<Longrightarrow> P s \<Longrightarrow> f x s = Inr t \<Longrightarrow> P t"
  shows "P t"
  using assms by (induction xs arbitrary: s) (auto simp: rbind_eq_Inr)

lemma rfold_cong [fundef_cong]:
  assumes "xs = ys" and "s = t" and "\<And>x s. x \<in> set ys \<Longrightarrow> f x s = g x s"
  shows "rfold f xs s = rfold g ys t"
proof -
  have "rfold f ys t = rfold g ys t" using assms(3)
  proof (induction ys arbitrary: t)
    case (Cons y ys)
    then show ?case by (cases "g y t") auto
  qed simp
  then show ?thesis using assms(1,2) by simp
qed

text \<open>A checking loop: every element is tested, the first failure is the result.\<close>

definition rall :: "('a \<Rightarrow> ('e, unit) result) \<Rightarrow> 'a list \<Rightarrow> ('e, unit) result" where
  "rall f xs = rfold (\<lambda>x _. f x) xs ()"

lemma rall_Nil [simp]: "rall f [] = Inr ()"
  by (simp add: rall_def)

lemma rall_Cons [simp]: "rall f (x # xs) = rbind (f x) (\<lambda>_. rall f xs)"
  by (cases "f x") (auto simp: rall_def)

lemma rall_eq_Inr: "rall f xs = Inr u \<longleftrightarrow> (\<forall>x\<in>set xs. f x = Inr ())"
  by (induction xs) (auto simp: rbind_eq_Inr)

section \<open>Machine arithmetic\<close>

definition sat_add :: "'a::len word \<Rightarrow> 'a word \<Rightarrow> 'a word" where
  "sat_add a b = (if unat a + unat b < 2 ^ LENGTH('a) then a + b else - 1)"

definition sat_sub :: "'a::len word \<Rightarrow> 'a word \<Rightarrow> 'a word" where
  "sat_sub a b = (if b \<le> a then a - b else 0)"

definition sat_mul :: "'a::len word \<Rightarrow> 'a word \<Rightarrow> 'a word" where
  "sat_mul a b = (if unat a * unat b < 2 ^ LENGTH('a) then a * b else - 1)"

definition checked_add :: "'a::len word \<Rightarrow> 'a word \<Rightarrow> 'a word option" where
  "checked_add a b = (if unat a + unat b < 2 ^ LENGTH('a) then Some (a + b) else None)"

definition checked_sub :: "'a::len word \<Rightarrow> 'a word \<Rightarrow> 'a word option" where
  "checked_sub a b = (if b \<le> a then Some (a - b) else None)"

lemma unat_max_word: "unat (- 1 :: 'a::len word) = 2 ^ LENGTH('a) - 1"
  by (simp add: unsigned_minus_1_eq_mask mask_eq_exp_minus_1)

lemma unat_less_2p [simp]: "unat (a :: 'a::len word) < 2 ^ LENGTH('a)"
  by (rule unsigned_less)

lemma pow_ge_1: "1 \<le> (2 :: nat) ^ LENGTH('a::len)"
  by simp

lemma unat_le_max: "unat (a :: 'a::len word) \<le> 2 ^ LENGTH('a) - 1"
  using unat_less_2p [of a] pow_ge_1 [where 'a = 'a] by linarith


lemma unat_sat_add [rust_arith]:
  "unat (sat_add a b :: 'a::len word) = min (unat a + unat b) (2 ^ LENGTH('a) - 1)"
  by (auto simp: sat_add_def unat_max_word unat_word_ariths min_def)

lemma unat_sat_sub [rust_arith]: "unat (sat_sub a b) = unat a - unat b"
  by (auto simp: sat_sub_def unat_sub word_le_nat_alt)

lemma unat_sat_mul [rust_arith]:
  "unat (sat_mul a b :: 'a::len word) = min (unat a * unat b) (2 ^ LENGTH('a) - 1)"
proof (cases "unat a * unat b < 2 ^ LENGTH('a)")
  case True
  then have "unat a * unat b \<le> 2 ^ LENGTH('a) - 1" by linarith
  with True show ?thesis by (simp add: sat_mul_def unat_word_ariths min_absorb1)
next
  case False
  then have "2 ^ LENGTH('a) - 1 \<le> unat a * unat b" by linarith
  with False show ?thesis by (simp add: sat_mul_def unat_max_word min_absorb2)
qed

lemma unat_sub_le [rust_arith]: "b \<le> a \<Longrightarrow> unat (a - b :: 'a::len word) = unat a - unat b"
  by (simp add: unat_sub)

lemma unat_add_small:
  "unat a + unat b < 2 ^ LENGTH('a) \<Longrightarrow> unat (a + b :: 'a::len word) = unat a + unat b"
  by (simp add: unat_word_ariths)

lemma sat_add_0 [simp]: "sat_add a 0 = a" "sat_add 0 a = a"
  by (simp_all add: sat_add_def)

lemma sat_add_ge: "a \<le> sat_add a b"
  using unat_le_max [of a] by (simp add: word_le_nat_alt rust_arith)

lemma sat_add_commute: "sat_add a b = sat_add b a"
  by (simp add: sat_add_def add.commute)

lemma unat_checked_sub: "checked_sub a b = Some c \<Longrightarrow> unat c = unat a - unat b \<and> b \<le> a"
  by (auto simp: checked_sub_def rust_arith split: if_splits)

lemma unat_checked_add: "checked_add a b = Some c \<Longrightarrow> unat c = unat a + unat b"
  by (auto simp: checked_add_def unat_word_ariths split: if_splits)

section \<open>Big-endian byte strings\<close>

text \<open>\<open>be_bytes n w\<close> is the big-endian form of \<open>w\<close> on \<open>n\<close> bytes (\<open>to_be_bytes\<close> of Rust,
  and the serialisation of keys, hashes and signatures).\<close>

definition be_bytes :: "nat \<Rightarrow> 'a::len word \<Rightarrow> bytes" where
  "be_bytes n w = map (\<lambda>i. ucast (drop_bit (8 * i) w)) (rev [0..<n])"

definition le_bytes :: "nat \<Rightarrow> 'a::len word \<Rightarrow> bytes" where
  "le_bytes n w = rev (be_bytes n w)"

definition from_be :: "bytes \<Rightarrow> 'a::len word" where
  "from_be bs = foldl (\<lambda>acc b. push_bit 8 acc + ucast b) 0 bs"

lemma length_be_bytes [simp]: "length (be_bytes n w) = n"
  by (simp add: be_bytes_def)

lemma length_le_bytes [simp]: "length (le_bytes n w) = n"
  by (simp add: le_bytes_def)

lemma be_bytes_nth:
  "i < n \<Longrightarrow> be_bytes n w ! i = ucast (drop_bit (8 * (n - 1 - i)) w)"
  by (simp add: be_bytes_def rev_nth)

lemma be_bytes_Suc: "be_bytes (Suc n) w = ucast (drop_bit (8 * n) w) # be_bytes n w"
  by (simp add: be_bytes_def)

lemma bit_be_bytes:
  assumes "k < 8 * n"
  shows "bit (be_bytes n w ! (n - 1 - k div 8)) (k mod 8) = bit w k"
proof -
  have lt: "n - 1 - k div 8 < n" using assms by (cases n) auto
  have "k div 8 < n" using assms by auto
  then have "n - 1 - (n - 1 - k div 8) = k div 8" by auto
  then show ?thesis
    using lt by (simp add: be_bytes_nth bit_simps del: One_nat_def)
qed

lemma be_bytes_inj:
  fixes v w :: "'a::len word"
  assumes "be_bytes n v = be_bytes n w" and "LENGTH('a) \<le> 8 * n"
  shows "v = w"
proof (rule bit_word_eqI)
  fix k assume "k < LENGTH('a)"
  then have "k < 8 * n" using assms(2) by simp
  then show "bit v k = bit w k" using assms(1) bit_be_bytes [of k n v] bit_be_bytes [of k n w] by simp
qed

lemma be_bytes_eq_iff [simp]:
  "LENGTH('a::len) \<le> 8 * n \<Longrightarrow> be_bytes n v = be_bytes n (w :: 'a word) \<longleftrightarrow> v = w"
  using be_bytes_inj by blast

lemma le_bytes_eq_iff [simp]:
  "LENGTH('a::len) \<le> 8 * n \<Longrightarrow> le_bytes n v = le_bytes n (w :: 'a word) \<longleftrightarrow> v = w"
  by (simp add: le_bytes_def)

lemma from_be_snoc: "from_be (bs @ [b]) = push_bit 8 (from_be bs) + ucast b"
  by (simp add: from_be_def)

lemma take_bit_Suc8:
  fixes w :: "'a::len word"
  shows "push_bit 8 (take_bit (8 * n) (drop_bit 8 w)) + take_bit 8 w = take_bit (8 * Suc n) w"
proof -
  have "take_bit (8 * n) (drop_bit 8 w) = drop_bit 8 (take_bit (8 * Suc n) w)"
    by (simp add: drop_bit_take_bit)
  moreover have "take_bit 8 w = take_bit 8 (take_bit (8 * Suc n) w)"
    by simp
  ultimately show ?thesis
    using bits_ident [of 8 "take_bit (8 * Suc n) w"] by simp
qed

lemma be_bytes_snoc: "be_bytes (Suc n) w = be_bytes n (drop_bit 8 w) @ [ucast w]"
proof (rule nth_equalityI)
  fix i assume "i < length (be_bytes (Suc n) w)"
  then have i: "i < Suc n" by simp
  show "be_bytes (Suc n) w ! i = (be_bytes n (drop_bit 8 w) @ [ucast w]) ! i"
  proof (cases "i = n")
    case True
    then show ?thesis by (simp add: be_bytes_nth nth_append)
  next
    case False
    with i have "i < n" by simp
    moreover have "8 * (n - i) = 8 * (n - 1 - i) + 8" using \<open>i < n\<close> by auto
    ultimately show ?thesis
      by (simp add: be_bytes_nth nth_append drop_bit_drop_bit ac_simps)
  qed
qed simp

lemma from_be_be_bytes_take: "from_be (be_bytes n w) = take_bit (8 * n) w"
proof (induction n arbitrary: w)
  case 0
  then show ?case by (simp add: be_bytes_def from_be_def)
next
  case (Suc n)
  have "ucast (ucast w :: u8) = take_bit 8 w"
    by (rule bit_word_eqI) (auto simp: bit_simps)
  then show ?case
    using Suc take_bit_Suc8 [of n w] by (simp add: be_bytes_snoc from_be_snoc)
qed

lemma from_be_be_bytes [simp]:
  fixes w :: "'a::len word"
  assumes "LENGTH('a) \<le> 8 * n"
  shows "from_be (be_bytes n w) = w"
proof -
  have "take_bit (8 * n) w = w"
    by (rule bit_word_eqI) (use assms in \<open>auto simp: bit_simps\<close>)
  then show ?thesis by (simp add: from_be_be_bytes_take)
qed

definition bytes_of :: "string \<Rightarrow> bytes" where
  "bytes_of s = map of_char s"

lemma length_bytes_of [simp]: "length (bytes_of s) = length s"
  by (simp add: bytes_of_def)

lemma of_char_u8_inj: "(of_char c :: u8) = of_char d \<longleftrightarrow> c = d"
proof
  assume eq: "(of_char c :: u8) = of_char d"
  have "unat (of_char x :: u8) = of_char x" for x
  proof -
    have "unat (of_nat (of_char x) :: u8) = of_char x"
      by (simp add: unat_of_nat take_bit_nat_eq_self)
    then show ?thesis by (simp add: of_nat_of_char)
  qed
  with eq have "(of_char c :: nat) = of_char d" by metis
  then show "c = d" by (simp add: of_char_eq_iff)
qed simp

lemma bytes_of_eq_iff [simp]: "bytes_of s = bytes_of t \<longleftrightarrow> s = t"
  by (simp add: bytes_of_def inj_map_eq_map inj_def of_char_u8_inj)

section \<open>Text\<close>

text \<open>\<open>str::trim\<close> on ASCII text.\<close>

definition is_space :: "char \<Rightarrow> bool" where
  "is_space ch \<longleftrightarrow> (let k = (of_char ch :: nat) in k = 32 \<or> 9 \<le> k \<and> k \<le> 13)"

definition str_trim :: "string \<Rightarrow> string" where
  "str_trim s = rev (dropWhile is_space (rev (dropWhile is_space s)))"

section \<open>Consecutive heights\<close>

text \<open>\<open>for h in start..=target\<close>.\<close>

definition heights :: "u32 \<Rightarrow> u32 \<Rightarrow> u32 list" where
  "heights start target = map of_nat [unat start..<Suc (unat target)]"

definition blocks_above :: "u32 \<Rightarrow> u32 \<Rightarrow> u32 list" where
  "blocks_above a b = map of_nat [Suc (unat a)..<Suc (unat b)]"

lemma unat_plus_1: "a < b \<Longrightarrow> unat (a + 1 :: u32) = Suc (unat a)"
proof -
  assume "a < b"
  then have "unat a < unat b" by (simp add: word_less_nat_alt)
  with unat_less_2p [of b] have "unat a + unat (1 :: u32) < 2 ^ LENGTH(32)" by simp
  then show ?thesis using unat_add_small [of a 1] by simp
qed

lemma heights_above: "a < b \<Longrightarrow> heights (a + 1) b = blocks_above a b"
  by (simp add: heights_def blocks_above_def unat_plus_1)

lemma blocks_above_append:
  "a \<le> b \<Longrightarrow> b \<le> c \<Longrightarrow> blocks_above a b @ blocks_above b c = blocks_above a c"
  using upt_add_eq_append [of "Suc (unat a)" "Suc (unat b)" "unat c - unat b"]
  by (simp add: blocks_above_def word_le_nat_alt flip: map_append del: upt_Suc)

lemma blocks_above_same [simp]: "blocks_above a a = []"
  by (simp add: blocks_above_def)

lemma length_blocks_above: "length (blocks_above a b) = unat b - unat a"
  by (simp add: blocks_above_def del: upt_Suc)

lemma last_blocks_above: "a < b \<Longrightarrow> blocks_above a b \<noteq> [] \<and> last (blocks_above a b) = b"
  by (simp add: blocks_above_def word_less_nat_alt last_map del: upt_Suc)

lemma blocks_above_Cons: "a < b \<Longrightarrow> blocks_above a b = (a + 1) # blocks_above (a + 1) b"
proof -
  assume ab: "a < b"
  then have u: "unat (a + 1) = Suc (unat a)" by (rule unat_plus_1)
  have "unat a < unat b" using ab by (simp add: word_less_nat_alt)
  then have "[Suc (unat a)..<Suc (unat b)] = Suc (unat a) # [Suc (Suc (unat a))..<Suc (unat b)]"
    by (simp add: upt_conv_Cons)
  moreover have "of_nat (Suc (unat a)) = a + 1" using arg_cong [OF u, of "of_nat :: nat \<Rightarrow> u32"] by simp
  ultimately show ?thesis unfolding blocks_above_def u by simp
qed

end
