(* ===== verification/Codec.thy ===== *)
theory Codec
  imports Prelude
begin

text \<open>
  Prefix-free codes. Every hash of the program is taken over a byte string that is
  assembled field by field; the string determines the fields when each field is
  written by a code of which no code word is a proper prefix of another. The
  locale \<open>prefix_code\<close> states this interface, \<open>fixed_code\<close> is the common
  special case of a fixed width, and the interpretations below are the encoders
  the program uses: big- and little-endian integers, 32-byte keys and hashes,
  64-byte signatures and the one-byte tagged options of the block header.

  The key types of the \<open>secp256k1\<close> and \<open>bitcoin\<close> crates are declared here, with the
  order that \<open>BTreeMap\<close> iterates in.
\<close>

section \<open>Key and outpoint types\<close>

datatype XOnlyPublicKey = XOnly (xonly_word: "256 word")

type_synonym Signature = "512 word"
type_synonym Txid = "256 word"
type_synonym Script = bytes

datatype OutPoint = OutPoint (txid: Txid) (vout: u32)

instantiation XOnlyPublicKey :: linorder
begin

definition less_eq_XOnlyPublicKey :: "XOnlyPublicKey \<Rightarrow> XOnlyPublicKey \<Rightarrow> bool" where
  "less_eq_XOnlyPublicKey a b \<longleftrightarrow> xonly_word a \<le> xonly_word b"

definition less_XOnlyPublicKey :: "XOnlyPublicKey \<Rightarrow> XOnlyPublicKey \<Rightarrow> bool" where
  "less_XOnlyPublicKey a b \<longleftrightarrow> xonly_word a < xonly_word b"

instance
  by standard
    (auto simp: less_eq_XOnlyPublicKey_def less_XOnlyPublicKey_def XOnlyPublicKey.expand)

end

instantiation OutPoint :: linorder
begin

definition less_eq_OutPoint :: "OutPoint \<Rightarrow> OutPoint \<Rightarrow> bool" where
  "less_eq_OutPoint p q \<longleftrightarrow> txid p < txid q \<or> txid p = txid q \<and> vout p \<le> vout q"

definition less_OutPoint :: "OutPoint \<Rightarrow> OutPoint \<Rightarrow> bool" where
  "less_OutPoint p q \<longleftrightarrow> txid p < txid q \<or> txid p = txid q \<and> vout p < vout q"

instance
  by standard
    (auto simp: less_eq_OutPoint_def less_OutPoint_def OutPoint.expand)

end

section \<open>Codes\<close>

locale prefix_code =
  fixes enc :: "'a \<Rightarrow> bytes"
  assumes code: "enc a @ r = enc b @ s \<Longrightarrow> a = b \<and> r = s"
begin

lemma code_iff: "enc a @ r = enc b @ s \<longleftrightarrow> a = b \<and> r = s"
  using code by blast

lemma enc_inj: "enc a = enc b \<longleftrightarrow> a = b"
  using code [of a "[]" b "[]"] by auto

lemma pair_code:
  assumes "\<And>u v r s. enc' u @ r = enc' v @ s \<Longrightarrow> u = v \<and> r = s"
    and "(enc a @ enc' u) @ r = (enc b @ enc' v) @ s"
  shows "a = b \<and> u = v \<and> r = s"
proof -
  have "a = b \<and> enc' u @ r = enc' v @ s"
    using assms(2) code [of a "enc' u @ r" b "enc' v @ s"] by simp
  then show ?thesis using assms(1) [of u r v s] by simp
qed

text \<open>A one-byte tag in front of an optional field keeps the code prefix-free.\<close>

lemma tagged_code:
  assumes "(case p of None \<Rightarrow> [0] | Some a \<Rightarrow> 1 # enc a) @ r =
           (case q of None \<Rightarrow> [0] | Some a \<Rightarrow> 1 # enc a) @ s"
  shows "p = q \<and> r = s"
  using assms by (auto split: option.splits dest!: code)

text \<open>A list of code words of one code is determined by their concatenation.\<close>

lemma concat_code:
  assumes "\<And>a. enc a \<noteq> []" and "concat (map enc xs) = concat (map enc ys)"
  shows "xs = ys"
  using assms(2)
proof (induction xs arbitrary: ys)
  case Nil
  with assms(1) show ?case by (cases ys) auto
next
  case (Cons x xs)
  then obtain y ys' where ys: "ys = y # ys'" using assms(1) by (cases ys) auto
  with Cons.prems have "x = y \<and> concat (map enc xs) = concat (map enc ys')"
    by (intro code) simp
  with Cons.IH ys show ?case by simp
qed

end

locale fixed_code =
  fixes enc :: "'a \<Rightarrow> bytes" and width :: nat
  assumes width: "length (enc a) = width"
    and fixed_inj: "enc a = enc b \<Longrightarrow> a = b"

sublocale fixed_code \<subseteq> prefix_code enc
proof
  fix a b r s assume "enc a @ r = enc b @ s"
  then show "a = b \<and> r = s" using width fixed_inj by (metis append_eq_append_conv)
qed

definition tagged :: "('a \<Rightarrow> bytes) \<Rightarrow> 'a option \<Rightarrow> bytes" where
  "tagged enc x = (case x of None \<Rightarrow> [0] | Some a \<Rightarrow> 1 # enc a)"

definition serialize :: "XOnlyPublicKey \<Rightarrow> bytes" where
  "serialize a = be_bytes 32 (xonly_word a)"

definition outpoint_be :: "OutPoint \<Rightarrow> bytes" where
  "outpoint_be p = be_bytes 32 (txid p) @ be_bytes 4 (vout p)"

definition outpoint_le :: "OutPoint \<Rightarrow> bytes" where
  "outpoint_le p = be_bytes 32 (txid p) @ le_bytes 4 (vout p)"

interpretation u32_code: fixed_code "be_bytes 4 :: u32 \<Rightarrow> bytes" 4
  by unfold_locales auto

interpretation u32_le_code: fixed_code "le_bytes 4 :: u32 \<Rightarrow> bytes" 4
  by unfold_locales auto

interpretation u64_code: fixed_code "be_bytes 8 :: u64 \<Rightarrow> bytes" 8
  by unfold_locales auto

interpretation hash_code: fixed_code "be_bytes 32 :: H256 \<Rightarrow> bytes" 32
  by unfold_locales auto

interpretation sig_code: fixed_code "be_bytes 64 :: Signature \<Rightarrow> bytes" 64
  by unfold_locales auto

interpretation key_code: fixed_code serialize 32
  by unfold_locales (auto simp: serialize_def XOnlyPublicKey.expand)

interpretation outpoint_code: fixed_code outpoint_be 36
  by unfold_locales (auto simp: outpoint_be_def hash_code.code_iff OutPoint.expand)

interpretation outpoint_le_code: fixed_code outpoint_le 36
  by unfold_locales (auto simp: outpoint_le_def hash_code.code_iff OutPoint.expand)

interpretation opt_key_code: prefix_code "tagged serialize"
  by unfold_locales (simp only: tagged_def, rule key_code.tagged_code)

interpretation opt_outpoint_code: prefix_code "tagged outpoint_be"
  by unfold_locales (simp only: tagged_def, rule outpoint_code.tagged_code)

lemmas code_iffs [encode_inj] =
  u32_code.code_iff u32_le_code.code_iff u64_code.code_iff hash_code.code_iff
  sig_code.code_iff key_code.code_iff outpoint_code.code_iff outpoint_le_code.code_iff
  opt_key_code.code_iff opt_outpoint_code.code_iff

lemmas enc_injs [encode_inj] =
  u32_code.enc_inj u32_le_code.enc_inj u64_code.enc_inj hash_code.enc_inj
  sig_code.enc_inj key_code.enc_inj outpoint_code.enc_inj outpoint_le_code.enc_inj
  opt_key_code.enc_inj opt_outpoint_code.enc_inj

lemma length_serialize [simp]: "length (serialize a) = 32"
  by (rule key_code.width)

lemma length_outpoint_be [simp]: "length (outpoint_be p) = 36"
  by (rule outpoint_code.width)

lemma length_outpoint_le [simp]: "length (outpoint_le p) = 36"
  by (rule outpoint_le_code.width)

lemma length_tagged_key: "length (tagged serialize k) = (case k of None \<Rightarrow> 1 | Some _ \<Rightarrow> 33)"
  by (simp add: tagged_def split: option.split)

section \<open>Decimal strings\<close>

text \<open>\<open>u32::to_string\<close> and \<open>str::parse::<u32>\<close> of the standard library. Parsing accepts a
  leading plus sign, and fails on an empty string, a non-digit and an overflow.\<close>

fun nat_to_string :: "nat \<Rightarrow> string" where
  "nat_to_string n =
     (if n < 10 then [char_of (48 + n)] else nat_to_string (n div 10) @ [char_of (48 + n mod 10)])"

declare nat_to_string.simps [simp del]

definition digit_of :: "char \<Rightarrow> nat option" where
  "digit_of c = (let k = (of_char c :: nat) in if 48 \<le> k \<and> k < 58 then Some (k - 48) else None)"

fun parse_digits :: "nat \<Rightarrow> string \<Rightarrow> nat option" where
  "parse_digits acc [] = Some acc"
| "parse_digits acc (c # cs) =
     (case digit_of c of None \<Rightarrow> None | Some d \<Rightarrow> parse_digits (10 * acc + d) cs)"

definition u32_to_string :: "u32 \<Rightarrow> string" where
  "u32_to_string w = nat_to_string (unat w)"

definition parse_u32 :: "string \<Rightarrow> u32 option" where
  "parse_u32 s =
     (let ds = (case s of [] \<Rightarrow> [] | c # cs \<Rightarrow> if c = CHR ''+'' then cs else s)
      in if ds = [] then None
         else case parse_digits 0 ds of
                None \<Rightarrow> None
              | Some n \<Rightarrow> if n < 2 ^ 32 then Some (of_nat n) else None)"

lemma parse_digits_append:
  "parse_digits acc (xs @ ys) =
     (case parse_digits acc xs of None \<Rightarrow> None | Some a \<Rightarrow> parse_digits a ys)"
  by (induction xs arbitrary: acc) (auto split: option.splits)

lemma digit_of_char: "d < 10 \<Longrightarrow> digit_of (char_of (48 + d)) = Some d"
  by (simp add: digit_of_def Let_def of_char_of)

lemma parse_digits_nat: "parse_digits 0 (nat_to_string n) = Some n"
proof (induction n rule: nat_to_string.induct)
  case (1 n)
  show ?case
  proof (cases "n < 10")
    case True
    then show ?thesis by (simp add: nat_to_string.simps [of n] digit_of_char)
  next
    case False
    with 1 show ?thesis
      by (simp add: nat_to_string.simps [of n] parse_digits_append digit_of_char)
  qed
qed

lemma digit_of_nat_to_string: "c \<in> set (nat_to_string n) \<Longrightarrow> digit_of c \<noteq> None"
proof (induction n rule: nat_to_string.induct)
  case (1 n)
  then show ?case
    by (subst (asm) nat_to_string.simps) (auto simp: digit_of_char split: if_splits)
qed

lemma nat_to_string_not_Nil [simp]: "nat_to_string n \<noteq> []"
  by (subst nat_to_string.simps) simp

lemma not_in_nat_to_string:
  "digit_of c = None \<Longrightarrow> c \<notin> set (nat_to_string n)"
  using digit_of_nat_to_string by blast

lemma digit_of_punctuation [simp]: "digit_of CHR ''+'' = None" "digit_of CHR '':'' = None"
  by (simp_all add: digit_of_def)

lemma parse_u32_to_string [simp]: "parse_u32 (u32_to_string w) = Some w"
proof -
  obtain c cs where s: "nat_to_string (unat w) = c # cs"
    by (cases "nat_to_string (unat w)") auto
  have "c \<noteq> CHR ''+''"
    using not_in_nat_to_string [of "CHR ''+''" "unat w"] s by auto
  moreover have "unat w < 2 ^ 32" using unat_less_2p [of w] by simp
  ultimately show ?thesis
    using parse_digits_nat [of "unat w"] by (simp add: parse_u32_def u32_to_string_def s)
qed

lemma colon_not_in_u32: "CHR '':'' \<notin> set (u32_to_string w)"
  by (simp add: u32_to_string_def not_in_nat_to_string)

text \<open>\<open>str::split_once\<close>: the parts around the first occurrence of the separator.\<close>

definition split_once :: "char \<Rightarrow> string \<Rightarrow> (string \<times> string) option" where
  "split_once c s =
     (if c \<in> set s then Some (takeWhile (\<lambda>d. d \<noteq> c) s, tl (dropWhile (\<lambda>d. d \<noteq> c) s)) else None)"

lemma split_once_append:
  "c \<notin> set a \<Longrightarrow> split_once c (a @ c # b) = Some (a, b)"
  by (simp add: split_once_def takeWhile_append dropWhile_append)

end
