(* ===== verification/Externals.thy ===== *)
theory Externals
  imports Complex_Main Codec
begin

text \<open>
  The third-party functions the program calls, as one record that every definition
  using them takes as an argument: hashing (\<open>sha2\<close>), signatures and key parsing
  (\<open>secp256k1\<close>), hexadecimal (\<open>hex\<close>), script and Taproot construction, txid
  printing and parsing (\<open>bitcoin\<close>), the exponential (\<open>libm\<close>) and Bech32 (\<open>bech32\<close>). None of them is given a
  definition: what a theorem needs of one is a hypothesis of that theorem.

  Three pieces of documented behaviour recur, and are named here: hexadecimal and txid
  round trips and the absence of a hash collision among a given list of preimages.
  Since a 256-bit hash cannot be injective on all byte strings, no theorem assumes
  injectivity: a result that depends on the hash says either that the claim holds
  or that two listed byte strings, computed from the run itself, collide.
\<close>

datatype Network = NetBitcoin | NetTestnet | NetSignet | NetRegtest

datatype Instruction = PushBytes bytes | Op u8

type_synonym Keypair = "256 word"

text \<open>An opaque \<open>TaprootSpendInfo\<close>: \<open>finalize\<close> is a function of the internal key and of
  the (depth, script) leaves given to the builder, so these identify it.\<close>

record TaprootSpendInfo =
  internal_key :: XOnlyPublicKey
  tap_leaves :: "(nat \<times> Script) list"

record ext =
  sha256 :: "bytes \<Rightarrow> H256"
  verify_schnorr :: "Signature \<Rightarrow> H256 \<Rightarrow> XOnlyPublicKey \<Rightarrow> bool"
  sign_schnorr :: "H256 \<Rightarrow> Keypair \<Rightarrow> Signature"
  keypair_xonly :: "Keypair \<Rightarrow> XOnlyPublicKey"
  xonly_from_slice :: "bytes \<Rightarrow> XOnlyPublicKey option"
  hex_encode :: "bytes \<Rightarrow> string"
  hex_decode :: "string \<Rightarrow> bytes option"
  push_int :: "i64 \<Rightarrow> bytes"
  push_slice :: "bytes \<Rightarrow> bytes"
  push_x_only_key :: "XOnlyPublicKey \<Rightarrow> bytes"
  instructions :: "Script \<Rightarrow> Instruction option list"
  taproot_output_key :: "TaprootSpendInfo \<Rightarrow> XOnlyPublicKey"
  new_p2tr_tweaked :: "XOnlyPublicKey \<Rightarrow> Script"
  p2tr_tweaked_address :: "XOnlyPublicKey \<Rightarrow> Network \<Rightarrow> string"
  tap_leaf_hash :: "Script \<Rightarrow> H256"
  txid_to_string :: "Txid \<Rightarrow> string"
  txid_from_str :: "string \<Rightarrow> Txid option"
  exp_f64 :: "rat \<Rightarrow> rat"
  bech32m_encode :: "string \<Rightarrow> bytes \<Rightarrow> string"
  bech32_decode :: "string \<Rightarrow> (string \<times> bytes) option"

definition hex_ok :: "ext \<Rightarrow> bool" where
  "hex_ok x \<longleftrightarrow> (\<forall>bs. hex_decode x (hex_encode x bs) = Some bs \<and>
     length (hex_encode x bs) = 2 * length bs \<and>
     set (hex_encode x bs) \<subseteq> set ''0123456789abcdef'')"

definition txid_str_ok :: "ext \<Rightarrow> bool" where
  "txid_str_ok x \<longleftrightarrow> (\<forall>t. txid_from_str x (txid_to_string x t) = Some t \<and> CHR '':'' \<notin> set (txid_to_string x t))"

lemma hex_ok_decode: "hex_ok x \<Longrightarrow> hex_decode x (hex_encode x bs) = Some bs"
  and hex_ok_length: "hex_ok x \<Longrightarrow> length (hex_encode x bs) = 2 * length bs"
  and hex_ok_digits: "hex_ok x \<Longrightarrow> c \<in> set (hex_encode x bs) \<Longrightarrow> c \<in> set ''0123456789abcdef''"
  unfolding hex_ok_def by blast+

lemma hex_ok_inj: "hex_ok x \<Longrightarrow> hex_encode x a = hex_encode x b \<longleftrightarrow> a = b"
  unfolding hex_ok_def by (metis option.inject)

section \<open>Collisions\<close>

definition collides :: "('a \<Rightarrow> 'b) \<Rightarrow> 'a list \<Rightarrow> bool" where
  "collides h ps \<longleftrightarrow> (\<exists>p\<in>set ps. \<exists>q\<in>set ps. p \<noteq> q \<and> h p = h q)"

lemma collidesI: "p \<in> set ps \<Longrightarrow> q \<in> set ps \<Longrightarrow> p \<noteq> q \<Longrightarrow> h p = h q \<Longrightarrow> collides h ps"
  by (auto simp: collides_def)

lemma collides_mono: "collides h ps \<Longrightarrow> set ps \<subseteq> set qs \<Longrightarrow> collides h qs"
  by (auto simp: collides_def)

lemma not_collidesD:
  "\<not> collides h ps \<Longrightarrow> p \<in> set ps \<Longrightarrow> q \<in> set ps \<Longrightarrow> h p = h q \<Longrightarrow> p = q"
  by (auto simp: collides_def)

lemma collides_append [simp]: "collides h ps \<Longrightarrow> collides h (ps @ qs)"
  "collides h qs \<Longrightarrow> collides h (ps @ qs)"
  by (auto intro: collides_mono)

section \<open>A concrete environment\<close>

text \<open>A set of total functions for closed witnesses: a positional checksum in place of
  the hash, a signature scheme in which a signature repeats the digest and names the
  signer, hexadecimal, and direct script pushes.
  It only shows that hypotheses can hold together.\<close>

definition toy_sha :: "bytes \<Rightarrow> H256" where
  "toy_sha bs = foldl (\<lambda>acc b. acc * 257 + ucast b + 1) 0 bs"

definition hex_alphabet :: string where "hex_alphabet = ''0123456789abcdef''"

definition hex_digit :: "nat \<Rightarrow> char" where
  "hex_digit n = hex_alphabet ! n"

definition hex_value :: "char \<Rightarrow> nat option" where
  "hex_value c = map_of (zip hex_alphabet [0..<16]) c"

fun toy_unhex :: "string \<Rightarrow> bytes option" where
  "toy_unhex [] = Some []"
| "toy_unhex [c] = None"
| "toy_unhex (c # d # s) =
     (case (hex_value c, hex_value d, toy_unhex s) of
        (Some h, Some l, Some bs) \<Rightarrow> Some (of_nat (16 * h + l) # bs)
      | _ \<Rightarrow> None)"

definition toy_hex_encode :: "bytes \<Rightarrow> string" where
  "toy_hex_encode bs = concat (map (\<lambda>b. [hex_digit (unat b div 16), hex_digit (unat b mod 16)]) bs)"

definition toy_ext :: ext where
  "toy_ext = \<lparr>
     sha256 = toy_sha,
     verify_schnorr = (\<lambda>sig m pk. sig = word_cat m (xonly_word pk)),
     sign_schnorr = (\<lambda>m kp. word_cat m kp),
     keypair_xonly = XOnly,
     xonly_from_slice = (\<lambda>bs. if length bs = 32 then Some (XOnly (from_be bs)) else None),
     hex_encode = toy_hex_encode,
     hex_decode = toy_unhex,
     push_int = (\<lambda>i. 4 # be_bytes 4 (ucast i :: u32)),
     push_slice = (\<lambda>bs. of_nat (length bs) # bs),
     push_x_only_key = (\<lambda>k. 32 # serialize k),
     instructions = (\<lambda>s. case s of [] \<Rightarrow> [] | [c] \<Rightarrow> [Some (Op c)] | c # n # bs \<Rightarrow>
        [Some (Op c), if length bs = unat n then Some (PushBytes bs) else None]),
     taproot_output_key = (\<lambda>t. XOnly (toy_sha (concat (map snd (tap_leaves t))))),
     new_p2tr_tweaked = (\<lambda>k. [0x51, 0x20] @ serialize k),
     p2tr_tweaked_address = (\<lambda>k n. map (\<lambda>b. char_of (unat b)) (serialize k)),
     tap_leaf_hash = toy_sha,
     txid_to_string = (\<lambda>t. nat_to_string (unat t)),
     txid_from_str = (\<lambda>s. map_option of_nat (parse_digits 0 s)),
     exp_f64 = (\<lambda>r. 0),
     bech32m_encode = (\<lambda>hrp bs. hrp @ CHR ''1'' # map (\<lambda>b. char_of (unat b)) bs),
     bech32_decode = (\<lambda>s. map_option (\<lambda>(h, p). (h, bytes_of p)) (split_once CHR ''1'' s)) \<rparr>"

lemma unat_u8_of_char: "unat (of_char c :: u8) = of_char c"
proof -
  have "unat (of_nat (of_char c) :: u8) = of_char c"
    by (simp add: unat_of_nat take_bit_nat_eq_self)
  then show ?thesis by (simp add: of_nat_of_char)
qed

lemma of_char_of_u8: "(of_char (char_of (unat (b :: u8))) :: u8) = b"
proof -
  have "unat b < 256" using unat_less_2p [of b] by simp
  then have "unat (of_char (char_of (unat b)) :: u8) = unat b"
    by (simp add: unat_u8_of_char of_char_of)
  then show ?thesis by (simp add: word_unat_eq_iff)
qed

lemma hex_digit_cases: "n < 16 \<Longrightarrow> hex_value (hex_digit n) = Some n \<and> hex_digit n \<in> set hex_alphabet"
proof -
  assume n: "n < 16"
  have "length hex_alphabet = 16" "distinct hex_alphabet" by (simp_all add: hex_alphabet_def)
  with n show ?thesis by (simp add: hex_value_def hex_digit_def map_of_zip_nth)
qed

lemma toy_unhex_encode: "toy_unhex (toy_hex_encode bs) = Some bs"
proof (induction bs)
  case (Cons b bs)
  have b: "unat b div 16 < 16" using unat_less_2p [of b] by simp
  have "(of_nat (16 * (unat b div 16) + unat b mod 16) :: u8) = b" by simp
  with Cons show ?case
    using hex_digit_cases [OF b] hex_digit_cases [of "unat b mod 16"]
    by (simp add: toy_hex_encode_def)
qed (simp add: toy_hex_encode_def)

lemma hex_ok_toy: "hex_ok toy_ext"
proof -
  have "length (toy_hex_encode bs) = 2 * length bs" for bs
    by (induction bs) (auto simp: toy_hex_encode_def)
  moreover have "hex_digit (unat (b :: u8) div 16) \<in> set hex_alphabet"
    "hex_digit (unat b mod 16) \<in> set hex_alphabet" for b
    using hex_digit_cases [of "unat b div 16"] hex_digit_cases [of "unat b mod 16"]
      unat_less_2p [of b] by auto
  then have "set (toy_hex_encode bs) \<subseteq> set hex_alphabet" for bs
    unfolding toy_hex_encode_def by auto
  ultimately show ?thesis
    by (simp add: hex_ok_def toy_ext_def toy_unhex_encode hex_alphabet_def del: set_simps list.set)
qed

lemma txid_str_ok_toy: "txid_str_ok toy_ext"
  by (simp add: txid_str_ok_def toy_ext_def parse_digits_nat not_in_nat_to_string)

end
