(* ===== verification/SmtTree.thy ===== *)
theory SmtTree
  imports Externals
begin

text \<open>
  The binary Merkle tree the sparse Merkle tree of the program denotes. A node of height
  \<open>n\<close> is named by any key below it, of which only the bits from \<open>n\<close> up matter; \<open>tree\<close> is
  the hash of that node over a leaf function, \<open>path\<close> the hash reached from a leaf with a
  given list of siblings, and \<open>merkle\<close> the contract of a branch hash: it is taken over an
  injective encoding, so that equal roots reached along the same key have equal leaves and
  siblings unless two of the listed preimages collide.
\<close>

unbundle bit_operations_syntax

type_synonym Key = H256

primrec tree :: "(H256 \<Rightarrow> H256 \<Rightarrow> H256) \<Rightarrow> (Key \<Rightarrow> H256) \<Rightarrow> nat \<Rightarrow> Key \<Rightarrow> H256" where
  "tree br f 0 w = f w"
| "tree br f (Suc n) w = br (tree br f n (unset_bit n w)) (tree br f n (set_bit n w))"

definition sibling :: "(H256 \<Rightarrow> H256 \<Rightarrow> H256) \<Rightarrow> (Key \<Rightarrow> H256) \<Rightarrow> Key \<Rightarrow> nat \<Rightarrow> H256" where
  "sibling br f a k = tree br f k (flip_bit k a)"

primrec path :: "(H256 \<Rightarrow> H256 \<Rightarrow> H256) \<Rightarrow> Key \<Rightarrow> H256 \<Rightarrow> (nat \<Rightarrow> H256) \<Rightarrow> nat \<Rightarrow> H256" where
  "path br a h s 0 = h"
| "path br a h s (Suc n) =
     (if bit a n then br (s n) (path br a h s n) else br (path br a h s n) (s n))"

text \<open>The branch preimages met on the way from the leaf to height \<open>n\<close>.\<close>

definition path_preimages ::
    "(H256 \<Rightarrow> H256 \<Rightarrow> bytes) \<Rightarrow> (H256 \<Rightarrow> H256 \<Rightarrow> H256) \<Rightarrow> Key \<Rightarrow> H256 \<Rightarrow> (nat \<Rightarrow> H256) \<Rightarrow> nat \<Rightarrow> bytes list" where
  "path_preimages pre br a h s n =
     map (\<lambda>k. if bit a k then pre (s k) (path br a h s k) else pre (path br a h s k) (s k)) [0..<n]"

section \<open>Keys below a node\<close>

definition same_above :: "nat \<Rightarrow> Key \<Rightarrow> Key \<Rightarrow> bool" where
  "same_above n v w \<longleftrightarrow> (\<forall>i\<ge>n. bit v i = bit w i)"

lemma same_above_refl [simp]: "same_above n v v"
  by (simp add: same_above_def)

lemma same_above_sym: "same_above n v w \<Longrightarrow> same_above n w v"
  by (simp add: same_above_def)

lemma same_above_trans: "same_above n u v \<Longrightarrow> same_above n v w \<Longrightarrow> same_above n u w"
  by (simp add: same_above_def)

lemma same_above_0 [simp]: "same_above 0 v w \<longleftrightarrow> v = w"
  by (auto simp: same_above_def intro: bit_eqI)

lemma same_above_256 [simp]: "256 \<le> n \<Longrightarrow> same_above n v w"
  by (auto simp: same_above_def dest: bit_imp_le_length)

lemma same_above_bounded: "same_above n v w \<longleftrightarrow> (\<forall>i\<ge>n. i < 256 \<longrightarrow> bit v i = bit w i)"
proof -
  have "bit u i \<Longrightarrow> i < 256" for u :: Key and i using bit_imp_le_length [of u i] by simp
  then show ?thesis unfolding same_above_def by blast
qed

lemma same_above_Suc_gt: "same_above (Suc n) v w \<longleftrightarrow> (\<forall>i>n. bit v i = bit w i)"
  by (simp add: same_above_def Suc_le_eq)

lemma same_above_Suc: "same_above n v w \<longleftrightarrow> same_above (Suc n) v w \<and> bit v n = bit w n"
  unfolding same_above_Suc_gt by (auto simp: same_above_def le_eq_less_or_eq)

lemma same_above_mono: "same_above m v w \<Longrightarrow> m \<le> n \<Longrightarrow> same_above n v w"
  by (auto simp: same_above_def)

lemma same_above_setD:
  "same_above n v (unset_bit n w) \<Longrightarrow> same_above (Suc n) v w"
  "same_above n v (set_bit n w) \<Longrightarrow> same_above (Suc n) v w"
  "same_above n v (flip_bit n w) \<Longrightarrow> same_above (Suc n) v w"
  by (auto simp: same_above_def bit_simps dest: bit_imp_le_length)

lemma same_above_set:
  "same_above (Suc n) v w \<Longrightarrow> same_above n (unset_bit n v) (unset_bit n w)"
  "same_above (Suc n) v w \<Longrightarrow> same_above n (set_bit n v) (set_bit n w)"
  "same_above (Suc n) v w \<Longrightarrow> same_above n (flip_bit n v) (flip_bit n w) \<longleftrightarrow> bit v n = bit w n \<or> 256 \<le> n"
  unfolding same_above_Suc_gt
  by (auto simp: same_above_def bit_simps le_eq_less_or_eq dest: bit_imp_le_length)

lemma unset_bit_eq: "\<not> bit w n \<Longrightarrow> unset_bit n w = (w :: Key)"
  and set_bit_flip: "\<not> bit w n \<Longrightarrow> set_bit n w = flip_bit n (w :: Key)"
  and set_bit_eq: "bit w n \<Longrightarrow> set_bit n w = (w :: Key)"
  and unset_bit_flip: "bit w n \<Longrightarrow> unset_bit n w = flip_bit n (w :: Key)"
  by (rule bit_word_eqI; auto simp: bit_simps)+

text \<open>A key of the same parent either is below the same child or below its sibling.\<close>

lemma same_above_split:
  assumes "same_above (Suc n) v w" and "n < 256"
  shows "same_above n v w \<longleftrightarrow> bit v n = bit w n"
    and "same_above n v (flip_bit n w) \<longleftrightarrow> bit v n \<noteq> bit w n"
  using assms unfolding same_above_Suc_gt
  by (auto simp: same_above_def bit_simps le_eq_less_or_eq dest: bit_imp_le_length)

section \<open>Hashes of nodes\<close>

lemma tree_cong:
  "(\<And>v. same_above n v w \<Longrightarrow> f v = g v) \<Longrightarrow> tree br f n w = tree br g n w"
proof (induction n arbitrary: w)
  case (Suc n)
  have "tree br f n u = tree br g n u" if "u = unset_bit n w \<or> u = set_bit n w" for u
    using that by (intro Suc) (auto dest: same_above_setD)
  then show ?case by simp
qed simp

lemma tree_same: "same_above n v w \<Longrightarrow> tree br f n v = tree br f n w"
proof (induction n arbitrary: v w)
  case (Suc n)
  then show ?case
    using same_above_set(1,2) [OF Suc.prems] by (metis tree.simps(2))
qed simp

lemma tree_root: "tree br f 256 v = tree br f 256 w"
  by (rule tree_same) simp

lemma tree_step:
  "tree br f (Suc n) a =
     (if bit a n then br (sibling br f a n) (tree br f n a) else br (tree br f n a) (sibling br f a n))"
  by (simp add: sibling_def set_bit_eq unset_bit_flip set_bit_flip unset_bit_eq)

text \<open>Completeness: the honest siblings lead from every leaf to the node above it.\<close>

lemma path_sibling: "path br a (f a) (sibling br f a) n = tree br f n a"
  by (induction n) (simp_all only: path.simps tree.simps(1) tree_step)

lemma path_cong:
  "h = h' \<Longrightarrow> (\<And>k. k < n \<Longrightarrow> s k = s' k) \<Longrightarrow> path br a h s n = path br a h' s' n"
  by (induction n) auto

lemma sibling_cong:
  "(\<And>v. same_above k v (flip_bit k a) \<Longrightarrow> f v = g v) \<Longrightarrow> sibling br f a k = sibling br g a k"
  unfolding sibling_def by (rule tree_cong)

section \<open>Binding\<close>

locale merkle =
  fixes br :: "H256 \<Rightarrow> H256 \<Rightarrow> H256" and pre :: "H256 \<Rightarrow> H256 \<Rightarrow> bytes" and h :: "bytes \<Rightarrow> H256"
  assumes br_hash: "br l r = h (pre l r)"
    and pre_inj: "pre l r = pre l' r' \<Longrightarrow> l = l' \<and> r = r'"
begin

lemma pre_iff: "pre l r = pre l' r' \<longleftrightarrow> l = l' \<and> r = r'"
  using pre_inj by blast

lemma path_inj:
  assumes "path br a g s n = path br a g' s' n"
  shows "g = g' \<and> (\<forall>k<n. s k = s' k) \<or>
    collides h (path_preimages pre br a g s n @ path_preimages pre br a g' s' n)"
  using assms
proof (induction n)
  case (Suc n)
  let ?P = "\<lambda>g s. if bit a n then pre (s n) (path br a g s n) else pre (path br a g s n) (s n)"
  have cases: "path_preimages pre br a g s (Suc n) = path_preimages pre br a g s n @ [?P g s]" for g s
    by (simp add: path_preimages_def)
  have eq: "h (?P g s) = h (?P g' s')"
    using Suc.prems by (cases "bit a n") (simp_all add: br_hash [symmetric])
  show ?case
  proof (cases "?P g s = ?P g' s'")
    case False
    then show ?thesis
      using eq by (intro disjI2 collidesI [of "?P g s" _ "?P g' s'"]) (auto simp: cases)
  next
    case True
    then have n: "s n = s' n" and "path br a g s n = path br a g' s' n"
      by (auto simp: pre_iff split: if_splits)
    from Suc.IH [OF this(2)] show ?thesis
    proof
      assume "collides h (path_preimages pre br a g s n @ path_preimages pre br a g' s' n)"
      then show ?thesis by (intro disjI2) (rule collides_mono, auto simp: cases)
    qed (use n less_Suc_eq in auto)
  qed
qed simp

text \<open>Soundness against a tree: a path that reaches its root carries the tree's leaf and
  the tree's siblings.\<close>

lemma path_tree:
  assumes "path br a g s n = tree br f n a"
  shows "g = f a \<and> (\<forall>k<n. s k = sibling br f a k) \<or>
    collides h (path_preimages pre br a g s n @ path_preimages pre br a (f a) (sibling br f a) n)"
  using assms by (intro path_inj) (simp add: path_sibling)

end

end
