(* ===== verification/Hash.thy ===== *)
theory Hash
  imports Externals
begin

text \<open>\<open>hodl-core/src/hash.rs\<close>: the 32-byte hash value, its hexadecimal form and the
  (double) SHA-256 helpers. The value is a 256-bit word whose big-endian bytes are the
  array of the source.\<close>

datatype FromHexError = InvalidHex | InvalidStringLength

definition H256_ZERO :: H256 where
  "H256_ZERO = 0"

definition H256_sha256 :: "ext \<Rightarrow> bytes \<Rightarrow> H256" where
  "H256_sha256 x bs = sha256 x bs"

definition H256_sha256d :: "ext \<Rightarrow> bytes \<Rightarrow> H256" where
  "H256_sha256d x bs = H256_sha256 x (be_bytes 32 (H256_sha256 x bs))"

definition H256_to_hex :: "ext \<Rightarrow> H256 \<Rightarrow> string" where
  "H256_to_hex x h = hex_encode x (be_bytes 32 h)"

definition H256_from_hex :: "ext \<Rightarrow> string \<Rightarrow> (FromHexError, H256) result" where
  "H256_from_hex x s =
     (case hex_decode x s of
        None \<Rightarrow> Inl InvalidHex
      | Some v \<Rightarrow> if length v \<noteq> 32 then Inl InvalidStringLength else Inr (from_be v))"

text \<open>The text forms: \<open>Debug\<close>, \<open>Display\<close>, and the string that serde writes and reads.\<close>

definition H256_debug :: "ext \<Rightarrow> H256 \<Rightarrow> string" where
  "H256_debug x h = ''H256('' @ H256_to_hex x h @ '')''"

definition H256_display :: "ext \<Rightarrow> H256 \<Rightarrow> string" where
  "H256_display x h = H256_to_hex x h"

definition H256_serialize :: "ext \<Rightarrow> H256 \<Rightarrow> string" where
  "H256_serialize x h = H256_to_hex x h"

definition H256_deserialize :: "ext \<Rightarrow> string \<Rightarrow> (FromHexError, H256) result" where
  "H256_deserialize x s = H256_from_hex x s"

text \<open>Printing a hash and parsing it back is the identity; a hexadecimal string of any
  other length than 64 digits is refused.\<close>

lemma H256_hex_roundtrip: "hex_ok x \<Longrightarrow> H256_from_hex x (H256_to_hex x h) = Inr h"
  by (simp add: H256_from_hex_def H256_to_hex_def hex_ok_decode)

lemma H256_serde_roundtrip: "hex_ok x \<Longrightarrow> H256_deserialize x (H256_serialize x h) = Inr h"
  by (simp add: H256_deserialize_def H256_serialize_def H256_hex_roundtrip)

lemma H256_display_parses: "hex_ok x \<Longrightarrow> H256_from_hex x (H256_display x h) = Inr h"
  by (simp add: H256_display_def H256_hex_roundtrip)

lemma H256_from_hex_length:
  "H256_from_hex x s = Inr h \<Longrightarrow> \<exists>v. hex_decode x s = Some v \<and> length v = 32"
  by (auto simp: H256_from_hex_def split: option.splits if_splits)

lemma H256_to_hex_inj: "hex_ok x \<Longrightarrow> H256_to_hex x g = H256_to_hex x h \<longleftrightarrow> g = h"
  by (simp add: H256_to_hex_def hex_ok_inj hash_code.enc_inj)

end
