(* ===== verification/Smt.thy ===== *)
theory Smt
  imports SmtTree Hash
begin

text \<open>\<open>hodl-core/src/smt.rs\<close>: the sparse Merkle tree over account addresses, its inclusion
  proofs, and the multi-leaf update a light client runs. A depth is the source's
  \<open>usize\<close>; the recursions stop at \<open>TREE_DEPTH\<close>, and are only started at 0.\<close>

unbundle bit_operations_syntax

definition TREE_DEPTH :: nat where
  "TREE_DEPTH = 256"

record Account =
  acc_balance :: u64
  acc_nonce :: u64

definition branch_preimage :: "H256 \<Rightarrow> H256 \<Rightarrow> bytes" where
  "branch_preimage left right = bytes_of ''hodl-smt-branch-v0'' @ be_bytes 32 left @ be_bytes 32 right"

definition branch_hash :: "ext \<Rightarrow> H256 \<Rightarrow> H256 \<Rightarrow> H256" where
  "branch_hash x left right = sha256 x (branch_preimage left right)"

definition empty_subtree_hashes :: "ext \<Rightarrow> H256 list" where
  "empty_subtree_hashes x =
     foldl (\<lambda>h d. h[d + 1 := branch_hash x (h ! d) (h ! d)])
       ((replicate (TREE_DEPTH + 1) H256_ZERO)[0 := sha256 x (bytes_of ''hodl-smt-empty-leaf-v0'')])
       [0..<TREE_DEPTH]"

definition empty_root :: "ext \<Rightarrow> H256" where
  "empty_root x = empty_subtree_hashes x ! TREE_DEPTH"

definition populated_leaf_preimage :: "XOnlyPublicKey \<Rightarrow> u64 \<Rightarrow> u64 \<Rightarrow> bytes" where
  "populated_leaf_preimage addr balance nonce =
     bytes_of ''hodl-smt-leaf-v0'' @ serialize addr @ be_bytes 8 balance @ be_bytes 8 nonce"

definition populated_leaf_hash :: "ext \<Rightarrow> XOnlyPublicKey \<Rightarrow> u64 \<Rightarrow> u64 \<Rightarrow> H256" where
  "populated_leaf_hash x addr balance nonce = sha256 x (populated_leaf_preimage addr balance nonce)"

definition empty_leaf_hash :: "ext \<Rightarrow> H256" where
  "empty_leaf_hash x = empty_subtree_hashes x ! 0"

definition bit_at :: "XOnlyPublicKey \<Rightarrow> nat \<Rightarrow> u8" where
  "bit_at addr depth = drop_bit (7 - depth mod 8) (serialize addr ! (depth div 8)) AND 1"

datatype LeafKind = LeafAccount (leaf_balance: u64) (leaf_nonce: u64) | LeafEmpty

definition leaf_hash :: "ext \<Rightarrow> LeafKind \<Rightarrow> XOnlyPublicKey \<Rightarrow> H256" where
  "leaf_hash x l addr =
     (case l of LeafAccount balance nonce \<Rightarrow> populated_leaf_hash x addr balance nonce
      | LeafEmpty \<Rightarrow> empty_leaf_hash x)"

record InclusionProof =
  ip_address :: XOnlyPublicKey
  ip_leaf :: LeafKind
  ip_siblings :: "H256 list"

definition InclusionProof_verify :: "ext \<Rightarrow> InclusionProof \<Rightarrow> H256 \<Rightarrow> bool" where
  "InclusionProof_verify x p expected_root =
     (if length (ip_siblings p) \<noteq> TREE_DEPTH then False
      else foldl (\<lambda>current d.
             let sibling = ip_siblings p ! (TREE_DEPTH - 1 - d)
             in if bit_at (ip_address p) d = 0 then branch_hash x current sibling
                else branch_hash x sibling current)
           (leaf_hash x (ip_leaf p) (ip_address p)) (rev [0..<TREE_DEPTH]) = expected_root)"

function root_recursive :: "ext \<Rightarrow> (XOnlyPublicKey \<times> H256) list \<Rightarrow> nat \<Rightarrow> H256 list \<Rightarrow> H256" where
  "root_recursive x populated depth empties =
     (if populated = [] then empties ! (TREE_DEPTH - depth)
      else if TREE_DEPTH \<le> depth then snd (populated ! 0)
      else
        let (left, right) = partition (\<lambda>(a, _). bit_at a depth = 0) populated;
            lh = root_recursive x left (depth + 1) empties;
            rh = root_recursive x right (depth + 1) empties
        in branch_hash x lh rh)"
  by pat_completeness auto
termination
  by (relation "measure (\<lambda>(x, p, d, e). TREE_DEPTH - d)") auto

declare root_recursive.simps [simp del]

definition populated_of :: "ext \<Rightarrow> (XOnlyPublicKey \<times> Account) list \<Rightarrow> (XOnlyPublicKey \<times> H256) list" where
  "populated_of x accounts =
     map (\<lambda>(a, acct). (a, populated_leaf_hash x a (acc_balance acct) (acc_nonce acct))) accounts"

definition compute_root :: "ext \<Rightarrow> (XOnlyPublicKey \<times> Account) list \<Rightarrow> H256" where
  "compute_root x accounts =
     root_recursive x (populated_of x accounts) 0 (empty_subtree_hashes x)"

text \<open>The \<open>out\<close> vector is passed and returned beside the hash.\<close>

function proof_recursive ::
    "ext \<Rightarrow> (XOnlyPublicKey \<times> H256) list \<Rightarrow> XOnlyPublicKey \<Rightarrow> nat \<Rightarrow> H256 list \<Rightarrow> H256 list \<Rightarrow>
     H256 \<times> H256 list" where
  "proof_recursive x populated target depth empties out =
     (if TREE_DEPTH \<le> depth then
        (if populated = [] then empties ! 0 else snd (populated ! 0), out)
      else
        let (left, right) = partition (\<lambda>(a, _). bit_at a depth = 0) populated
        in if bit_at target depth = 0 then
             let (lh, out') = proof_recursive x left target (depth + 1) empties out;
                 rh = root_recursive x right (depth + 1) empties
             in (branch_hash x lh rh, out' @ [rh])
           else
             let (rh, out') = proof_recursive x right target (depth + 1) empties out;
                 lh = root_recursive x left (depth + 1) empties
             in (branch_hash x lh rh, out' @ [lh]))"
  by pat_completeness auto
termination
  by (relation "measure (\<lambda>(x, p, t, d, e, out). TREE_DEPTH - d)") auto

declare proof_recursive.simps [simp del]

definition compute_proof ::
    "ext \<Rightarrow> (XOnlyPublicKey \<times> Account) list \<Rightarrow> XOnlyPublicKey \<Rightarrow> InclusionProof" where
  "compute_proof x accounts target =
     (let populated = populated_of x accounts;
          leaf = (case List.find (\<lambda>(a, _). a = target) accounts of
                    Some (_, acct) \<Rightarrow> LeafAccount (acc_balance acct) (acc_nonce acct)
                  | None \<Rightarrow> LeafEmpty);
          (_, siblings) = proof_recursive x populated target 0 (empty_subtree_hashes x) []
      in \<lparr> ip_address = target, ip_leaf = leaf, ip_siblings = siblings \<rparr>)"

section \<open>Sparse multi-leaf update\<close>

record Update =
  pre_proof :: InclusionProof
  post_state :: LeafKind

datatype SparseUpdateError = InvalidPreProof string | DuplicateAddress string | EmptyUpdates

abbreviation upd_addr :: "Update \<Rightarrow> XOnlyPublicKey" where
  "upd_addr u \<equiv> ip_address (pre_proof u)"

fun check_distinct :: "ext \<Rightarrow> Update list \<Rightarrow> (SparseUpdateError, unit) result" where
  "check_distinct x [] = Inr ()"
| "check_distinct x (u # us) =
     rbind (rall (\<lambda>u2. if upd_addr u = upd_addr u2
                       then Inl (DuplicateAddress (hex_encode x (serialize (upd_addr u))))
                       else Inr ()) us)
       (\<lambda>_. check_distinct x us)"

definition check_pre_proofs :: "ext \<Rightarrow> H256 \<Rightarrow> Update list \<Rightarrow> (SparseUpdateError, unit) result" where
  "check_pre_proofs x prior_root us =
     rall (\<lambda>u. if \<not> InclusionProof_verify x (pre_proof u) prior_root
               then Inl (InvalidPreProof (hex_encode x (serialize (upd_addr u))))
               else Inr ()) us"

function post_root_recursive :: "ext \<Rightarrow> Update list \<Rightarrow> nat \<Rightarrow> H256" where
  "post_root_recursive x updates depth =
     (if TREE_DEPTH \<le> depth then
        let u = updates ! 0 in leaf_hash x (post_state u) (upd_addr u)
      else
        let (left, right) = partition (\<lambda>u. bit_at (upd_addr u) depth = 0) updates;
            lh = (if left \<noteq> [] then post_root_recursive x left (depth + 1)
                  else ip_siblings (pre_proof (hd right)) ! (TREE_DEPTH - 1 - depth));
            rh = (if right \<noteq> [] then post_root_recursive x right (depth + 1)
                  else ip_siblings (pre_proof (hd left)) ! (TREE_DEPTH - 1 - depth))
        in branch_hash x lh rh)"
  by pat_completeness auto
termination
  by (relation "measure (\<lambda>(x, u, d). TREE_DEPTH - d)") auto

declare post_root_recursive.simps [simp del]

definition apply_updates :: "ext \<Rightarrow> Update list \<Rightarrow> H256 \<Rightarrow> (SparseUpdateError, H256) result" where
  "apply_updates x updates prior_root =
     (if updates = [] then Inl EmptyUpdates
      else rbind (check_distinct x updates) (\<lambda>_.
           rbind (check_pre_proofs x prior_root updates) (\<lambda>_.
           Inr (post_root_recursive x updates 0))))"

fun refresh_loop ::
    "ext \<Rightarrow> InclusionProof \<Rightarrow> Update list \<Rightarrow> nat list \<Rightarrow> H256 list \<Rightarrow> H256 list" where
  "refresh_loop x observer updates [] new_siblings = new_siblings"
| "refresh_loop x observer updates (depth # depths) new_siblings =
     (let obs_bit = bit_at (ip_address observer) depth;
          on_path = filter (\<lambda>u. list_all (\<lambda>d. bit_at (upd_addr u) d = bit_at (ip_address observer) d)
                                  [0..<depth]) updates
      in if on_path = [] then new_siblings
         else
           let opposite_side = filter (\<lambda>u. bit_at (upd_addr u) depth \<noteq> obs_bit) on_path
           in refresh_loop x observer updates depths
                (if opposite_side \<noteq> []
                 then new_siblings[TREE_DEPTH - 1 - depth :=
                        post_root_recursive x opposite_side (depth + 1)]
                 else new_siblings))"

definition refresh_observer ::
    "ext \<Rightarrow> InclusionProof \<Rightarrow> Update list \<Rightarrow> H256 \<Rightarrow> (SparseUpdateError, InclusionProof) result" where
  "refresh_observer x observer updates prior_root =
     (if \<not> InclusionProof_verify x observer prior_root then
        Inl (InvalidPreProof (hex_encode x (serialize (ip_address observer))))
      else if updates = [] then Inr observer
      else
        rbind (check_distinct x updates) (\<lambda>_.
        rbind (check_pre_proofs x prior_root updates) (\<lambda>_.
          let post = (case List.find (\<lambda>u. upd_addr u = ip_address observer) updates of
                        Some u \<Rightarrow> post_state u
                      | None \<Rightarrow> ip_leaf observer);
              new_siblings = refresh_loop x observer updates [0..<TREE_DEPTH] (ip_siblings observer)
          in Inr \<lparr> ip_address = ip_address observer, ip_leaf = post, ip_siblings = new_siblings \<rparr>)))"

end
