(* ===== verification/SmtCorrect.thy ===== *)
theory SmtCorrect
  imports Smt
begin

text \<open>
  What the sparse Merkle tree computes. An account set is abstracted to the leaf it has
  at each address; \<open>smt_root\<close> is the root of the full tree over it and \<open>honest_proof\<close> its
  inclusion proof. The code's root and proofs are these whatever the order of the account
  list, a proof that verifies against the root of an account set tells the leaf of that
  set unless two listed preimages collide, and the sparse update and the refreshed
  observer proof are those of the updated account set.
\<close>

definition leaf_fun :: "ext \<Rightarrow> (XOnlyPublicKey \<Rightarrow> LeafKind) \<Rightarrow> Key \<Rightarrow> H256" where
  "leaf_fun x L v = leaf_hash x (L (XOnly v)) (XOnly v)"

definition smt_root :: "ext \<Rightarrow> (XOnlyPublicKey \<Rightarrow> LeafKind) \<Rightarrow> H256" where
  "smt_root x L = tree (branch_hash x) (leaf_fun x L) 256 0"

definition smt_sibling :: "ext \<Rightarrow> (XOnlyPublicKey \<Rightarrow> LeafKind) \<Rightarrow> XOnlyPublicKey \<Rightarrow> nat \<Rightarrow> H256" where
  "smt_sibling x L a k = sibling (branch_hash x) (leaf_fun x L) (xonly_word a) k"

definition honest_proof :: "ext \<Rightarrow> (XOnlyPublicKey \<Rightarrow> LeafKind) \<Rightarrow> XOnlyPublicKey \<Rightarrow> InclusionProof" where
  "honest_proof x L a =
     \<lparr> ip_address = a, ip_leaf = L a, ip_siblings = map (smt_sibling x L a) [0..<256] \<rparr>"

definition lookup_leaf :: "(XOnlyPublicKey \<times> Account) list \<Rightarrow> XOnlyPublicKey \<Rightarrow> LeafKind" where
  "lookup_leaf accounts a =
     (case map_of accounts a of Some acct \<Rightarrow> LeafAccount (acc_balance acct) (acc_nonce acct)
      | None \<Rightarrow> LeafEmpty)"

definition override :: "(XOnlyPublicKey \<Rightarrow> LeafKind) \<Rightarrow> Update list \<Rightarrow> XOnlyPublicKey \<Rightarrow> LeafKind" where
  "override L us a =
     (case List.find (\<lambda>u. upd_addr u = a) us of Some u \<Rightarrow> post_state u | None \<Rightarrow> L a)"

definition leaf_preimage :: "LeafKind \<Rightarrow> XOnlyPublicKey \<Rightarrow> bytes" where
  "leaf_preimage l a =
     (case l of LeafAccount b n \<Rightarrow> populated_leaf_preimage a b n
      | LeafEmpty \<Rightarrow> bytes_of ''hodl-smt-empty-leaf-v0'')"

definition proof_preimages :: "ext \<Rightarrow> InclusionProof \<Rightarrow> bytes list" where
  "proof_preimages x p =
     leaf_preimage (ip_leaf p) (ip_address p) #
     path_preimages branch_preimage (branch_hash x) (xonly_word (ip_address p))
       (leaf_hash x (ip_leaf p) (ip_address p)) (nth (ip_siblings p)) 256"

section \<open>Bits, empty subtrees and leaves\<close>

lemma branch_preimage_eq:
  "branch_preimage l r = branch_preimage l' r' \<Longrightarrow> l = l' \<and> r = r'"
  by (auto simp: branch_preimage_def encode_inj)

interpretation smt: merkle "branch_hash x" branch_preimage "sha256 x" for x
  by unfold_locales (auto simp: branch_hash_def dest: branch_preimage_eq)

lemma bit_and_1: "(w :: u8) AND 1 = of_bool (bit w 0)"
  by (simp add: and_one_eq mod_2_eq_odd bit_0)

lemma bit_at_eq:
  assumes "d < 256"
  shows "bit_at a d = of_bool (bit (xonly_word a) (255 - d))"
proof -
  define q r where "q = d div 8" and "r = d mod 8"
  have d: "d = 8 * q + r" "r < 8" by (simp_all add: q_def r_def)
  with assms have q: "q < 32" by simp
  define p t where "p = 31 - q" and "t = 7 - r"
  have k: "255 - d = 8 * p + t" and t: "t < 8" using d q by (simp_all add: p_def t_def)
  have "(255 - d) div 8 = 31 - q" "(255 - d) mod 8 = 7 - r"
    unfolding k p_def [symmetric] t_def [symmetric] using t by simp_all
  then have "bit (be_bytes 32 (xonly_word a) ! q) (7 - r) = bit (xonly_word a) (255 - d)"
    using bit_be_bytes [of "255 - d" 32 "xonly_word a"] q by simp
  then show ?thesis
    unfolding bit_at_def serialize_def bit_and_1 q_def [symmetric] r_def [symmetric]
    by (simp add: bit_drop_bit_eq)
qed

lemma bit_at_level:
  "n < 256 \<Longrightarrow> bit_at a (255 - n) = 0 \<longleftrightarrow> \<not> bit (xonly_word a) n"
  "n < 256 \<Longrightarrow> bit_at a (255 - n) = bit_at b (255 - n) \<longleftrightarrow> bit (xonly_word a) n = bit (xonly_word b) n"
  by (simp_all add: bit_at_eq)

lemma tree_const: "tree br (\<lambda>_. c) n v = tree br (\<lambda>_. c) n w"
proof (induction n arbitrary: v w)
  case (Suc n)
  show ?case using Suc [of "unset_bit n v" "unset_bit n w"] Suc [of "set_bit n v" "set_bit n w"] by simp
qed simp

lemma empty_leaf_hash_eq: "empty_leaf_hash x = sha256 x (bytes_of ''hodl-smt-empty-leaf-v0'')"
proof -
  have "foldl (\<lambda>h d. h[d + 1 := f h d]) h0 ds ! 0 = h0 ! 0" for f and h0 :: "H256 list" and ds
    by (induction ds arbitrary: h0) auto
  then show ?thesis by (simp add: empty_leaf_hash_def empty_subtree_hashes_def TREE_DEPTH_def)
qed

lemma leaf_hash_eq: "leaf_hash x l a = sha256 x (leaf_preimage l a)"
  by (cases l) (simp_all add: leaf_hash_def leaf_preimage_def populated_leaf_hash_def empty_leaf_hash_eq)

lemma empty_subtree:
  assumes "n \<le> 256"
  shows "empty_subtree_hashes x ! n = tree (branch_hash x) (\<lambda>_. empty_leaf_hash x) n w"
proof -
  let ?T = "\<lambda>n. tree (branch_hash x) (\<lambda>_. empty_leaf_hash x) n w"
  let ?F = "foldl (\<lambda>h d. h[d + 1 := branch_hash x (h ! d) (h ! d)])
      ((replicate 257 H256_ZERO)[0 := sha256 x (bytes_of ''hodl-smt-empty-leaf-v0'')])"
  have "length (?F [0..<m]) = 257 \<and> (\<forall>n\<le>m. ?F [0..<m] ! n = ?T n)" if "m \<le> 256" for m
    using that
  proof (induction m)
    case 0
    then show ?case by (simp add: empty_leaf_hash_eq)
  next
    case (Suc m)
    then have IH: "length (?F [0..<m]) = 257" "\<forall>n\<le>m. ?F [0..<m] ! n = ?T n" by auto
    have "?T (Suc m) = branch_hash x (?T m) (?T m)"
      using tree_const [of "branch_hash x" _ m] by (metis tree.simps(2))
    then show ?case using IH Suc.prems by (auto simp: nth_list_update le_Suc_eq)
  qed
  from this [of 256] assms show ?thesis
    by (simp add: empty_subtree_hashes_def TREE_DEPTH_def)
qed

lemma leaf_preimage_inj: "leaf_preimage l a = leaf_preimage l' a \<longleftrightarrow> l = l'"
proof -
  have ne: "leaf_preimage (LeafAccount b n) a \<noteq> leaf_preimage LeafEmpty a" for b n
  proof
    assume "leaf_preimage (LeafAccount b n) a = leaf_preimage LeafEmpty a"
    from arg_cong [OF this, of length] show False
      by (simp add: leaf_preimage_def populated_leaf_preimage_def)
  qed
  have "leaf_preimage (LeafAccount b n) a = leaf_preimage (LeafAccount c m) a \<longleftrightarrow> b = c \<and> n = m" for b n c m
    by (simp add: leaf_preimage_def populated_leaf_preimage_def encode_inj)
  with ne ne [symmetric] show ?thesis by (cases l; cases l') simp_all
qed

section \<open>Roots\<close>

definition hash_at :: "ext \<Rightarrow> (XOnlyPublicKey \<times> H256) list \<Rightarrow> Key \<Rightarrow> H256" where
  "hash_at x pop v = (case map_of pop (XOnly v) of Some h \<Rightarrow> h | None \<Rightarrow> empty_leaf_hash x)"

definition keys_below :: "nat \<Rightarrow> Key \<Rightarrow> (XOnlyPublicKey \<times> 'a) list \<Rightarrow> bool" where
  "keys_below n w pop \<longleftrightarrow> distinct (map fst pop) \<and> (\<forall>a\<in>fst ` set pop. same_above n (xonly_word a) w)"

lemma map_of_filter_fst: "map_of (filter (\<lambda>p. P (fst p)) xs) k = (if P k then map_of xs k else None)"
  by (induction xs) auto

definition on_side :: "nat \<Rightarrow> bool \<Rightarrow> (XOnlyPublicKey \<times> 'a) list \<Rightarrow> (XOnlyPublicKey \<times> 'a) list" where
  "on_side n b pop = filter (\<lambda>p. bit (xonly_word (fst p)) n = b) pop"

lemma hash_at_on_side: "hash_at x (on_side n b pop) v = (if bit v n = b then hash_at x pop v else empty_leaf_hash x)"
  by (simp add: hash_at_def on_side_def map_of_filter_fst [of "\<lambda>a. bit (xonly_word a) n = b"])

lemma on_side_subset: "set (on_side n b pop) \<subseteq> set pop" "distinct (map fst pop) \<Longrightarrow> distinct (map fst (on_side n b pop))"
  by (auto simp: on_side_def distinct_map_filter)

lemma keys_below_on_side:
  assumes "keys_below (Suc n) w pop" and "n < 256"
  shows "keys_below n w (on_side n (bit w n) pop)"
    and "keys_below n (flip_bit n w) (on_side n (\<not> bit w n) pop)"
proof -
  have "same_above n (xonly_word (fst p)) w" if "p \<in> set (on_side n (bit w n) pop)" for p
    using that assms(1) same_above_split(1) [OF _ assms(2)] by (auto simp: keys_below_def on_side_def)
  moreover have "same_above n (xonly_word (fst p)) (flip_bit n w)" if "p \<in> set (on_side n (\<not> bit w n) pop)" for p
    using that assms(1) same_above_split(2) [OF _ assms(2)] by (auto simp: keys_below_def on_side_def)
  ultimately show "keys_below n w (on_side n (bit w n) pop)"
    and "keys_below n (flip_bit n w) (on_side n (\<not> bit w n) pop)"
    using assms(1) on_side_subset(2) unfolding keys_below_def by blast+
qed

lemma tree_on_side:
  assumes "n < 256"
  shows "tree br (hash_at x (on_side n (bit w n) pop)) n w = tree br (hash_at x pop) n w"
    and "tree br (hash_at x (on_side n (\<not> bit w n) pop)) n (flip_bit n w)
       = tree br (hash_at x pop) n (flip_bit n w)"
proof (rule_tac [!] tree_cong)
  fix v assume "same_above n v w"
  then have "bit v n = bit w n" by (simp add: same_above_def)
  then show "hash_at x (on_side n (bit w n) pop) v = hash_at x pop v"
    by (simp only: hash_at_on_side if_True simp_thms)
next
  fix v assume "same_above n v (flip_bit n w)"
  then have "bit v n = (\<not> bit w n)" using assms by (auto simp: same_above_def bit_simps)
  then show "hash_at x (on_side n (\<not> bit w n) pop) v = hash_at x pop v"
    by (simp only: hash_at_on_side if_True simp_thms)
qed

lemma partition_on_side:
  assumes "n < 256"
  shows "partition (\<lambda>(a, _). bit_at a (255 - n) = 0) pop = (on_side n False pop, on_side n True pop)"
proof -
  have "(\<lambda>(a, _). bit_at a (255 - n) = 0) = (\<lambda>p :: XOnlyPublicKey \<times> 'a. bit (xonly_word (fst p)) n = False)"
    using assms by (simp add: fun_eq_iff bit_at_level)
  then show ?thesis by (simp add: on_side_def comp_def)
qed

lemma singleton_leaf:
  "keys_below 0 w pop \<Longrightarrow> pop \<noteq> [] \<Longrightarrow> snd (pop ! 0) = hash_at x pop w"
  by (cases pop) (auto simp: keys_below_def hash_at_def)

lemma not_depth: "n < 256 \<Longrightarrow> \<not> TREE_DEPTH \<le> 255 - n"
  by (simp add: TREE_DEPTH_def)

lemma root_recursive_tree:
  assumes "n \<le> 256" and "keys_below n w pop"
  shows "root_recursive x pop (256 - n) (empty_subtree_hashes x) = tree (branch_hash x) (hash_at x pop) n w"
  using assms
proof (induction n arbitrary: w pop)
  case 0
  then show ?case
    using singleton_leaf [of w pop x]
    by (subst root_recursive.simps) (auto simp: TREE_DEPTH_def hash_at_def empty_leaf_hash_def)
next
  case (Suc n)
  then have n: "n < 256" by simp
  show ?case
  proof (cases "pop = []")
    case True
    then show ?thesis
      using Suc.prems(1) empty_subtree [of "Suc n" x w]
      by (subst root_recursive.simps) (simp add: TREE_DEPTH_def hash_at_def [abs_def])
  next
    case False
    have d: "256 - Suc n = 255 - n" "255 - n + 1 = 256 - n" using n by simp_all
    have IH: "root_recursive x (on_side n (bit w n) pop) (256 - n) (empty_subtree_hashes x)
        = tree (branch_hash x) (hash_at x pop) n w"
      "root_recursive x (on_side n (\<not> bit w n) pop) (256 - n) (empty_subtree_hashes x)
        = sibling (branch_hash x) (hash_at x pop) w n"
      using Suc.IH [OF _ keys_below_on_side(1) [OF Suc.prems(2) n]]
        Suc.IH [OF _ keys_below_on_side(2) [OF Suc.prems(2) n]] n
      by (simp_all only: tree_on_side sibling_def less_imp_le)
    have "root_recursive x pop (255 - n) (empty_subtree_hashes x) =
        branch_hash x (root_recursive x (on_side n False pop) (256 - n) (empty_subtree_hashes x))
          (root_recursive x (on_side n True pop) (256 - n) (empty_subtree_hashes x))"
      using n d(2) not_depth [OF n]
      by (subst root_recursive.simps)
        (simp add: False partition_on_side Let_def del: partition_filter_conv)
    with IH show ?thesis
      unfolding tree_step d(1) by (cases "bit w n") simp_all
  qed
qed

text \<open>The pairs of the code carry the hash of the account's leaf, so the root of an account
  list is the root of its leaf function, in whatever order the list is given.\<close>

lemma map_of_populated: "map_of (populated_of x accounts) a =
    map_option (\<lambda>acct. populated_leaf_hash x a (acc_balance acct) (acc_nonce acct)) (map_of accounts a)"
  by (induction accounts) (auto simp: populated_of_def)

lemma hash_at_populated: "hash_at x (populated_of x accounts) = leaf_fun x (lookup_leaf accounts)"
  by (simp add: fun_eq_iff hash_at_def leaf_fun_def lookup_leaf_def leaf_hash_def map_of_populated
      split: option.split)

lemma keys_below_populated:
  "distinct (map fst accounts) \<Longrightarrow> keys_below 256 w (populated_of x accounts)"
  by (auto simp: keys_below_def populated_of_def comp_def case_prod_beta)

lemma compute_root_eq:
  assumes "distinct (map fst accounts)"
  shows "compute_root x accounts = smt_root x (lookup_leaf accounts)"
  using root_recursive_tree [OF _ keys_below_populated [OF assms], where x = x and w = 0]
  by (simp add: compute_root_def smt_root_def hash_at_populated)

lemma compute_root_perm:
  assumes "distinct (map fst accounts)" and "distinct (map fst accounts')" and "set accounts = set accounts'"
  shows "compute_root x accounts = compute_root x accounts'"
  using assms map_of_inject_set [of accounts accounts']
  by (simp add: compute_root_eq lookup_leaf_def [abs_def])

lemma empty_root_eq: "empty_root x = smt_root x (\<lambda>_. LeafEmpty)"
  by (simp add: empty_root_def smt_root_def TREE_DEPTH_def empty_subtree [where w = 0]
      leaf_fun_def [abs_def] leaf_hash_def)

section \<open>Proofs\<close>

lemma proof_recursive_tree:
  assumes "n \<le> 256" and "keys_below n (xonly_word a) pop"
  shows "proof_recursive x pop a (256 - n) (empty_subtree_hashes x) out =
     (tree (branch_hash x) (hash_at x pop) n (xonly_word a),
      out @ map (sibling (branch_hash x) (hash_at x pop) (xonly_word a)) [0..<n])"
  using assms
proof (induction n arbitrary: pop)
  case 0
  then show ?case
    using singleton_leaf [of "xonly_word a" pop x]
    by (subst proof_recursive.simps) (auto simp: TREE_DEPTH_def hash_at_def empty_leaf_hash_def)
next
  case (Suc n)
  let ?w = "xonly_word a" and ?br = "branch_hash x"
  have n: "n < 256" using Suc.prems(1) by simp
  have d: "256 - Suc n = 255 - n" "Suc (255 - n) = 256 - n" using n by simp_all
  note below = keys_below_on_side [OF Suc.prems(2) n]
  have sib: "sibling ?br (hash_at x (on_side n (bit ?w n) pop)) ?w k = sibling ?br (hash_at x pop) ?w k"
    if "k < n" for k
  proof (rule sibling_cong)
    fix v assume "same_above k v (flip_bit k ?w)"
    then have "bit v n = bit ?w n" using that n by (auto simp: same_above_def bit_simps)
    then show "hash_at x (on_side n (bit ?w n) pop) v = hash_at x pop v"
      by (simp only: hash_at_on_side if_True simp_thms)
  qed
  have IH: "proof_recursive x (on_side n (bit ?w n) pop) a (256 - n) (empty_subtree_hashes x) out =
      (tree ?br (hash_at x pop) n ?w, out @ map (sibling ?br (hash_at x pop) ?w) [0..<n])"
    using Suc.IH [OF _ below(1)] n sib by (simp add: tree_on_side cong: map_cong)
  have other: "root_recursive x (on_side n (\<not> bit ?w n) pop) (256 - n) (empty_subtree_hashes x) =
      sibling ?br (hash_at x pop) ?w n"
    using root_recursive_tree [OF _ below(2), of x] n by (simp only: tree_on_side sibling_def less_imp_le)
  show ?case
    unfolding d(1) tree_step
    by (subst proof_recursive.simps)
      (use n d(2) not_depth [OF n] IH other bit_at_level(1) [OF n, of a] in
        \<open>cases "bit ?w n"; simp add: partition_on_side Let_def del: partition_filter_conv\<close>)
qed

lemma find_lookup:
  "(case List.find (\<lambda>(a, _). a = t) accounts of
      Some (_, acct) \<Rightarrow> LeafAccount (acc_balance acct) (acc_nonce acct) | None \<Rightarrow> LeafEmpty)
   = lookup_leaf accounts t"
  by (induction accounts) (auto simp: lookup_leaf_def)

lemma compute_proof_eq:
  assumes "distinct (map fst accounts)"
  shows "compute_proof x accounts t = honest_proof x (lookup_leaf accounts) t"
  using proof_recursive_tree [OF _ keys_below_populated [OF assms], where x = x and a = t and out = "[]"]
  by (simp add: compute_proof_def honest_proof_def hash_at_populated smt_sibling_def [abs_def]
      find_lookup [simplified])

text \<open>The loop of \<open>verify\<close> climbs the path.\<close>

lemma verify_loop:
  assumes "n \<le> 256"
  shows "foldl (\<lambda>current d. let s = sibs ! (TREE_DEPTH - 1 - d)
             in if bit_at a d = 0 then branch_hash x current s else branch_hash x s current)
           g (rev [256 - n..<256]) = path (branch_hash x) (xonly_word a) g (nth sibs) n"
  using assms
proof (induction n)
  case (Suc n)
  then have "Suc (255 - n) = 256 - n" by simp
  then have "[256 - Suc n..<256] = (255 - n) # [256 - n..<256]"
    using upt_conv_Cons [of "255 - n" 256] by simp
  with Suc show ?case by (simp add: bit_at_level TREE_DEPTH_def Let_def)
qed simp

lemma InclusionProof_verify_eq:
  "InclusionProof_verify x p r \<longleftrightarrow> length (ip_siblings p) = 256 \<and>
     path (branch_hash x) (xonly_word (ip_address p)) (leaf_hash x (ip_leaf p) (ip_address p))
       (nth (ip_siblings p)) 256 = r"
  using verify_loop [of 256 "ip_siblings p" "ip_address p" x]
  by (simp add: InclusionProof_verify_def TREE_DEPTH_def)

lemma smt_root_at: "smt_root x L = tree (branch_hash x) (leaf_fun x L) 256 w"
  unfolding smt_root_def by (rule tree_root)

lemma path_smt:
  "path (branch_hash x) (xonly_word a) (leaf_hash x (L a) a) (smt_sibling x L a) n =
     tree (branch_hash x) (leaf_fun x L) n (xonly_word a)"
  using path_sibling [of "branch_hash x" "xonly_word a" "leaf_fun x L"]
  by (simp add: leaf_fun_def smt_sibling_def [abs_def])

lemma honest_path:
  "path br w g (nth (map s [0..<256])) 256 = path br w g s 256"
  by (rule path_cong) auto

lemma honest_proof_verifies: "InclusionProof_verify x (honest_proof x L a) (smt_root x L)"
  by (simp add: InclusionProof_verify_eq honest_proof_def honest_path path_smt
      smt_root_at [where w = "xonly_word a"])

lemma verify_sound:
  assumes "InclusionProof_verify x p (smt_root x L)"
  shows "p = honest_proof x L (ip_address p) \<or>
     collides (sha256 x) (proof_preimages x p @ proof_preimages x (honest_proof x L (ip_address p)))"
proof (rule disjCI)
  let ?a = "ip_address p"
  let ?h = "honest_proof x L ?a"
  assume no: "\<not> collides (sha256 x) (proof_preimages x p @ proof_preimages x ?h)"
  have p: "length (ip_siblings p) = 256"
    "path (branch_hash x) (xonly_word ?a) (leaf_hash x (ip_leaf p) ?a) (nth (ip_siblings p)) 256 =
     path (branch_hash x) (xonly_word ?a) (leaf_hash x (ip_leaf ?h) ?a) (nth (ip_siblings ?h)) 256"
    using assms honest_proof_verifies [of x L ?a]
    by (simp_all add: InclusionProof_verify_eq) (simp add: honest_proof_def)
  have sub: "set (path_preimages branch_preimage (branch_hash x) (xonly_word ?a)
        (leaf_hash x (ip_leaf p) ?a) (nth (ip_siblings p)) 256 @
      path_preimages branch_preimage (branch_hash x) (xonly_word ?a)
        (leaf_hash x (ip_leaf ?h) ?a) (nth (ip_siblings ?h)) 256)
    \<subseteq> set (proof_preimages x p @ proof_preimages x ?h)"
    by (auto simp: proof_preimages_def honest_proof_def)
  have eq: "leaf_hash x (ip_leaf p) ?a = leaf_hash x (ip_leaf ?h) ?a"
    "\<forall>k<256. ip_siblings p ! k = ip_siblings ?h ! k"
    using smt.path_inj [OF p(2)] no collides_mono [OF _ sub] by blast+
  have "leaf_preimage (ip_leaf p) ?a = leaf_preimage (ip_leaf ?h) ?a"
    using eq(1) by (intro not_collidesD [OF no]) (auto simp: proof_preimages_def leaf_hash_eq honest_proof_def)
  then have "ip_leaf p = ip_leaf ?h" by (simp add: leaf_preimage_inj)
  moreover have "ip_siblings p = ip_siblings ?h"
    using p(1) eq(2) by (intro nth_equalityI) (auto simp: honest_proof_def)
  ultimately show "p = ?h" by (simp add: honest_proof_def)
qed

section \<open>Sparse updates\<close>

lemma override_filter:
  "(\<And>u. u \<in> set us \<Longrightarrow> upd_addr u = a \<Longrightarrow> P u) \<Longrightarrow> override L (filter P us) a = override L us a"
proof (induction us)
  case (Cons u us)
  then have "override L (filter P us) a = override L us a" by simp
  with Cons.prems [of u] show ?case by (auto simp: override_def)
qed simp

lemma override_none: "(\<And>u. u \<in> set us \<Longrightarrow> upd_addr u \<noteq> a) \<Longrightarrow> override L us a = L a"
  by (induction us) (auto simp: override_def)

lemma override_hit: "u \<in> set us \<Longrightarrow> distinct (map upd_addr us) \<Longrightarrow> override L us (upd_addr u) = post_state u"
  by (induction us) (auto simp: override_def)

lemma override_filter_none:
  "(\<And>u. u \<in> set us \<Longrightarrow> P u \<Longrightarrow> upd_addr u \<noteq> a) \<Longrightarrow> override L (filter P us) a = L a"
  by (rule override_none) auto

definition honest_updates :: "ext \<Rightarrow> (XOnlyPublicKey \<Rightarrow> LeafKind) \<Rightarrow> Update list \<Rightarrow> bool" where
  "honest_updates x L us \<longleftrightarrow> (\<forall>u\<in>set us. pre_proof u = honest_proof x L (upd_addr u))"

definition updates_below :: "nat \<Rightarrow> Key \<Rightarrow> Update list \<Rightarrow> bool" where
  "updates_below n w us \<longleftrightarrow> us \<noteq> [] \<and> distinct (map upd_addr us) \<and>
     (\<forall>u\<in>set us. same_above n (xonly_word (upd_addr u)) w)"

definition upd_side :: "nat \<Rightarrow> bool \<Rightarrow> Update list \<Rightarrow> Update list" where
  "upd_side n b us = filter (\<lambda>u. bit (xonly_word (upd_addr u)) n = b) us"

definition child :: "nat \<Rightarrow> bool \<Rightarrow> Key \<Rightarrow> Key" where
  "child n b w = (if b then set_bit n w else unset_bit n w)"

lemma bit_child: "n < 256 \<Longrightarrow> same_above n v (child n b w) \<Longrightarrow> bit v n = b"
  by (auto simp: child_def same_above_def bit_simps split: if_splits)

lemma same_above_child:
  "same_above (Suc n) v w \<Longrightarrow> bit v n = b \<Longrightarrow> n < 256 \<Longrightarrow> same_above n v (child n b w)"
  unfolding same_above_Suc_gt
  by (auto simp: child_def same_above_def bit_simps le_eq_less_or_eq dest: bit_imp_le_length)

lemma same_above_flip_child:
  "same_above (Suc n) v w \<Longrightarrow> bit v n = (\<not> b) \<Longrightarrow> n < 256 \<Longrightarrow> same_above n (flip_bit n v) (child n b w)"
  unfolding same_above_Suc_gt
  by (auto simp: child_def same_above_def bit_simps le_eq_less_or_eq dest: bit_imp_le_length)

lemma leaf_fun_cong: "L (XOnly v) = M (XOnly v) \<Longrightarrow> leaf_fun x L v = leaf_fun x M v"
  by (simp add: leaf_fun_def)

lemma honest_sibling:
  "honest_updates x L us \<Longrightarrow> u \<in> set us \<Longrightarrow> n < 256 \<Longrightarrow>
     ip_siblings (pre_proof u) ! n = smt_sibling x L (upd_addr u) n"
proof -
  assume a: "honest_updates x L us" "u \<in> set us" "n < 256"
  then have "pre_proof u = honest_proof x L (upd_addr u)" by (simp add: honest_updates_def)
  then have "ip_siblings (pre_proof u) = ip_siblings (honest_proof x L (upd_addr u))" by metis
  with a(3) show ?thesis by (simp add: honest_proof_def)
qed

lemma partition_upd_side:
  assumes "n < 256"
  shows "partition (\<lambda>u. bit_at (upd_addr u) (255 - n) = 0) us = (upd_side n False us, upd_side n True us)"
  using assms by (simp add: upd_side_def bit_at_level comp_def)

lemma tree_override_side:
  assumes "n < 256"
  shows "tree br (leaf_fun x (override L (upd_side n b us))) n (child n b w)
       = tree br (leaf_fun x (override L us)) n (child n b w)"
proof (intro tree_cong leaf_fun_cong)
  fix v assume "same_above n v (child n b w)"
  with assms have "bit v n = b" by (rule bit_child)
  then show "override L (upd_side n b us) (XOnly v) = override L us (XOnly v)"
    unfolding upd_side_def by (intro override_filter) auto
qed

lemma updates_below_side:
  assumes "updates_below (Suc n) w us" and "n < 256" and "upd_side n b us \<noteq> []"
  shows "updates_below n (child n b w) (upd_side n b us)"
  using assms same_above_child [of n _ w b]
  by (auto simp: updates_below_def upd_side_def distinct_map_filter)

text \<open>With no update on one side, the sibling in any proof from the other side is the hash of
  that untouched subtree.\<close>

lemma untouched_side:
  assumes "updates_below (Suc n) w us" and "n < 256" and "honest_updates x L us"
    and "upd_side n b us = []"
  shows "ip_siblings (pre_proof (hd (upd_side n (\<not> b) us))) ! n
       = tree (branch_hash x) (leaf_fun x (override L us)) n (child n b w)"
proof -
  have none: "bit (xonly_word (upd_addr u)) n = (\<not> b)" if "u \<in> set us" for u
    using assms(4) that by (auto simp: upd_side_def filter_empty_conv)
  then have "upd_side n (\<not> b) us = us" by (auto simp: upd_side_def)
  moreover have "us \<noteq> []" using assms(1) by (simp add: updates_below_def)
  ultimately have u: "hd (upd_side n (\<not> b) us) \<in> set us" by simp
  define a where "a = upd_addr (hd (upd_side n (\<not> b) us))"
  have "same_above n (flip_bit n (xonly_word a)) (child n b w)"
    using assms(1,2) u none [OF u] by (intro same_above_flip_child) (auto simp: updates_below_def a_def)
  then have "smt_sibling x L a n = tree (branch_hash x) (leaf_fun x L) n (child n b w)"
    unfolding smt_sibling_def sibling_def by (rule tree_same)
  also have "\<dots> = tree (branch_hash x) (leaf_fun x (override L us)) n (child n b w)"
  proof (intro tree_cong leaf_fun_cong)
    fix v assume "same_above n v (child n b w)"
    with assms(2) have "bit v n = b" by (rule bit_child)
    then have "upd_addr u \<noteq> XOnly v" if "u \<in> set us" for u
      using none [OF that] by (metis XOnlyPublicKey.sel)
    then show "L (XOnly v) = override L us (XOnly v)" by (simp add: override_none)
  qed
  finally show ?thesis
    using honest_sibling [OF assms(3) u assms(2)] by (simp add: a_def)
qed

lemma honest_updates_filter: "honest_updates x L us \<Longrightarrow> honest_updates x L (filter P us)"
  by (auto simp: honest_updates_def)

lemma post_root_tree:
  assumes "n \<le> 256" and "updates_below n w us" and "honest_updates x L us"
  shows "post_root_recursive x us (256 - n) = tree (branch_hash x) (leaf_fun x (override L us)) n w"
  using assms
proof (induction n arbitrary: w us)
  case 0
  then have us: "us ! 0 \<in> set us" "xonly_word (upd_addr (us ! 0)) = w" "distinct (map upd_addr us)"
    by (auto simp: updates_below_def)
  then have "XOnly w = upd_addr (us ! 0)" by auto
  with override_hit [OF us(1,3), of L] show ?case
    by (subst post_root_recursive.simps) (simp add: TREE_DEPTH_def leaf_fun_def Let_def)
next
  case (Suc n)
  have n: "n < 256" using Suc.prems(1) by simp
  have d: "256 - Suc n = 255 - n" "Suc (255 - n) = 256 - n" using n by simp_all
  have lev: "TREE_DEPTH - 1 - (255 - n) = n" using n by (simp add: TREE_DEPTH_def)
  have side: "(if upd_side n b us \<noteq> [] then post_root_recursive x (upd_side n b us) (256 - n)
       else ip_siblings (pre_proof (hd (upd_side n (\<not> b) us))) ! n)
     = tree (branch_hash x) (leaf_fun x (override L us)) n (child n b w)" for b
  proof (cases "upd_side n b us = []")
    case True
    then show ?thesis using untouched_side [OF Suc.prems(2) n Suc.prems(3)] by simp
  next
    case False
    have "honest_updates x L (upd_side n b us)"
      using Suc.prems(3) by (simp add: upd_side_def honest_updates_filter)
    with False show ?thesis
      using Suc.IH [OF _ updates_below_side [OF Suc.prems(2) n False]] n
      by (simp add: tree_override_side)
  qed
  have "post_root_recursive x us (255 - n) =
      branch_hash x (tree (branch_hash x) (leaf_fun x (override L us)) n (child n False w))
        (tree (branch_hash x) (leaf_fun x (override L us)) n (child n True w))"
    unfolding side [of False, symmetric] side [of True, symmetric]
    using d(2) not_depth [OF n] lev
    by (subst post_root_recursive.simps)
      (simp add: partition_upd_side [OF n] Let_def del: partition_filter_conv)
  then show ?case unfolding d(1) by (simp add: child_def)
qed

text \<open>The checks in front of the recursion.\<close>

lemma check_distinct_ok: "check_distinct x us = Inr () \<longleftrightarrow> distinct (map upd_addr us)"
  by (induction us) (auto simp: rbind_eq_Inr rall_eq_Inr image_iff split: if_splits)

lemma check_pre_proofs_ok:
  "check_pre_proofs x r us = Inr () \<longleftrightarrow> (\<forall>u\<in>set us. InclusionProof_verify x (pre_proof u) r)"
  by (auto simp: check_pre_proofs_def rall_eq_Inr split: if_splits)

lemma apply_updates_eq:
  "apply_updates x us r = Inr r' \<longleftrightarrow> us \<noteq> [] \<and> distinct (map upd_addr us) \<and>
     (\<forall>u\<in>set us. InclusionProof_verify x (pre_proof u) r) \<and> r' = post_root_recursive x us 0"
  by (auto simp: apply_updates_def rbind_eq_Inr check_distinct_ok check_pre_proofs_ok)

definition update_preimages :: "ext \<Rightarrow> (XOnlyPublicKey \<Rightarrow> LeafKind) \<Rightarrow> Update list \<Rightarrow> bytes list" where
  "update_preimages x L us =
     concat (map (\<lambda>u. proof_preimages x (pre_proof u) @
       proof_preimages x (honest_proof x L (upd_addr u))) us)"

lemma updates_sound:
  assumes "\<forall>u\<in>set us. InclusionProof_verify x (pre_proof u) (smt_root x L)"
  shows "honest_updates x L us \<or> collides (sha256 x) (update_preimages x L us)"
proof (rule disjCI)
  assume no: "\<not> collides (sha256 x) (update_preimages x L us)"
  show "honest_updates x L us"
    unfolding honest_updates_def
  proof
    fix u assume u: "u \<in> set us"
    then have "set (proof_preimages x (pre_proof u) @ proof_preimages x (honest_proof x L (upd_addr u)))
        \<subseteq> set (update_preimages x L us)"
      by (auto simp: update_preimages_def)
    then show "pre_proof u = honest_proof x L (upd_addr u)"
      using verify_sound [of x "pre_proof u" L] assms u no collides_mono by blast
  qed
qed

lemma post_root_override:
  assumes "us \<noteq> []" and "distinct (map upd_addr us)" and "honest_updates x L us"
  shows "post_root_recursive x us 0 = smt_root x (override L us)"
  using post_root_tree [of 256 0 us x L] assms by (simp add: updates_below_def smt_root_def)

lemma apply_updates_complete:
  assumes "us \<noteq> []" and "distinct (map upd_addr us)" and "honest_updates x L us"
  shows "apply_updates x us (smt_root x L) = Inr (smt_root x (override L us))"
proof -
  have "InclusionProof_verify x (pre_proof u) (smt_root x L)" if "u \<in> set us" for u
    using assms(3) that honest_proof_verifies [of x L "upd_addr u"] by (simp add: honest_updates_def)
  then show ?thesis using assms post_root_override by (simp add: apply_updates_eq)
qed

lemma apply_updates_sound:
  assumes "apply_updates x us (smt_root x L) = Inr r"
  shows "r = smt_root x (override L us) \<or> collides (sha256 x) (update_preimages x L us)"
  using assms updates_sound [of us x L] post_root_override [of us x L]
  by (auto simp: apply_updates_eq)

section \<open>The observer's refreshed proof\<close>

lemma agree_depths:
  assumes "n \<le> 256"
  shows "list_all (\<lambda>d. bit_at a d = bit_at b d) [0..<256 - n] \<longleftrightarrow> same_above n (xonly_word a) (xonly_word b)"
proof -
  have "(\<forall>d<256 - n. bit_at a d = bit_at b d) \<longleftrightarrow> (\<forall>i\<ge>n. i < 256 \<longrightarrow> bit (xonly_word a) i = bit (xonly_word b) i)"
  proof (rule iffI; intro allI impI)
    fix i assume "\<forall>d<256 - n. bit_at a d = bit_at b d" "n \<le> i" "i < 256"
    then have "bit_at a (255 - i) = bit_at b (255 - i)" by simp
    then show "bit (xonly_word a) i = bit (xonly_word b) i" using \<open>i < 256\<close> by (simp add: bit_at_level)
  next
    fix d assume "\<forall>i\<ge>n. i < 256 \<longrightarrow> bit (xonly_word a) i = bit (xonly_word b) i" "d < 256 - n"
    then show "bit_at a d = bit_at b d" by (simp add: bit_at_eq)
  qed
  then show ?thesis by (auto simp: list_all_iff same_above_bounded)
qed

lemma sibling_untouched:
  assumes "\<And>u. u \<in> set us \<Longrightarrow> \<not> same_above (Suc k) (xonly_word (upd_addr u)) (xonly_word a)"
  shows "smt_sibling x (override L us) a k = smt_sibling x L a k"
  unfolding smt_sibling_def
proof (intro sibling_cong leaf_fun_cong override_none)
  fix v u assume v: "same_above k v (flip_bit k (xonly_word a))" and u: "u \<in> set us"
  have "same_above (Suc k) v (xonly_word a)" using v by (rule same_above_setD)
  with assms [OF u] show "upd_addr u \<noteq> XOnly v" by (metis XOnlyPublicKey.sel)
qed

text \<open>At level \<open>k\<close> the updates on the other side are those below the observer's sibling node.\<close>

definition opposite :: "nat \<Rightarrow> XOnlyPublicKey \<Rightarrow> Update list \<Rightarrow> Update list" where
  "opposite k a us = filter (\<lambda>u. same_above k (xonly_word (upd_addr u)) (flip_bit k (xonly_word a))) us"

lemma opposite_sibling:
  assumes "k < 256" and "distinct (map upd_addr us)" and "honest_updates x L us"
  shows "smt_sibling x (override L us) a k =
     (if opposite k a us \<noteq> [] then post_root_recursive x (opposite k a us) (256 - k)
      else smt_sibling x L a k)"
proof -
  let ?w = "flip_bit k (xonly_word a)"
  have cong: "smt_sibling x (override L us) a k =
      tree (branch_hash x) (leaf_fun x (override L (opposite k a us))) k ?w"
    unfolding smt_sibling_def sibling_def opposite_def
    by (intro tree_cong leaf_fun_cong override_filter [symmetric]) auto
  show ?thesis
  proof (cases "opposite k a us = []")
    case True
    then have "override L (opposite k a us) = L" by (simp add: override_def fun_eq_iff)
    with True cong show ?thesis by (simp add: smt_sibling_def sibling_def)
  next
    case False
    then have "updates_below k ?w (opposite k a us)"
      using assms(2) by (auto simp: updates_below_def opposite_def distinct_map_filter)
    then show ?thesis
      using post_root_tree [of k ?w "opposite k a us" x L] assms(1,3) False cong
      by (simp add: opposite_def honest_updates_filter)
  qed
qed

lemma refresh_loop_siblings:
  assumes "n \<le> 256" and "distinct (map upd_addr us)" and "honest_updates x L us"
    and "length sibs = 256"
    and "\<And>k. k < n \<Longrightarrow> sibs ! k = smt_sibling x L (ip_address obs) k"
    and "\<And>k. n \<le> k \<Longrightarrow> k < 256 \<Longrightarrow> sibs ! k = smt_sibling x (override L us) (ip_address obs) k"
  shows "refresh_loop x obs us [256 - n..<256] sibs
     = map (smt_sibling x (override L us) (ip_address obs)) [0..<256]"
  using assms(1,4-6)
proof (induction n arbitrary: sibs)
  case 0
  then show ?case by (intro nth_equalityI) auto
next
  case (Suc n)
  let ?a = "ip_address obs"
  have n: "n < 256" using Suc.prems(1) by simp
  have d: "256 - Suc n = 255 - n" "Suc (255 - n) = 256 - n" using n by simp_all
  have lev: "TREE_DEPTH - 1 - (255 - n) = n" using n by (simp add: TREE_DEPTH_def)
  have cons: "[256 - Suc n..<256] = (255 - n) # [256 - n..<256]"
    using upt_conv_Cons [of "255 - n" 256] n d by simp
  define on_path where "on_path = filter (\<lambda>u. same_above (Suc n) (xonly_word (upd_addr u)) (xonly_word ?a)) us"
  have path: "filter (\<lambda>u. list_all (\<lambda>d. bit_at (upd_addr u) d = bit_at ?a d) [0..<255 - n]) us = on_path"
    using agree_depths [of "Suc n"] n d(1) by (simp add: on_path_def)
  have opp: "filter (\<lambda>u. bit_at (upd_addr u) (255 - n) \<noteq> bit_at ?a (255 - n)) on_path = opposite n ?a us"
    unfolding on_path_def opposite_def filter_filter
  proof (rule filter_cong)
    fix u show "(same_above (Suc n) (xonly_word (upd_addr u)) (xonly_word ?a) \<and>
        bit_at (upd_addr u) (255 - n) \<noteq> bit_at ?a (255 - n)) =
      same_above n (xonly_word (upd_addr u)) (flip_bit n (xonly_word ?a))"
      using n same_above_split(2) [of n "xonly_word (upd_addr u)" "xonly_word ?a"]
        same_above_setD(3) [of n "xonly_word (upd_addr u)" "xonly_word ?a"]
      by (auto simp: bit_at_level)
  qed simp
  show ?case
  proof (cases "on_path = []")
    case True
    then have none: "\<not> same_above (Suc k) (xonly_word (upd_addr u)) (xonly_word ?a)"
      if "u \<in> set us" "k < Suc n" for u k
      using that same_above_mono [of "Suc k" _ _ "Suc n"] by (auto simp: on_path_def filter_empty_conv)
    have "sibs ! k = smt_sibling x (override L us) ?a k" if "k < 256" for k
      using Suc.prems(3,4) that none sibling_untouched [of us k ?a x L]
      by (cases "k < Suc n") auto
    then have "sibs = map (smt_sibling x (override L us) ?a) [0..<256]"
      using Suc.prems(2) by (intro nth_equalityI) auto
    then show ?thesis unfolding cons using True by (simp add: path Let_def)
  next
    case False
    let ?sibs = "if opposite n ?a us \<noteq> [] then sibs[n := post_root_recursive x (opposite n ?a us) (256 - n)] else sibs"
    have at_n: "?sibs ! n = smt_sibling x (override L us) ?a n"
      using opposite_sibling [OF n assms(2,3), of ?a] Suc.prems(2,3) n by auto
    have "refresh_loop x obs us [256 - n..<256] ?sibs = map (smt_sibling x (override L us) ?a) [0..<256]"
    proof (rule Suc.IH)
      fix k assume "k < n"
      then show "?sibs ! k = smt_sibling x L ?a k" using Suc.prems(3) by simp
    next
      fix k assume "n \<le> k" "k < 256"
      then show "?sibs ! k = smt_sibling x (override L us) ?a k"
        using at_n Suc.prems(4) by (cases "k = n") auto
    qed (use n Suc.prems(2) in auto)
    then show ?thesis
      unfolding cons using False d(2) lev
      by (cases "opposite n ?a us = []") (simp_all add: path opp Let_def)
  qed
qed

lemma refresh_observer_eq:
  "refresh_observer x obs us r = Inr p \<longleftrightarrow>
     InclusionProof_verify x obs r \<and> distinct (map upd_addr us) \<and>
     (\<forall>u\<in>set us. InclusionProof_verify x (pre_proof u) r) \<and>
     p = (if us = [] then obs
          else \<lparr> ip_address = ip_address obs,
                 ip_leaf = (case List.find (\<lambda>u. upd_addr u = ip_address obs) us of
                              Some u \<Rightarrow> post_state u | None \<Rightarrow> ip_leaf obs),
                 ip_siblings = refresh_loop x obs us [0..<256] (ip_siblings obs) \<rparr>)"
  by (auto simp: refresh_observer_def rbind_eq_Inr check_distinct_ok check_pre_proofs_ok Let_def
      TREE_DEPTH_def)

lemma refresh_honest:
  assumes "refresh_observer x (honest_proof x L a) us r = Inr p" and "honest_updates x L us"
  shows "p = honest_proof x (override L us) a"
proof (cases "us = []")
  case True
  then have "override L us = L" by (simp add: override_def fun_eq_iff)
  with assms(1) True show ?thesis by (simp add: refresh_observer_eq)
next
  case False
  have "distinct (map upd_addr us)" using assms(1) by (simp add: refresh_observer_eq)
  then have "refresh_loop x (honest_proof x L a) us [0..<256] (map (smt_sibling x L a) [0..<256]) =
      map (smt_sibling x (override L us) a) [0..<256]"
    using refresh_loop_siblings [of 256 us x L "map (smt_sibling x L a) [0..<256]" "honest_proof x L a"]
      assms(2) by (simp add: honest_proof_def)
  then show ?thesis
    using assms(1) False
    by (simp add: refresh_observer_eq honest_proof_def override_def cong: option.case_cong)
qed

definition refresh_preimages ::
    "ext \<Rightarrow> (XOnlyPublicKey \<Rightarrow> LeafKind) \<Rightarrow> InclusionProof \<Rightarrow> Update list \<Rightarrow> bytes list" where
  "refresh_preimages x L obs us =
     proof_preimages x obs @ proof_preimages x (honest_proof x L (ip_address obs)) @ update_preimages x L us"

lemma refresh_observer_sound:
  assumes "refresh_observer x obs us (smt_root x L) = Inr p"
  shows "p = honest_proof x (override L us) (ip_address obs) \<or>
     collides (sha256 x) (refresh_preimages x L obs us)"
proof (rule disjCI)
  assume no: "\<not> collides (sha256 x) (refresh_preimages x L obs us)"
  have "InclusionProof_verify x obs (smt_root x L)"
    and "\<forall>u\<in>set us. InclusionProof_verify x (pre_proof u) (smt_root x L)"
    using assms by (auto simp: refresh_observer_eq)
  then have obs: "obs = honest_proof x L (ip_address obs)" and "honest_updates x L us"
    using verify_sound [of x obs L] updates_sound [of us x L] no
      collides_append(1) [of "sha256 x" _ "update_preimages x L us"]
    by (auto simp: refresh_preimages_def simp flip: append_assoc)
  with assms refresh_honest [of x L "ip_address obs" us "smt_root x L" p]
  show "p = honest_proof x (override L us) (ip_address obs)" by metis
qed

end
