(* ===== verification/Tx.thy ===== *)
theory Tx
  imports Hash
begin

text \<open>\<open>hodl-core/src/tx.rs\<close> and the wire types of \<open>hodl-core/src/proof.rs\<close>: L2 transactions,
  the transfer sighash and the transaction hash, with the exact byte layouts.\<close>

type_synonym L2Address = XOnlyPublicKey
type_synonym Amount = u64

record OutpointProof =
  pf_outpoint :: OutPoint
  pf_user_pk :: XOnlyPublicKey
  pf_lock_blocks :: u32
  pf_claimed_height :: u32
  pf_signature :: Signature

datatype MintProofEnvelope = V0Outpoint (v0_proof: OutpointProof)

record MintEvent =
  nullifier_hex :: string
  ev_amount :: Amount
  l2_destination :: L2Address
  l1_create_height :: u32
  ev_lock_blocks :: u32
  l1_value_sat :: u64

record MintEntry =
  event :: MintEvent
  witness :: MintProofEnvelope

record TransferBody =
  tb_from :: L2Address
  tb_to :: L2Address
  tb_amount :: Amount
  tb_nonce :: u64

record SignedTransfer =
  body :: TransferBody
  signature :: Signature

datatype L2Tx = Mint MintEntry | Transfer SignedTransfer

definition transfer_preimage :: "TransferBody \<Rightarrow> bytes" where
  "transfer_preimage b =
     bytes_of ''hodl-transfer-v2'' @ serialize (tb_from b) @ serialize (tb_to b)
       @ be_bytes 8 (tb_amount b) @ be_bytes 8 (tb_nonce b)"

definition transfer_sighash :: "ext \<Rightarrow> TransferBody \<Rightarrow> H256" where
  "transfer_sighash x b = sha256 x (transfer_preimage b)"

definition witness_canonical_bytes :: "MintProofEnvelope \<Rightarrow> bytes" where
  "witness_canonical_bytes env =
     (case env of V0Outpoint p \<Rightarrow>
        [0x01] @ be_bytes 32 (txid (pf_outpoint p)) @ be_bytes 4 (vout (pf_outpoint p))
          @ serialize (pf_user_pk p) @ be_bytes 4 (pf_lock_blocks p) @ be_bytes 64 (pf_signature p))"

definition tx_preimage :: "ext \<Rightarrow> L2Tx \<Rightarrow> bytes" where
  "tx_preimage x tx = bytes_of ''hodl-tx-v2'' @
     (case tx of
        Mint entry \<Rightarrow>
          (let ev = event entry; n = bytes_of (nullifier_hex ev);
               w = witness_canonical_bytes (witness entry)
           in [0x01] @ be_bytes 4 (of_nat (length n) :: u32) @ n
                @ be_bytes 8 (ev_amount ev) @ serialize (l2_destination ev)
                @ be_bytes 4 (l1_create_height ev) @ be_bytes 4 (ev_lock_blocks ev)
                @ be_bytes 8 (l1_value_sat ev)
                @ be_bytes 4 (of_nat (length w) :: u32) @ w)
      | Transfer t \<Rightarrow>
          [0x02] @ be_bytes 32 (transfer_sighash x (body t)) @ be_bytes 64 (signature t))"

definition tx_hash :: "ext \<Rightarrow> L2Tx \<Rightarrow> H256" where
  "tx_hash x tx = sha256 x (tx_preimage x tx)"

section \<open>What the hashes bind\<close>

lemma transfer_preimage_inj: "transfer_preimage a = transfer_preimage b \<longleftrightarrow> a = b"
  by (auto simp: transfer_preimage_def encode_inj)

lemma transfer_sighash_binds:
  "transfer_sighash x a = transfer_sighash x b \<Longrightarrow>
     a = b \<or> collides (sha256 x) [transfer_preimage a, transfer_preimage b]"
  by (auto simp: transfer_sighash_def collides_def transfer_preimage_inj)

text \<open>The canonical witness leaves out the claimed block height.\<close>

definition erase_claim :: "L2Tx \<Rightarrow> L2Tx" where
  "erase_claim tx =
     (case tx of
        Mint entry \<Rightarrow> Mint (entry\<lparr>witness :=
          V0Outpoint ((v0_proof (witness entry))\<lparr>pf_claimed_height := 0\<rparr>)\<rparr>)
      | Transfer t \<Rightarrow> Transfer t)"

definition tx_preimages :: "ext \<Rightarrow> L2Tx \<Rightarrow> bytes list" where
  "tx_preimages x tx = tx_preimage x tx #
     (case tx of Mint _ \<Rightarrow> [] | Transfer t \<Rightarrow> [transfer_preimage (body t)])"

definition short_nullifier :: "L2Tx \<Rightarrow> bool" where
  "short_nullifier tx \<longleftrightarrow>
     (case tx of Mint entry \<Rightarrow> length (nullifier_hex (event entry)) < 2 ^ 32 | Transfer _ \<Rightarrow> True)"

lemma witness_canonical_bytes_eq:
  "witness_canonical_bytes (V0Outpoint p) = witness_canonical_bytes (V0Outpoint q) \<longleftrightarrow>
     p\<lparr>pf_claimed_height := 0\<rparr> = q\<lparr>pf_claimed_height := 0\<rparr>"
  by (cases p; cases q) (auto simp: witness_canonical_bytes_def encode_inj OutPoint.expand)

lemma length_witness_canonical_bytes: "length (witness_canonical_bytes w) = 137"
  by (cases w) (simp add: witness_canonical_bytes_def)

lemma erase_claim_Mint:
  "erase_claim (Mint e) = erase_claim (Mint f) \<longleftrightarrow>
     event e = event f \<and> witness_canonical_bytes (witness e) = witness_canonical_bytes (witness f)"
  by (cases e; cases f; cases "witness e"; cases "witness f")
    (auto simp: erase_claim_def witness_canonical_bytes_eq)

lemma of_nat_len_eq:
  "m < 2 ^ 32 \<Longrightarrow> n < 2 ^ 32 \<Longrightarrow> (of_nat m :: u32) = of_nat n \<longleftrightarrow> m = n"
  by (simp add: word_of_nat_eq_iff take_bit_nat_eq_self)

lemma len_prefixed_eq:
  assumes "length a < 2 ^ 32" and "length b < 2 ^ 32"
  shows "be_bytes 4 (of_nat (length a) :: u32) @ a @ r = be_bytes 4 (of_nat (length b) :: u32) @ b @ s
     \<longleftrightarrow> a = b \<and> r = s"
  using assms by (auto simp: encode_inj of_nat_len_eq)

lemma tx_preimage_Mint:
  assumes "short_nullifier (Mint e)" and "short_nullifier (Mint f)"
  shows "tx_preimage x (Mint e) = tx_preimage x (Mint f) \<longleftrightarrow> erase_claim (Mint e) = erase_claim (Mint f)"
proof -
  have "tx_preimage x (Mint e) = tx_preimage x (Mint f) \<longleftrightarrow> event e = event f \<and>
      witness_canonical_bytes (witness e) = witness_canonical_bytes (witness f)"
    using assms
    by (auto simp: tx_preimage_def Let_def len_prefixed_eq short_nullifier_def encode_inj
        length_witness_canonical_bytes intro: MintEvent.equality
        simp del: append_assoc [symmetric])
  then show ?thesis by (simp add: erase_claim_Mint)
qed

lemma tx_hash_binds:
  assumes "tx_hash x s = tx_hash x t" and "short_nullifier s" and "short_nullifier t"
  shows "erase_claim s = erase_claim t \<or> collides (sha256 x) (tx_preimages x s @ tx_preimages x t)"
proof (rule disjCI)
  assume no: "\<not> collides (sha256 x) (tx_preimages x s @ tx_preimages x t)"
  have pre: "tx_preimage x s = tx_preimage x t"
    using assms(1) by (intro not_collidesD [OF no]) (auto simp: tx_preimages_def tx_hash_def)
  show "erase_claim s = erase_claim t"
  proof (cases s; cases t)
    fix e f assume "s = Mint e" "t = Mint f"
    then show ?thesis using assms pre tx_preimage_Mint by simp
  next
    fix a b assume st: "s = Transfer a" "t = Transfer b"
    with pre have eq: "transfer_sighash x (body a) = transfer_sighash x (body b)"
      and sig: "signature a = signature b"
      by (auto simp: tx_preimage_def encode_inj)
    have "transfer_preimage (body a) = transfer_preimage (body b)"
      using eq st by (intro not_collidesD [OF no]) (auto simp: tx_preimages_def transfer_sighash_def)
    with sig st show ?thesis
      by (cases a; cases b) (simp add: transfer_preimage_inj)
  qed (use pre in \<open>auto simp: tx_preimage_def Let_def\<close>)
qed

end
