(* ===== verification/Float64.thy ===== *)
theory Float64
  imports Externals "HOL-Library.Log_Nat"
begin

text \<open>
  The binary64 arithmetic that \<open>mint_fn\<close> uses. A finite \<open>f64\<close> is the rational number it
  stands for; \<open>fl\<close> rounds an exact result to the nearest representable number, ties to
  even, with a 53-bit significand and gradual underflow. Overflow to infinity is not
  modelled: every value \<open>mint_fn\<close> computes is below \<open>2 ^ 64\<close>. The conversions are Rust's
  \<open>as\<close> casts.
\<close>

definition pow2 :: "int \<Rightarrow> rat" where
  "pow2 k = (if 0 \<le> k then 2 ^ nat k else 1 / 2 ^ nat (- k))"

definition ilog2 :: "rat \<Rightarrow> int" where
  "ilog2 r = (let (p, q) = quotient_of r; k = bitlen p - bitlen q
              in if pow2 k \<le> r then k else k - 1)"

definition round_even :: "rat \<Rightarrow> int" where
  "round_even y =
     (let f = \<lfloor>y\<rfloor>; d = y - of_int f
      in if d < 1 / 2 then f else if 1 / 2 < d then f + 1 else if even f then f else f + 1)"

definition ulp_exp :: "rat \<Rightarrow> int" where
  "ulp_exp r = max (ilog2 r - 52) (- 1074)"

definition fl :: "rat \<Rightarrow> rat" where
  "fl r = (if r = 0 then 0
           else sgn r * of_int (round_even (\<bar>r\<bar> / pow2 (ulp_exp \<bar>r\<bar>))) * pow2 (ulp_exp \<bar>r\<bar>))"

definition u64_as_f64 :: "u64 \<Rightarrow> rat" where
  "u64_as_f64 w = fl (of_nat (unat w))"

definition u32_as_f64 :: "u32 \<Rightarrow> rat" where
  "u32_as_f64 w = fl (of_nat (unat w))"

definition f64_as_u64 :: "rat \<Rightarrow> u64" where
  "f64_as_u64 r = (if r \<le> 0 then 0 else if 2 ^ 64 \<le> r then - 1 else of_int \<lfloor>r\<rfloor>)"

definition f64_clamp :: "rat \<Rightarrow> rat \<Rightarrow> rat \<Rightarrow> rat" where
  "f64_clamp r lo hi = (if r < lo then lo else if hi < r then hi else r)"

definition F64_EPSILON :: rat where
  "F64_EPSILON = 1 / 2 ^ 52"

section \<open>Powers of two and the binary logarithm\<close>

lemma pow2_pos [simp]: "0 < pow2 k"
  by (simp add: pow2_def)

lemma pow2_nonneg [simp]: "0 \<le> pow2 k"
  by (rule less_imp_le) simp

lemma pow2_nonzero [simp]: "pow2 k \<noteq> 0"
  using pow2_pos [of k] by linarith

lemma pow2_powi: "pow2 k = 2 powi k"
  by (simp add: pow2_def power_int_def inverse_eq_divide power_one_over)

lemma pow2_add: "pow2 (j + k) = pow2 j * pow2 k"
  by (simp add: pow2_powi power_int_add)

lemma pow2_nat: "pow2 (int n) = 2 ^ n"
  by (simp add: pow2_def)

lemma pow2_0 [simp]: "pow2 0 = 1"
  by (simp add: pow2_def)

lemma pow2_mono: "j \<le> k \<Longrightarrow> pow2 j \<le> pow2 k"
  by (simp add: pow2_powi power_int_increasing)

lemma pow2_strict_mono: "j < k \<Longrightarrow> pow2 j < pow2 k"
  by (simp add: pow2_powi power_int_strict_increasing)

lemma pow2_less_iff: "pow2 j < pow2 k \<longleftrightarrow> j < k"
  using pow2_strict_mono [of j k] pow2_mono [of k j] by (cases "j < k") auto

lemma pow2_diff: "pow2 (j - k) = pow2 j / pow2 k"
  using pow2_add [of "j - k" k] by (simp add: field_simps)

lemma ilog2_bounds:
  assumes "0 < r"
  shows "pow2 (ilog2 r) \<le> r" and "r < pow2 (ilog2 r + 1)"
proof -
  obtain p q where pq: "quotient_of r = (p, q)" by force
  then have q: "0 < q" and r: "r = of_int p / of_int q"
    using quotient_of_denom_pos quotient_of_div by blast+
  with assms have p: "0 < p" by (simp add: zero_less_divide_iff)
  define k where "k = bitlen p - bitlen q"
  have bounds: "pow2 (bitlen n - 1) \<le> of_int n \<and> of_int n < pow2 (bitlen n)" if n: "0 < n" for n :: int
  proof -
    have bl: "0 < bitlen n"
      using n bitlen_nonneg [of n] bitlen_eq_zero_iff [of n] by linarith
    have "2 ^ nat (bitlen n - 1) \<le> n \<and> n < 2 ^ nat (bitlen n)"
      using bitlen_bounds [OF n] by blast
    then have "(of_int (2 ^ nat (bitlen n - 1)) :: rat) \<le> of_int n \<and>
        (of_int n :: rat) < of_int (2 ^ nat (bitlen n))"
      by (simp only: of_int_le_iff of_int_less_iff)
    then show ?thesis using bl by (simp add: pow2_def)
  qed
  have qr: "0 < (of_int q :: rat)" using q by simp
  have up: "r < pow2 (k + 1)"
  proof -
    have "of_int p < pow2 (k + 1) * pow2 (bitlen q - 1)"
      using bounds [OF p] by (simp add: k_def flip: pow2_add)
    also have "\<dots> \<le> pow2 (k + 1) * of_int q"
      using bounds [OF q] by (intro mult_left_mono) auto
    finally show ?thesis using qr by (simp add: r divide_less_eq)
  qed
  have low: "pow2 (k - 1) \<le> r"
  proof -
    have "pow2 (k - 1) * of_int q \<le> pow2 (k - 1) * pow2 (bitlen q)"
      using bounds [OF q] by (intro mult_left_mono) auto
    also have "\<dots> \<le> of_int p"
      using bounds [OF p] by (simp add: k_def flip: pow2_add)
    finally show ?thesis using qr by (simp add: r le_divide_eq)
  qed
  have "ilog2 r = (if pow2 k \<le> r then k else k - 1)"
    by (simp add: ilog2_def pq k_def)
  then show "pow2 (ilog2 r) \<le> r" and "r < pow2 (ilog2 r + 1)"
    using up low by (auto split: if_splits)
qed

lemma ilog2_mono:
  assumes "0 < r" and "r \<le> s"
  shows "ilog2 r \<le> ilog2 s"
proof -
  have "pow2 (ilog2 r) < pow2 (ilog2 s + 1)"
    using ilog2_bounds [of r] ilog2_bounds [of s] assms by linarith
  then show ?thesis by (simp add: pow2_less_iff)
qed

lemma ilog2_unique: "pow2 k \<le> r \<Longrightarrow> r < pow2 (k + 1) \<Longrightarrow> ilog2 r = k"
proof -
  assume k: "pow2 k \<le> r" "r < pow2 (k + 1)"
  then have r: "0 < r" using pow2_pos [of k] by linarith
  then have "pow2 k < pow2 (ilog2 r + 1)" and "pow2 (ilog2 r) < pow2 (k + 1)"
    using ilog2_bounds [OF r] k by linarith+
  then show ?thesis by (simp add: pow2_less_iff)
qed

section \<open>Rounding\<close>

lemma round_even_of_int [simp]: "round_even (of_int n) = n"
  by (simp add: round_even_def)

lemma round_even_ge_floor: "\<lfloor>y\<rfloor> \<le> round_even y"
  by (simp add: round_even_def Let_def)

lemma round_even_le_floor: "round_even y \<le> \<lfloor>y\<rfloor> + 1"
  by (simp add: round_even_def Let_def)

lemma round_even_mono: "y \<le> z \<Longrightarrow> round_even y \<le> round_even z"
proof -
  assume le: "y \<le> z"
  consider "\<lfloor>y\<rfloor> = \<lfloor>z\<rfloor>" | "\<lfloor>y\<rfloor> + 1 \<le> \<lfloor>z\<rfloor>"
    using floor_mono [OF le] by linarith
  then show ?thesis
  proof cases
    case 1
    with le show ?thesis by (auto simp: round_even_def Let_def)
  next
    case 2
    then show ?thesis using round_even_le_floor [of y] round_even_ge_floor [of z] by linarith
  qed
qed

lemma fl_0 [simp]: "fl 0 = 0"
  by (simp add: fl_def)

lemma fl_pos_eq:
  "0 < r \<Longrightarrow> fl r = of_int (round_even (r / pow2 (ulp_exp r))) * pow2 (ulp_exp r)"
  by (simp add: fl_def)

text \<open>Numbers with at most 53 significant bits are kept.\<close>

lemma fl_exact:
  assumes "0 < r" and "r = of_int m * pow2 e" and "ulp_exp r \<le> e"
  shows "fl r = r"
proof -
  define u where "u = ulp_exp r"
  have "r / pow2 u = of_int m * pow2 (e - u)"
    using assms(2) by (simp add: pow2_diff)
  also have "\<dots> = of_int (m * 2 ^ nat (e - u))"
    using assms(3) by (simp add: pow2_def u_def)
  finally have "round_even (r / pow2 u) = m * 2 ^ nat (e - u)" and
    eq: "r / pow2 u = of_int (m * 2 ^ nat (e - u))"
    by (simp_all only: round_even_of_int)
  then have "fl r = (r / pow2 u) * pow2 u"
    using assms(1) by (simp only: fl_pos_eq u_def [symmetric])
  then show ?thesis by simp
qed

text \<open>Rounding is monotone: within a binade by the rounding of the significand, across
  binades because the power of two between them is representable.\<close>

lemma fl_le_binade:
  assumes "0 < r"
  shows "fl r \<le> pow2 (ilog2 r + 1)"
proof (cases "ilog2 r - 52 < - 1074")
  case False
  then have u: "ulp_exp r = ilog2 r - 52" by (simp add: ulp_exp_def)
  have "r / pow2 (ulp_exp r) \<le> of_int (2 ^ 53)"
    using ilog2_bounds(2) [OF assms] pow2_add [of "ilog2 r - 52" 53]
    by (simp add: u divide_le_eq pow2_def [of 53] mult.commute add.commute)
  then have "round_even (r / pow2 (ulp_exp r)) \<le> 2 ^ 53"
    using round_even_mono round_even_of_int by metis
  then have "(of_int (round_even (r / pow2 (ulp_exp r))) :: rat) \<le> of_int (2 ^ 53)"
    by (simp only: of_int_le_iff)
  then have "fl r \<le> of_int (2 ^ 53) * pow2 (ulp_exp r)"
    using assms by (simp add: fl_pos_eq mult_right_mono del: of_int_power)
  also have "\<dots> = pow2 (ilog2 r + 1)"
    using pow2_add [of 53 "ilog2 r - 52"] by (simp add: u pow2_def [of 53] add.commute)
  finally show ?thesis .
next
  case True
  then have u: "ulp_exp r = - 1074" by (simp add: ulp_exp_def)
  show ?thesis
  proof (cases "- 1074 \<le> ilog2 r + 1")
    case ge: True
    define j where "j = nat (ilog2 r + 1 + 1074)"
    have p: "pow2 (ilog2 r + 1) = of_int (2 ^ j) * pow2 (- 1074)"
      using ge pow2_add [of "ilog2 r + 1 + 1074" "- 1074"]
      by (simp add: j_def pow2_def [of "ilog2 r + 1 + 1074"] pow2_def [of "ilog2 r + 1075"] ac_simps)
    have "r / pow2 (- 1074) \<le> of_int (2 ^ j)"
      using ilog2_bounds(2) [OF assms] p by (simp add: divide_le_eq del: of_int_power)
    then have "round_even (r / pow2 (- 1074)) \<le> 2 ^ j"
      using round_even_mono round_even_of_int by metis
    then have "(of_int (round_even (r / pow2 (- 1074))) :: rat) \<le> of_int (2 ^ j)"
      by (simp only: of_int_le_iff)
    then show ?thesis
      using assms p by (simp add: fl_pos_eq u mult_right_mono del: of_int_power)
  next
    case False
    then have "r < pow2 (- 1075)"
      using ilog2_bounds(2) [OF assms] pow2_mono [of "ilog2 r + 1" "- 1075"] by linarith
    moreover have "pow2 (- 1075) = pow2 (- 1074) / 2"
      using pow2_diff [of "- 1074" 1] by (simp add: pow2_def [of 1])
    ultimately have "r / pow2 (- 1074) < 1 / 2" and "0 \<le> r / pow2 (- 1074)"
      using assms by (simp_all add: divide_less_eq)
    then have "\<lfloor>r / pow2 (- 1074)\<rfloor> = 0" by linarith
    with \<open>r / pow2 (- 1074) < 1 / 2\<close> have "round_even (r / pow2 (- 1074)) = 0"
      by (simp add: round_even_def)
    then show ?thesis using assms by (simp add: fl_pos_eq u)
  qed
qed

lemma fl_ge_pow2:
  assumes "0 < r" and "- 1074 \<le> ilog2 r"
  shows "pow2 (ilog2 r) \<le> fl r"
proof -
  have le: "ulp_exp r \<le> ilog2 r" using assms(2) by (simp add: ulp_exp_def)
  define j where "j = nat (ilog2 r - ulp_exp r)"
  have p: "pow2 (ilog2 r) = of_int (2 ^ j) * pow2 (ulp_exp r)"
    using le pow2_add [of "ilog2 r - ulp_exp r" "ulp_exp r"]
    by (simp add: j_def pow2_def [of "ilog2 r - ulp_exp r"])
  have "of_int (2 ^ j) \<le> r / pow2 (ulp_exp r)"
    using ilog2_bounds(1) [OF assms(1)] p by (simp add: le_divide_eq del: of_int_power)
  then have "2 ^ j \<le> round_even (r / pow2 (ulp_exp r))"
    using round_even_mono round_even_of_int by metis
  then have "(of_int (2 ^ j) :: rat) \<le> of_int (round_even (r / pow2 (ulp_exp r)))"
    by (simp only: of_int_le_iff)
  then show ?thesis
    using assms p by (simp add: fl_pos_eq mult_right_mono del: of_int_power)
qed

lemma fl_nonneg: "0 \<le> r \<Longrightarrow> 0 \<le> fl r"
proof (cases "r = 0")
  case False
  assume "0 \<le> r"
  with False have "0 < r" by simp
  moreover have "0 \<le> round_even (r / pow2 (ulp_exp r))"
    using round_even_mono [of 0 "r / pow2 (ulp_exp r)"] \<open>0 < r\<close> round_even_of_int [of 0] by simp
  ultimately show ?thesis by (simp add: fl_pos_eq)
qed simp

lemma fl_mono_pos:
  assumes "0 < r" and "r \<le> s"
  shows "fl r \<le> fl s"
proof -
  have s: "0 < s" using assms by linarith
  show ?thesis
  proof (cases "ulp_exp r = ulp_exp s")
    case True
    have "r / pow2 (ulp_exp s) \<le> s / pow2 (ulp_exp s)"
      using assms(2) by (simp add: divide_right_mono)
    then have "(of_int (round_even (r / pow2 (ulp_exp s))) :: rat)
        \<le> of_int (round_even (s / pow2 (ulp_exp s)))"
      by (simp only: of_int_le_iff round_even_mono)
    then show ?thesis
      using assms(1) s True by (simp add: fl_pos_eq mult_right_mono)
  next
    case False
    with ilog2_mono [OF assms] have "ilog2 r < ilog2 s" and "- 1074 \<le> ilog2 s"
      by (auto simp: ulp_exp_def max_def split: if_splits)
    then have "pow2 (ilog2 r + 1) \<le> pow2 (ilog2 s)" by (intro pow2_mono) simp
    then show ?thesis
      using fl_le_binade [OF assms(1)] fl_ge_pow2 [OF s \<open>- 1074 \<le> ilog2 s\<close>] by linarith
  qed
qed

lemma fl_mono_nonneg: "0 \<le> r \<Longrightarrow> r \<le> s \<Longrightarrow> fl r \<le> fl s"
  using fl_mono_pos [of r s] fl_nonneg [of s] by (cases "r = 0") auto

lemma fl_int_exact:
  assumes "n < 2 ^ 53"
  shows "fl (of_nat n) = of_nat n"
proof (cases "n = 0")
  case False
  then have pos: "0 < (of_nat n :: rat)" by simp
  have "pow2 (ilog2 (of_nat n)) < pow2 53"
  proof -
    have "(of_nat n :: rat) < of_nat (2 ^ 53)" using assms by (simp only: of_nat_less_iff)
    then show ?thesis using ilog2_bounds(1) [OF pos] by (simp add: pow2_def [of 53])
  qed
  then have "ilog2 (of_nat n) < 53" by (simp add: pow2_less_iff)
  then show ?thesis
    using pos by (intro fl_exact [where m = "int n" and e = 0]) (auto simp: ulp_exp_def)
qed simp

text \<open>The rounding error is at most half a unit in the last place.\<close>

lemma round_even_error: "\<bar>of_int (round_even y) - y\<bar> \<le> 1 / 2"
proof -
  have "of_int \<lfloor>y\<rfloor> \<le> y" and "y < of_int \<lfloor>y\<rfloor> + 1" by linarith+
  then show ?thesis by (simp add: round_even_def Let_def abs_le_iff)
qed

lemma fl_le_half_ulp:
  assumes "0 < r"
  shows "fl r \<le> r + pow2 (ulp_exp r) / 2"
proof -
  define u where "u = pow2 (ulp_exp r)"
  have u: "0 < u" by (simp add: u_def)
  have "of_int (round_even (r / u)) \<le> r / u + 1 / 2"
    using round_even_error [of "r / u"] by linarith
  then have "of_int (round_even (r / u)) * u \<le> (r / u + 1 / 2) * u"
    using u by (intro mult_right_mono) auto
  also have "\<dots> = r + u / 2" using u by (simp add: field_simps)
  finally show ?thesis using assms by (simp add: fl_pos_eq u_def)
qed

text \<open>One unit below a rounded normal number is representable.\<close>

lemma fl_pred:
  assumes "1 \<le> r"
  shows "fl (fl r - pow2 (ulp_exp r)) = fl r - pow2 (ulp_exp r)"
    and "0 < fl r - pow2 (ulp_exp r)"
proof -
  have r: "0 < r" using assms by linarith
  have "pow2 0 < pow2 (ilog2 r + 1)"
    using ilog2_bounds(2) [OF r] assms by simp
  then have k: "0 \<le> ilog2 r" by (simp only: pow2_less_iff)
  then have u: "ulp_exp r = ilog2 r - 52" by (simp add: ulp_exp_def)
  define n where "n = round_even (r / pow2 (ulp_exp r))"
  have fl: "fl r = of_int n * pow2 (ulp_exp r)"
    using r by (simp add: fl_pos_eq n_def)
  define y where "y = fl r - pow2 (ulp_exp r)"
  have y: "y = of_int (n - 1) * pow2 (ulp_exp r)"
    by (simp add: y_def fl algebra_simps)
  have "pow2 (ulp_exp r) < pow2 (ilog2 r)" by (simp add: u pow2_less_iff)
  then show pos: "0 < fl r - pow2 (ulp_exp r)"
    using fl_ge_pow2 [OF r] k by linarith
  then have "0 < y" by (simp add: y_def)
  have "pow2 (ilog2 y) < pow2 (ilog2 r + 1)"
    using ilog2_bounds(1) [OF \<open>0 < y\<close>] fl_le_binade [OF r] pow2_pos [of "ulp_exp r"]
    unfolding y_def by linarith
  then have "ulp_exp y \<le> ulp_exp r" using k by (simp add: pow2_less_iff ulp_exp_def)
  then show "fl (fl r - pow2 (ulp_exp r)) = fl r - pow2 (ulp_exp r)"
    using fl_exact [OF \<open>0 < y\<close> y] by (simp add: y_def)
qed

lemma fl_1 [simp]: "fl 1 = 1"
  using fl_int_exact [of 1] by simp

lemma ilog2_ge_0: "1 \<le> r \<Longrightarrow> 0 \<le> ilog2 r"
  using ilog2_bounds(2) [of r] pow2_less_iff [of 0 "ilog2 r + 1"] by simp

text \<open>A rounded number times a factor that stays one part in \<open>2 ^ 52\<close> below one rounds to
  less than the number before rounding, also when the product is rounded twice.\<close>

lemma fl_le_pred: "0 \<le> y \<Longrightarrow> y \<le> fl r - pow2 (ulp_exp r) \<Longrightarrow> 1 \<le> r \<Longrightarrow>
    fl y \<le> fl r - pow2 (ulp_exp r)"
  using fl_mono_nonneg fl_pred(1) by metis

lemma fl_pred_less: "1 \<le> r \<Longrightarrow> fl r - pow2 (ulp_exp r) < r"
  using fl_le_half_ulp [of r] pow2_pos [of "ulp_exp r"] by linarith

lemma fl_mult_le_pred:
  assumes r: "1 \<le> r" and q: "0 \<le> q" "q \<le> 1 - 1 / 2 ^ 52"
  shows "fl (fl r * q) \<le> fl r - pow2 (ulp_exp r)"
proof -
  have r0: "0 < r" using r by linarith
  have u: "ulp_exp r = ilog2 r - 52"
    using ilog2_ge_0 [OF r] by (simp add: ulp_exp_def)
  have "pow2 (ulp_exp r) = pow2 (ilog2 r) / 2 ^ 52"
    using pow2_diff [of "ilog2 r" 52] by (simp add: u pow2_def [of 52])
  also have "\<dots> \<le> fl r / 2 ^ 52"
    using fl_ge_pow2 [OF r0] ilog2_ge_0 [OF r] by (intro divide_right_mono) auto
  finally have le: "fl r * (1 - 1 / 2 ^ 52) \<le> fl r - pow2 (ulp_exp r)"
    by (simp add: algebra_simps)
  have nn: "0 \<le> fl r" using r0 by (simp add: fl_nonneg)
  then have "fl r * q \<le> fl r * (1 - 1 / 2 ^ 52)"
    using q(2) by (rule mult_left_mono [rotated])
  with le nn q(1) r show ?thesis by (intro fl_le_pred) auto
qed

lemma fl_fl_mult_less:
  assumes "1 \<le> r" and "0 \<le> q" "q \<le> 1 - 1 / 2 ^ 52"
  shows "fl (fl (fl r * q)) < r"
proof -
  have "0 \<le> fl (fl r * q)" using assms by (intro fl_nonneg mult_nonneg_nonneg) (auto simp: fl_nonneg)
  then have "fl (fl (fl r * q)) \<le> fl r - pow2 (ulp_exp r)"
    using assms by (intro fl_le_pred fl_mult_le_pred)
  with fl_pred_less [OF assms(1)] show ?thesis by linarith
qed

lemma f64_clamp_bounds: "lo \<le> hi \<Longrightarrow> lo \<le> f64_clamp r lo hi \<and> f64_clamp r lo hi \<le> hi"
  by (auto simp: f64_clamp_def)

lemma unat_f64_as_u64: "0 \<le> r \<Longrightarrow> r < 2 ^ 64 \<Longrightarrow> unat (f64_as_u64 r) = nat \<lfloor>r\<rfloor>"
proof -
  assume r: "0 \<le> r" "r < 2 ^ 64"
  then have "\<lfloor>r\<rfloor> < 2 ^ 64" by (simp add: floor_less_iff)
  with r show ?thesis
    by (auto simp: f64_as_u64_def nat_eq_iff unsigned_of_int take_bit_int_eq_self)
qed

lemma f64_as_u64_mono: "r \<le> s \<Longrightarrow> f64_as_u64 r \<le> f64_as_u64 s"
proof (cases "r \<le> 0")
  case False
  assume le: "r \<le> s"
  show ?thesis
  proof (cases "2 ^ 64 \<le> s")
    case True
    then have "f64_as_u64 s = - 1" using False le by (simp add: f64_as_u64_def)
    then show ?thesis by simp
  next
    assume "\<not> 2 ^ 64 \<le> s"
    then show ?thesis
      using False le unat_f64_as_u64 [of r] unat_f64_as_u64 [of s] floor_mono [OF le]
      by (simp add: word_le_nat_alt nat_mono)
  qed
qed (simp add: f64_as_u64_def)

end
