(* ===== verification/Consensus.thy ===== *)
theory Consensus
  imports Float64 Hash
begin

text \<open>\<open>hodl-core/src/consensus.rs\<close>: the consensus constants, the tagged-hash commitment of
  the data tapleaf, and the mint function with its binary64 rounding.\<close>

definition CHAIN_ID :: string where
  "CHAIN_ID = ''hodlchain''"

definition DATA_LEAF_TAG :: string where
  "DATA_LEAF_TAG = ''L2/hodlchain/v1''"

definition data_leaf_commitment :: "ext \<Rightarrow> XOnlyPublicKey \<Rightarrow> bytes" where
  "data_leaf_commitment x user_pk =
     (let tag_hash = be_bytes 32 (sha256 x (bytes_of DATA_LEAF_TAG))
      in be_bytes 32 (sha256 x (tag_hash @ tag_hash @ serialize user_pk)))"

definition MAGIC :: bytes where
  "MAGIC = [0x48, 0x4F, 0x44, 0x4C]"

definition ATTESTATION_VERSION :: u8 where
  "ATTESTATION_VERSION = 0"

definition ATTESTATION_LEN :: nat where
  "ATTESTATION_LEN = 4 + 1 + 4 + 32 + 32"

definition BIP341_NUMS_H_XONLY :: bytes where
  "BIP341_NUMS_H_XONLY =
     [0x50, 0x92, 0x9b, 0x74, 0xc1, 0xa0, 0x49, 0x54, 0xb7, 0x8b, 0x4b, 0x60, 0x35, 0xe9, 0x7a, 0x5e,
      0x07, 0x8a, 0x5a, 0x0f, 0x28, 0xec, 0x96, 0xd5, 0x47, 0xbf, 0xee, 0x9a, 0xce, 0x80, 0x3a, 0xc0]"

definition BLOCKS_PER_YEAR :: u32 where
  "BLOCKS_PER_YEAR = 52560"

definition R :: rat where
  "R = fl (1 / u32_as_f64 BLOCKS_PER_YEAR)"

definition ATOMS_PER_SAT :: u64 where
  "ATOMS_PER_SAT = 1"

definition FEE_BPS :: u64 where
  "FEE_BPS = 1"

definition MIN_FEE :: u64 where
  "MIN_FEE = 100"

definition MINT_CONFIRMATIONS :: u32 where
  "MINT_CONFIRMATIONS = 1"

definition MAX_LOCK_BLOCKS :: u32 where
  "MAX_LOCK_BLOCKS = 0xFFFF"

definition mint_ratio :: "ext \<Rightarrow> u32 \<Rightarrow> rat" where
  "mint_ratio x lock_blocks =
     (let rt = fl (R * u32_as_f64 lock_blocks);
          ratio = fl (1 - fl (fl (1 + rt) * exp_f64 x (- rt)))
      in f64_clamp ratio 0 (fl (1 - F64_EPSILON)))"

definition mint_fn :: "ext \<Rightarrow> u64 \<Rightarrow> u32 \<Rightarrow> u64" where
  "mint_fn x value_sat lock_blocks =
     (if lock_blocks = 0 \<or> value_sat = 0 then 0
      else let ratio = mint_ratio x lock_blocks;
               atoms = fl (fl (u64_as_f64 value_sat * ratio) * u64_as_f64 ATOMS_PER_SAT)
           in f64_as_u64 (of_int \<lfloor>atoms\<rfloor>))"

section \<open>The mint function\<close>

lemma fl_one_minus_epsilon: "fl (1 - F64_EPSILON) = 1 - 1 / 2 ^ 52"
proof -
  have "ilog2 (1 - F64_EPSILON) = - 1"
    by (rule ilog2_unique) (simp_all add: pow2_def F64_EPSILON_def)
  then have "fl (1 - F64_EPSILON) = 1 - F64_EPSILON"
    by (intro fl_exact [where m = "2 ^ 52 - 1" and e = "- 52"])
      (simp_all add: ulp_exp_def pow2_def F64_EPSILON_def)
  then show ?thesis by (simp add: F64_EPSILON_def)
qed

lemma mint_ratio_bounds: "0 \<le> mint_ratio x t" "mint_ratio x t \<le> 1 - 1 / 2 ^ 52"
proof -
  have "(0 :: rat) \<le> 1 - 1 / 2 ^ 52" by simp
  from f64_clamp_bounds [OF this] show "0 \<le> mint_ratio x t" "mint_ratio x t \<le> 1 - 1 / 2 ^ 52"
    unfolding mint_ratio_def fl_one_minus_epsilon Let_def by blast+
qed

lemma atoms_per_sat_f64 [simp]: "u64_as_f64 ATOMS_PER_SAT = 1"
  by (simp add: u64_as_f64_def ATOMS_PER_SAT_def)

lemma mint_fn_zero [simp]: "mint_fn x 0 t = 0" "mint_fn x v 0 = 0"
  by (simp_all add: mint_fn_def)

lemma u64_as_f64_nonneg: "0 \<le> u64_as_f64 v"
  by (simp add: u64_as_f64_def fl_nonneg del: of_nat_unat)

lemma mint_atoms_nonneg: "0 \<le> fl (fl (u64_as_f64 v * mint_ratio x t))"
  by (intro fl_nonneg mult_nonneg_nonneg) (simp_all add: u64_as_f64_nonneg mint_ratio_bounds(1))

text \<open>The atoms credited never reach the satoshi locked, at any value of the 64-bit range and
  whatever the exponential returns: the cast of a value above \<open>2 ^ 53\<close> may round up,
  and the clamp of the ratio still outweighs that.\<close>

lemma mint_fn_less:
  assumes "v \<noteq> 0"
  shows "mint_fn x v t < v"
proof (cases "t = 0")
  case True
  with assms show ?thesis by (simp add: word_gt_0)
next
  case False
  define r :: rat where "r = of_nat (unat v)"
  define y where "y = fl (fl (u64_as_f64 v * mint_ratio x t))"
  have rv: "u64_as_f64 v = fl r" by (simp add: u64_as_f64_def r_def)
  have "1 \<le> unat v" using assms by (simp add: Suc_le_eq unat_gt_0)
  then have r: "1 \<le> r" by (simp add: r_def del: of_nat_unat)
  have y: "y < r" "0 \<le> y"
    unfolding y_def rv using r mint_ratio_bounds [of x t]
    by (auto intro!: fl_fl_mult_less fl_nonneg mult_nonneg_nonneg)
  have fy: "0 \<le> \<lfloor>y\<rfloor>" "\<lfloor>y\<rfloor> < int (unat v)"
    using y by (auto simp: r_def floor_less_iff simp del: of_nat_unat)
  have "(of_int \<lfloor>y\<rfloor> :: rat) < of_int (int (unat v))" using fy(2) by (simp only: of_int_less_iff)
  also have "\<dots> \<le> of_int (2 ^ 64)"
    using uint_lt2p [of v] by (simp only: of_int_le_iff) simp
  finally have "unat (f64_as_u64 (of_int \<lfloor>y\<rfloor>)) = nat \<lfloor>y\<rfloor>"
    using fy(1) by (subst unat_f64_as_u64) auto
  then show ?thesis
    using assms False fy by (simp add: mint_fn_def word_less_nat_alt nat_less_iff flip: y_def)
qed

lemma u64_as_f64_mono: "v \<le> w \<Longrightarrow> u64_as_f64 v \<le> u64_as_f64 w"
  unfolding u64_as_f64_def
  by (rule fl_mono_nonneg) (simp_all add: word_le_nat_alt del: of_nat_unat)

lemma mint_fn_mono_value:
  assumes "v \<le> w"
  shows "mint_fn x v t \<le> mint_fn x w t"
proof (cases "t = 0 \<or> v = 0")
  case False
  with assms have "w \<noteq> 0" by auto
  have "fl (fl (u64_as_f64 v * mint_ratio x t)) \<le> fl (fl (u64_as_f64 w * mint_ratio x t))"
    using u64_as_f64_mono [OF assms] mint_ratio_bounds(1) [of x t] u64_as_f64_nonneg [of v]
    by (intro fl_mono_nonneg fl_nonneg mult_right_mono mult_nonneg_nonneg) auto
  then show ?thesis
    using False \<open>w \<noteq> 0\<close> by (simp add: mint_fn_def f64_as_u64_mono floor_mono)
qed auto

lemma data_leaf_commitment_inj:
  "data_leaf_commitment x p = data_leaf_commitment x q \<Longrightarrow> p = q \<or>
     collides (sha256 x) (map (\<lambda>k. let th = be_bytes 32 (sha256 x (bytes_of DATA_LEAF_TAG))
                                    in th @ th @ serialize k) [p, q])"
  by (auto simp: data_leaf_commitment_def collides_def Let_def enc_injs)

end
