(* ===== verification/L1.thy ===== *)
theory L1
  imports Consensus
begin

text \<open>\<open>hodl-core/src/l1.rs\<close>: the lock-duration check, the two tapleaves and the two-leaf
  Taproot construction of a mint output. Script building, the Taproot tweak and the
  address form belong to the \<open>bitcoin\<close> crate.\<close>

datatype MintConstructionError = LockBlocksTooSmall | LockBlocksTooLarge (lb_got: u32) (lb_max: u32)

definition OP_CSV :: u8 where "OP_CSV = 0xb2"
definition OP_DROP :: u8 where "OP_DROP = 0x75"
definition OP_CHECKSIG :: u8 where "OP_CHECKSIG = 0xac"
definition OP_RETURN :: u8 where "OP_RETURN = 0x6a"

text \<open>\<open>expect\<close> aborts when the constant is not a key; \<open>nums_ok\<close> is the fact it states.\<close>

definition nums_ok :: "ext \<Rightarrow> bool" where
  "nums_ok x \<longleftrightarrow> xonly_from_slice x BIP341_NUMS_H_XONLY \<noteq> None"

definition nums_internal_key :: "ext \<Rightarrow> XOnlyPublicKey" where
  "nums_internal_key x = the (xonly_from_slice x BIP341_NUMS_H_XONLY)"

definition validate_lock_blocks :: "u32 \<Rightarrow> (MintConstructionError, unit) result" where
  "validate_lock_blocks lock_blocks =
     (if lock_blocks = 0 then Inl LockBlocksTooSmall
      else if MAX_LOCK_BLOCKS < lock_blocks then Inl (LockBlocksTooLarge lock_blocks MAX_LOCK_BLOCKS)
      else Inr ())"

definition csv_tapleaf_script ::
    "ext \<Rightarrow> u32 \<Rightarrow> XOnlyPublicKey \<Rightarrow> (MintConstructionError, Script) result" where
  "csv_tapleaf_script x lock_blocks user_pk =
     rbind (validate_lock_blocks lock_blocks) (\<lambda>_.
       Inr (push_int x (ucast lock_blocks) @ [OP_CSV, OP_DROP]
            @ push_x_only_key x user_pk @ [OP_CHECKSIG]))"

definition data_tapleaf_script :: "ext \<Rightarrow> XOnlyPublicKey \<Rightarrow> Script" where
  "data_tapleaf_script x user_pk = OP_RETURN # push_slice x (data_leaf_commitment x user_pk)"

definition tapleaf_hash :: "ext \<Rightarrow> Script \<Rightarrow> H256" where
  "tapleaf_hash x script = tap_leaf_hash x script"

definition derive_mint_taproot ::
    "ext \<Rightarrow> u32 \<Rightarrow> XOnlyPublicKey \<Rightarrow> (MintConstructionError, Script \<times> TaprootSpendInfo) result" where
  "derive_mint_taproot x lock_blocks user_pk =
     rbind (csv_tapleaf_script x lock_blocks user_pk) (\<lambda>spend_script.
       let data_script = data_tapleaf_script x user_pk;
           spend = \<lparr> internal_key = nums_internal_key x,
                     tap_leaves = [(1, spend_script), (1, data_script)] \<rparr>
       in Inr (new_p2tr_tweaked x (taproot_output_key x spend), spend))"

definition mint_address ::
    "ext \<Rightarrow> u32 \<Rightarrow> XOnlyPublicKey \<Rightarrow> Network \<Rightarrow> (MintConstructionError, string) result" where
  "mint_address x lock_blocks user_pk network =
     rbind (derive_mint_taproot x lock_blocks user_pk) (\<lambda>(_, spend).
       Inr (p2tr_tweaked_address x (taproot_output_key x spend) network))"

definition expected_p2tr_spk ::
    "ext \<Rightarrow> u32 \<Rightarrow> XOnlyPublicKey \<Rightarrow> (MintConstructionError, Script) result" where
  "expected_p2tr_spk x lock_blocks user_pk =
     rbind (derive_mint_taproot x lock_blocks user_pk) (\<lambda>(spk, _). Inr spk)"

section \<open>Lock durations\<close>

definition lock_in_range :: "u32 \<Rightarrow> bool" where
  "lock_in_range t \<longleftrightarrow> 1 \<le> unat t \<and> unat t \<le> 65535"

lemma validate_lock_blocks_ok [simp]: "validate_lock_blocks t = Inr u \<longleftrightarrow> lock_in_range t"
  by (auto simp: validate_lock_blocks_def lock_in_range_def MAX_LOCK_BLOCKS_def word_less_nat_alt
      Suc_le_eq unat_gt_0)

lemma lock_in_range_iff: "lock_in_range t \<longleftrightarrow> t \<noteq> 0 \<and> t \<le> MAX_LOCK_BLOCKS"
  by (auto simp: lock_in_range_def MAX_LOCK_BLOCKS_def word_le_nat_alt Suc_le_eq unat_gt_0)

text \<open>In range the duration survives \<open>nSequence\<close>'s mask of the low sixteen bits.\<close>

lemma lock_in_range_mask: "lock_in_range t \<Longrightarrow> take_bit 16 t = t"
  by (rule word_unat_eq_iff [THEN iffD2])
    (simp add: lock_in_range_def unsigned_take_bit_eq take_bit_nat_eq_self)

lemma validate_lock_blocks_Inl:
  "validate_lock_blocks t = Inl e \<longleftrightarrow> \<not> lock_in_range t \<and>
     e = (if t = 0 then LockBlocksTooSmall else LockBlocksTooLarge t MAX_LOCK_BLOCKS)"
  unfolding lock_in_range_iff by (auto simp: validate_lock_blocks_def)

text \<open>Every constructor fails on exactly the durations \<open>validate_lock_blocks\<close> refuses.\<close>

lemma derive_mint_taproot_ok:
  "is_ok (derive_mint_taproot x t pk) \<longleftrightarrow> lock_in_range t"
  by (simp add: is_ok_iff derive_mint_taproot_def csv_tapleaf_script_def rbind_eq_Inr Let_def)

lemma expected_p2tr_spk_ok: "is_ok (expected_p2tr_spk x t pk) \<longleftrightarrow> lock_in_range t"
  using derive_mint_taproot_ok [of x t pk]
  by (cases "derive_mint_taproot x t pk") (auto simp: expected_p2tr_spk_def)

lemma mint_address_ok: "is_ok (mint_address x t pk n) \<longleftrightarrow> lock_in_range t"
  using derive_mint_taproot_ok [of x t pk]
  by (cases "derive_mint_taproot x t pk") (auto simp: mint_address_def)

lemma mint_address_matches_spk:
  "mint_address x t pk n = Inr a \<Longrightarrow> \<exists>spend. derive_mint_taproot x t pk
       = Inr (new_p2tr_tweaked x (taproot_output_key x spend), spend) \<and>
     expected_p2tr_spk x t pk = Inr (new_p2tr_tweaked x (taproot_output_key x spend)) \<and>
     a = p2tr_tweaked_address x (taproot_output_key x spend) n"
  by (auto simp: mint_address_def expected_p2tr_spk_def derive_mint_taproot_def rbind_eq_Inr Let_def)

end
