(* ===== verification/Proof.thy ===== *)
theory Proof
  imports Tx L1
begin

text \<open>\<open>hodl-core/src/proof.rs\<close>: the L1 view, the v0 mint proof and the check of a mint entry
  against its own witness. The trait \<open>MintProof\<close> is the locale \<open>mint_proof\<close>; its two
  implementations, \<open>OutpointProof\<close> and \<open>MintProofEnvelope\<close>, are its interpretations.\<close>

record L1Output =
  value_sat :: u64
  script_pubkey :: Script
  confirmed_height :: u32
  confirmations :: u32

record L1View =
  get_output :: "OutPoint \<Rightarrow> L1Output option"
  tip_height :: u32

datatype MintError =
    EventMismatch string
  | OutpointNotFound
  | NotEnoughConfirmations u32 u32
  | ScriptMismatch
  | BadSignature
  | BadLockBlocks u32 u32
  | ValueMismatch u64 u64
  | AmountOverflow
  | ClaimedHeightBeforeCreate u32 u32
  | LockExpired u32 u32
  | ClaimedHeightInFuture u32 u32

record MintCredit =
  credit_event :: MintEvent
  credit_nullifier :: bytes

definition mint_preimage :: "OutPoint \<Rightarrow> u32 \<Rightarrow> L2Address \<Rightarrow> bytes" where
  "mint_preimage p claimed_block_height dest =
     bytes_of ''hodl-mint-v1'' @ be_bytes 32 (txid p) @ le_bytes 4 (vout p)
       @ be_bytes 4 claimed_block_height @ serialize dest"

definition mint_sighash :: "ext \<Rightarrow> OutPoint \<Rightarrow> u32 \<Rightarrow> L2Address \<Rightarrow> H256" where
  "mint_sighash x p claimed_block_height dest = sha256 x (mint_preimage p claimed_block_height dest)"

definition outpoint_nullifier :: "OutPoint \<Rightarrow> bytes" where
  "outpoint_nullifier p = be_bytes 32 (txid p) @ le_bytes 4 (vout p)"

definition OutpointProof_nullifier :: "OutpointProof \<Rightarrow> bytes" where
  "OutpointProof_nullifier p = outpoint_nullifier (pf_outpoint p)"

definition OutpointProof_verify ::
    "ext \<Rightarrow> L1View \<Rightarrow> OutpointProof \<Rightarrow> L2Address \<Rightarrow> (MintError, MintCredit) result" where
  "OutpointProof_verify x l1 p dest =
     rbind (ok_or (get_output l1 (pf_outpoint p)) OutpointNotFound) (\<lambda>output.
     if confirmations output < MINT_CONFIRMATIONS then
       Inl (NotEnoughConfirmations (confirmations output) MINT_CONFIRMATIONS)
     else if pf_lock_blocks p = 0 \<or> MAX_LOCK_BLOCKS < pf_lock_blocks p then
       Inl (BadLockBlocks (pf_lock_blocks p) MAX_LOCK_BLOCKS)
     else
       let create = confirmed_height output;
           unlock = sat_add create (pf_lock_blocks p);
           claimed = pf_claimed_height p
       in if claimed < create then Inl (ClaimedHeightBeforeCreate claimed create)
          else if unlock \<le> claimed then Inl (LockExpired claimed unlock)
          else if tip_height l1 < claimed then Inl (ClaimedHeightInFuture claimed (tip_height l1))
          else
            rbind (map_err (\<lambda>_. BadLockBlocks (pf_lock_blocks p) MAX_LOCK_BLOCKS)
                     (expected_p2tr_spk x (pf_lock_blocks p) (pf_user_pk p))) (\<lambda>expected.
            if expected \<noteq> script_pubkey output then Inl ScriptMismatch
            else
              let sighash = mint_sighash x (pf_outpoint p) claimed dest
              in if \<not> verify_schnorr x (pf_signature p) sighash (pf_user_pk p) then Inl BadSignature
                 else
                   let amount = mint_fn x (value_sat output) (pf_lock_blocks p)
                   in if amount = 0 then Inl AmountOverflow
                      else
                        let nullifier = OutpointProof_nullifier p
                        in Inr \<lparr> credit_event =
                                  \<lparr> nullifier_hex = hex_encode x nullifier,
                                    ev_amount = amount,
                                    l2_destination = dest,
                                    l1_create_height = confirmed_height output,
                                    ev_lock_blocks = pf_lock_blocks p,
                                    l1_value_sat = value_sat output \<rparr>,
                                 credit_nullifier = nullifier \<rparr>))"

definition MintProofEnvelope_nullifier :: "MintProofEnvelope \<Rightarrow> bytes" where
  "MintProofEnvelope_nullifier env = (case env of V0Outpoint p \<Rightarrow> OutpointProof_nullifier p)"

definition MintProofEnvelope_verify ::
    "ext \<Rightarrow> L1View \<Rightarrow> MintProofEnvelope \<Rightarrow> L2Address \<Rightarrow> (MintError, MintCredit) result" where
  "MintProofEnvelope_verify x l1 env dest =
     (case env of V0Outpoint p \<Rightarrow> OutpointProof_verify x l1 p dest)"

definition verify_mint_entry :: "ext \<Rightarrow> L1View \<Rightarrow> MintEntry \<Rightarrow> (MintError, unit) result" where
  "verify_mint_entry x l1 entry =
     rbind (MintProofEnvelope_verify x l1 (witness entry) (l2_destination (event entry))) (\<lambda>credit.
       let ev = event entry; derived = credit_event credit
       in if nullifier_hex derived \<noteq> nullifier_hex ev then Inl (EventMismatch ''nullifier_hex'')
          else if ev_amount derived \<noteq> ev_amount ev then Inl (EventMismatch ''amount'')
          else if l2_destination derived \<noteq> l2_destination ev then Inl (EventMismatch ''l2_destination'')
          else if l1_create_height derived \<noteq> l1_create_height ev then Inl (EventMismatch ''l1_create_height'')
          else if ev_lock_blocks derived \<noteq> ev_lock_blocks ev then Inl (EventMismatch ''lock_blocks'')
          else if l1_value_sat derived \<noteq> l1_value_sat ev then Inl (EventMismatch ''l1_value_sat'')
          else Inr ())"

section \<open>The trait \<open>MintProof\<close>\<close>

locale mint_proof =
  fixes nullifier :: "'p \<Rightarrow> bytes"
    and verify :: "ext \<Rightarrow> L1View \<Rightarrow> 'p \<Rightarrow> L2Address \<Rightarrow> (MintError, MintCredit) result"
  assumes credits_own_nullifier:
      "verify x l1 p d = Inr c \<Longrightarrow> credit_nullifier c = nullifier p \<and>
         nullifier_hex (credit_event c) = hex_encode x (nullifier p)"
    and credits_destination: "verify x l1 p d = Inr c \<Longrightarrow> l2_destination (credit_event c) = d"
    and credits_below_value:
      "verify x l1 p d = Inr c \<Longrightarrow> 0 < ev_amount (credit_event c) \<and>
         ev_amount (credit_event c) < l1_value_sat (credit_event c)"
    and credits_mint_fn:
      "verify x l1 p d = Inr c \<Longrightarrow> ev_amount (credit_event c) =
         mint_fn x (l1_value_sat (credit_event c)) (ev_lock_blocks (credit_event c)) \<and>
         lock_in_range (ev_lock_blocks (credit_event c))"
begin

text \<open>The dedup key that a block carries in hexadecimal is as good as the nullifier itself.\<close>

lemma same_hex_same_nullifier:
  assumes "hex_ok x" and "verify x l1 p d = Inr c" and "verify x l1' q e = Inr c'"
    and "nullifier_hex (credit_event c) = nullifier_hex (credit_event c')"
  shows "nullifier p = nullifier q"
  using assms credits_own_nullifier by (auto simp: hex_ok_inj)

text \<open>A credited event passes the comparison against itself, and no other event of the same
  witness does.\<close>

lemma credit_determines_event:
  assumes "verify x l1 p d = Inr c" and "verify x l1 p d = Inr c'"
  shows "credit_event c = credit_event c'"
  using assms by simp

end

lemma expected_p2tr_spk_in_range:
  "lock_in_range t \<Longrightarrow> \<exists>s. expected_p2tr_spk x t pk = Inr s"
  using expected_p2tr_spk_ok [of x t pk] by (simp add: is_ok_iff)

text \<open>Acceptance, as one condition.\<close>

definition outpoint_accepts :: "ext \<Rightarrow> L1View \<Rightarrow> OutpointProof \<Rightarrow> L2Address \<Rightarrow> L1Output \<Rightarrow> bool" where
  "outpoint_accepts x l1 p dest output \<longleftrightarrow>
     get_output l1 (pf_outpoint p) = Some output \<and>
     MINT_CONFIRMATIONS \<le> confirmations output \<and>
     lock_in_range (pf_lock_blocks p) \<and>
     confirmed_height output \<le> pf_claimed_height p \<and>
     pf_claimed_height p < sat_add (confirmed_height output) (pf_lock_blocks p) \<and>
     pf_claimed_height p \<le> tip_height l1 \<and>
     expected_p2tr_spk x (pf_lock_blocks p) (pf_user_pk p) = Inr (script_pubkey output) \<and>
     verify_schnorr x (pf_signature p)
       (mint_sighash x (pf_outpoint p) (pf_claimed_height p) dest) (pf_user_pk p) \<and>
     mint_fn x (value_sat output) (pf_lock_blocks p) \<noteq> 0"

definition outpoint_credit :: "ext \<Rightarrow> OutpointProof \<Rightarrow> L2Address \<Rightarrow> L1Output \<Rightarrow> MintCredit" where
  "outpoint_credit x p dest output =
     \<lparr> credit_event =
         \<lparr> nullifier_hex = hex_encode x (outpoint_nullifier (pf_outpoint p)),
           ev_amount = mint_fn x (value_sat output) (pf_lock_blocks p),
           l2_destination = dest,
           l1_create_height = confirmed_height output,
           ev_lock_blocks = pf_lock_blocks p,
           l1_value_sat = value_sat output \<rparr>,
       credit_nullifier = outpoint_nullifier (pf_outpoint p) \<rparr>"

lemma OutpointProof_verify_eq:
  "OutpointProof_verify x l1 p dest = Inr c \<longleftrightarrow>
     (\<exists>output. outpoint_accepts x l1 p dest output \<and> c = outpoint_credit x p dest output)"
  unfolding OutpointProof_verify_def outpoint_accepts_def outpoint_credit_def
    OutpointProof_nullifier_def lock_in_range_iff Let_def
  by (auto simp only: rbind_eq_Inr guard_eq_Inr ok_or_eq_Inr map_err_eq_Inr not_less not_le
      de_Morgan_disj not_not sum.inject)

lemma verify_nonzero_value: "mint_fn x v t \<noteq> 0 \<Longrightarrow> mint_fn x v t < v"
  using mint_fn_less [of v x t] by (cases "v = 0") auto

interpretation v0: mint_proof OutpointProof_nullifier OutpointProof_verify
  by unfold_locales
    (auto simp: OutpointProof_verify_eq outpoint_credit_def outpoint_accepts_def
      OutpointProof_nullifier_def verify_nonzero_value word_gt_0)

interpretation envelope: mint_proof MintProofEnvelope_nullifier MintProofEnvelope_verify
  by unfold_locales
    (auto simp: MintProofEnvelope_verify_def MintProofEnvelope_nullifier_def
      split: MintProofEnvelope.splits
      dest: v0.credits_own_nullifier v0.credits_destination v0.credits_below_value v0.credits_mint_fn)

section \<open>What an accepted entry says\<close>

lemma outpoint_nullifier_inj [simp]: "outpoint_nullifier p = outpoint_nullifier q \<longleftrightarrow> p = q"
  using outpoint_le_code.enc_inj [of p q] by (simp add: outpoint_nullifier_def outpoint_le_def)

lemma length_outpoint_nullifier [simp]: "length (outpoint_nullifier p) = 36"
  by (simp add: outpoint_nullifier_def)

lemma mint_preimage_inj:
  "mint_preimage p h d = mint_preimage q k e \<longleftrightarrow> p = q \<and> h = k \<and> d = e"
  by (auto simp: mint_preimage_def encode_inj OutPoint.expand)

lemma mint_sighash_binds:
  "mint_sighash x p h d = mint_sighash x q k e \<Longrightarrow> p = q \<and> h = k \<and> d = e \<or>
     collides (sha256 x) [mint_preimage p h d, mint_preimage q k e]"
  by (auto simp: mint_sighash_def collides_def mint_preimage_inj)

definition entry_proof :: "MintEntry \<Rightarrow> OutpointProof" where
  "entry_proof e = v0_proof (witness e)"

lemma verify_mint_entry_eq:
  "verify_mint_entry x l1 e = Inr u \<longleftrightarrow>
     (\<exists>output. outpoint_accepts x l1 (entry_proof e) (l2_destination (event e)) output \<and>
        event e = credit_event (outpoint_credit x (entry_proof e) (l2_destination (event e)) output))"
proof (cases "witness e")
  case (V0Outpoint p)
  have "verify_mint_entry x l1 e = Inr u \<longleftrightarrow>
      (\<exists>c. OutpointProof_verify x l1 p (l2_destination (event e)) = Inr c \<and> credit_event c = event e)"
    unfolding verify_mint_entry_def MintProofEnvelope_verify_def Let_def
    by (auto simp: V0Outpoint rbind_eq_Inr simp del: if_split_asm intro!: MintEvent.equality)
  then show ?thesis
    by (auto simp: OutpointProof_verify_eq entry_proof_def V0Outpoint)
qed

end
