(* ===== verification/State.thy ===== *)
theory State
  imports SmtCorrect Proof "HOL-Library.Finite_Map" "HOL-Library.FSet"
begin

text \<open>\<open>hodl-core/src/state.rs\<close>: the ledger, the transition \<open>apply\<close> and the state root. A
  \<open>BTreeMap\<close> is a finite map and a \<open>BTreeSet\<close> a finite set; iterating one is its list
  in key order. \<open>from.nonce += 1\<close> wraps, as in a release build.\<close>

record LedgerState =
  accounts :: "(L2Address, Account) fmap"
  consumed_nullifiers :: "string fset"
  total_minted_atoms :: u64
  sequencer_fee_address :: "L2Address option"

datatype ApplyError =
    DoubleMint
  | ApplyBadSignature
  | BadNonce u64 u64
  | InsufficientBalance
  | SelfTransfer
  | ZeroAmount

definition LedgerState_new :: LedgerState where
  "LedgerState_new = \<lparr> accounts = fmempty, consumed_nullifiers = {||}, total_minted_atoms = 0,
     sequencer_fee_address = None \<rparr>"

definition Account_default :: Account where
  "Account_default = \<lparr> acc_balance = 0, acc_nonce = 0 \<rparr>"

definition balance_of :: "LedgerState \<Rightarrow> L2Address \<Rightarrow> Amount" where
  "balance_of S addr = (case fmlookup (accounts S) addr of Some a \<Rightarrow> acc_balance a | None \<Rightarrow> 0)"

definition nonce_of :: "LedgerState \<Rightarrow> L2Address \<Rightarrow> u64" where
  "nonce_of S addr = (case fmlookup (accounts S) addr of Some a \<Rightarrow> acc_nonce a | None \<Rightarrow> 0)"

text \<open>\<open>accounts.entry(addr).or_default()\<close> followed by an assignment through the reference.\<close>

definition with_entry :: "L2Address \<Rightarrow> (Account \<Rightarrow> Account) \<Rightarrow> LedgerState \<Rightarrow> LedgerState" where
  "with_entry addr f S =
     S\<lparr>accounts := fmupd addr
         (f (case fmlookup (accounts S) addr of Some a \<Rightarrow> a | None \<Rightarrow> Account_default)) (accounts S)\<rparr>"

definition credit :: "Amount \<Rightarrow> Account \<Rightarrow> Account" where
  "credit amount a = a\<lparr>acc_balance := sat_add (acc_balance a) amount\<rparr>"

definition apply_mint :: "MintEntry \<Rightarrow> LedgerState \<Rightarrow> (ApplyError, LedgerState) result" where
  "apply_mint entry S =
     (let ev = event entry
      in if ev_amount ev = 0 then Inl ZeroAmount
         else if nullifier_hex ev |\<in>| consumed_nullifiers S then Inl DoubleMint
         else
           let S = S\<lparr>consumed_nullifiers := finsert (nullifier_hex ev) (consumed_nullifiers S)\<rparr>;
               S = with_entry (l2_destination ev) (credit (ev_amount ev)) S
           in Inr (S\<lparr>total_minted_atoms := sat_add (total_minted_atoms S) (ev_amount ev)\<rparr>))"

definition transfer_fee :: "Amount \<Rightarrow> Amount" where
  "transfer_fee amount = max MIN_FEE (sat_mul amount FEE_BPS div 10000)"

definition apply_transfer ::
    "ext \<Rightarrow> SignedTransfer \<Rightarrow> LedgerState \<Rightarrow> (ApplyError, LedgerState) result" where
  "apply_transfer x t S =
     (if tb_amount (body t) = 0 then Inl ZeroAmount
      else if tb_from (body t) = tb_to (body t) then Inl SelfTransfer
      else
        let expected_nonce = nonce_of S (tb_from (body t))
        in if tb_nonce (body t) \<noteq> expected_nonce then Inl (BadNonce expected_nonce (tb_nonce (body t)))
           else if \<not> verify_schnorr x (signature t) (transfer_sighash x (body t)) (tb_from (body t))
             then Inl ApplyBadSignature
           else
             let fee = transfer_fee (tb_amount (body t));
                 total = sat_add (tb_amount (body t)) fee
             in if balance_of S (tb_from (body t)) < total then Inl InsufficientBalance
                else
                  let S = with_entry (tb_from (body t))
                        (\<lambda>a. a\<lparr>acc_balance := acc_balance a - total, acc_nonce := acc_nonce a + 1\<rparr>) S;
                      S = with_entry (tb_to (body t)) (credit (tb_amount (body t))) S
                  in Inr (case sequencer_fee_address S of
                            Some fee_addr \<Rightarrow> with_entry fee_addr (credit fee) S
                          | None \<Rightarrow> S))"

definition apply_tx :: "ext \<Rightarrow> L2Tx \<Rightarrow> LedgerState \<Rightarrow> (ApplyError, LedgerState) result" where
  "apply_tx x tx S =
     (case tx of Mint entry \<Rightarrow> apply_mint entry S | Transfer t \<Rightarrow> apply_transfer x t S)"

definition account_list :: "LedgerState \<Rightarrow> (L2Address \<times> Account) list" where
  "account_list S = sorted_list_of_fmap (accounts S)"

definition accounts_root :: "ext \<Rightarrow> LedgerState \<Rightarrow> H256" where
  "accounts_root x S = compute_root x (account_list S)"

definition account_inclusion_proof :: "ext \<Rightarrow> LedgerState \<Rightarrow> L2Address \<Rightarrow> InclusionProof" where
  "account_inclusion_proof x S addr = compute_proof x (account_list S) addr"

definition nullifiers_preimage :: "string fset \<Rightarrow> bytes" where
  "nullifiers_preimage ns =
     bytes_of ''hodl-nullifiers-v0'' @ concat (map bytes_of (sorted_list_of_fset ns))"

definition nullifiers_hash_of :: "ext \<Rightarrow> string fset \<Rightarrow> H256" where
  "nullifiers_hash_of x ns = sha256 x (nullifiers_preimage ns)"

definition nullifiers_hash :: "ext \<Rightarrow> LedgerState \<Rightarrow> H256" where
  "nullifiers_hash x S = nullifiers_hash_of x (consumed_nullifiers S)"

record StateComponents =
  sc_accounts_root :: H256
  sc_nullifiers_hash :: H256
  sc_fee_address :: "L2Address option"

definition components :: "ext \<Rightarrow> LedgerState \<Rightarrow> StateComponents" where
  "components x S =
     \<lparr> sc_accounts_root = accounts_root x S, sc_nullifiers_hash = nullifiers_hash x S,
       sc_fee_address = sequencer_fee_address S \<rparr>"

definition components_preimage :: "StateComponents \<Rightarrow> bytes" where
  "components_preimage c =
     bytes_of ''hodl-state-v4'' @ be_bytes 32 (sc_accounts_root c) @ be_bytes 32 (sc_nullifiers_hash c)
       @ bytes_of ''|fee|'' @ tagged serialize (sc_fee_address c)"

definition components_state_root :: "ext \<Rightarrow> StateComponents \<Rightarrow> H256" where
  "components_state_root x c = sha256 x (components_preimage c)"

definition state_root :: "ext \<Rightarrow> LedgerState \<Rightarrow> H256" where
  "state_root x S = components_state_root x (components x S)"

section \<open>Looking at the ledger\<close>

definition acct :: "LedgerState \<Rightarrow> L2Address \<Rightarrow> Account" where
  "acct S a = (case fmlookup (accounts S) a of Some b \<Rightarrow> b | None \<Rightarrow> Account_default)"

definition leaf_of :: "LedgerState \<Rightarrow> L2Address \<Rightarrow> LeafKind" where
  "leaf_of S a = (case fmlookup (accounts S) a of
     Some b \<Rightarrow> LeafAccount (acc_balance b) (acc_nonce b) | None \<Rightarrow> LeafEmpty)"

lemma balance_of_acct: "balance_of S a = acc_balance (acct S a)"
  by (simp add: balance_of_def acct_def Account_default_def split: option.split)

lemma nonce_of_acct: "nonce_of S a = acc_nonce (acct S a)"
  by (simp add: nonce_of_def acct_def Account_default_def split: option.split)

lemma with_entry_simps [simp]:
  "consumed_nullifiers (with_entry a f S) = consumed_nullifiers S"
  "total_minted_atoms (with_entry a f S) = total_minted_atoms S"
  "sequencer_fee_address (with_entry a f S) = sequencer_fee_address S"
  "fmlookup (accounts (with_entry a f S)) b = (if a = b then Some (f (acct S a)) else fmlookup (accounts S) b)"
  "acct (with_entry a f S) b = (if a = b then f (acct S a) else acct S b)"
  by (simp_all add: with_entry_def acct_def)

lemma acct_record_simps [simp]:
  "acct (S\<lparr>consumed_nullifiers := n\<rparr>) a = acct S a"
  "acct (S\<lparr>total_minted_atoms := t\<rparr>) a = acct S a"
  "acct (S\<lparr>sequencer_fee_address := f\<rparr>) a = acct S a"
  by (simp_all add: acct_def)

lemma leaf_of_acct: "a |\<in>| fmdom (accounts S) \<Longrightarrow>
    leaf_of S a = LeafAccount (acc_balance (acct S a)) (acc_nonce (acct S a))"
  by (auto simp: leaf_of_def acct_def fmdomI split: option.split)

text \<open>Fees: the floor applies up to a million and nine thousand nine hundred and ninety-nine
  atoms; the total is what the sender pays.\<close>

definition fee_nat :: "nat \<Rightarrow> nat" where
  "fee_nat amount = max 100 (amount div 10000)"

lemma unat_transfer_fee: "unat (transfer_fee amount) = fee_nat (unat amount)"
proof -
  have "unat (sat_mul amount FEE_BPS) = unat amount"
    using unat_le_max [of amount] by (simp add: rust_arith FEE_BPS_def)
  then show ?thesis
    by (simp add: transfer_fee_def fee_nat_def MIN_FEE_def max_def word_le_nat_alt unat_div)
qed

lemma fee_positive: "0 < unat (transfer_fee amount)"
  by (simp add: unat_transfer_fee fee_nat_def)

lemma transfer_total:
  "unat (sat_add amount (transfer_fee amount)) = min (unat amount + fee_nat (unat amount)) (2 ^ 64 - 1)"
  by (simp add: rust_arith unat_transfer_fee)

section \<open>The state root as a commitment\<close>

lemma distinct_sorted_list_of_fset [simp]: "distinct (sorted_list_of_fset A)"
  by (simp add: sorted_list_of_fset.rep_eq)

lemma distinct_account_list: "distinct (map fst (account_list S))"
  by (simp add: account_list_def sorted_list_of_fmap_def comp_def)

lemma map_of_account_list: "map_of (account_list S) = fmlookup (accounts S)"
  by (simp add: account_list_def)

lemma lookup_leaf_account_list: "lookup_leaf (account_list S) = leaf_of S"
  by (simp add: fun_eq_iff lookup_leaf_def leaf_of_def map_of_account_list)

lemma accounts_root_eq: "accounts_root x S = smt_root x (leaf_of S)"
  by (simp add: accounts_root_def compute_root_eq distinct_account_list lookup_leaf_account_list)

lemma account_inclusion_proof_eq: "account_inclusion_proof x S a = honest_proof x (leaf_of S) a"
  by (simp add: account_inclusion_proof_def compute_proof_eq distinct_account_list lookup_leaf_account_list)

lemma components_preimage_inj: "components_preimage a = components_preimage b \<longleftrightarrow> a = b"
  by (auto simp: components_preimage_def encode_inj)

lemma components_binding:
  "components_state_root x a = components_state_root x b \<Longrightarrow>
     a = b \<or> collides (sha256 x) [components_preimage a, components_preimage b]"
  by (auto simp: components_state_root_def collides_def components_preimage_inj)

section \<open>The effect of a transaction\<close>

definition mint_post :: "MintEvent \<Rightarrow> LedgerState \<Rightarrow> LedgerState" where
  "mint_post ev S =
     (with_entry (l2_destination ev) (credit (ev_amount ev)) S)
       \<lparr>consumed_nullifiers := finsert (nullifier_hex ev) (consumed_nullifiers S),
        total_minted_atoms := sat_add (total_minted_atoms S) (ev_amount ev)\<rparr>"

definition debit :: "Amount \<Rightarrow> Account \<Rightarrow> Account" where
  "debit paid a = a\<lparr>acc_balance := acc_balance a - paid, acc_nonce := acc_nonce a + 1\<rparr>"

definition transfer_post :: "TransferBody \<Rightarrow> LedgerState \<Rightarrow> LedgerState" where
  "transfer_post b S =
     (let fee = transfer_fee (tb_amount b);
          S = with_entry (tb_from b) (debit (sat_add (tb_amount b) fee)) S;
          S = with_entry (tb_to b) (credit (tb_amount b)) S
      in case sequencer_fee_address S of
           Some fee_addr \<Rightarrow> with_entry fee_addr (credit fee) S | None \<Rightarrow> S)"

definition transfer_ok :: "ext \<Rightarrow> SignedTransfer \<Rightarrow> LedgerState \<Rightarrow> bool" where
  "transfer_ok x t S \<longleftrightarrow> tb_amount (body t) \<noteq> 0 \<and> tb_from (body t) \<noteq> tb_to (body t) \<and>
     tb_nonce (body t) = nonce_of S (tb_from (body t)) \<and>
     verify_schnorr x (signature t) (transfer_sighash x (body t)) (tb_from (body t)) \<and>
     sat_add (tb_amount (body t)) (transfer_fee (tb_amount (body t))) \<le> balance_of S (tb_from (body t))"

lemma apply_mint_eq:
  "apply_mint e S = Inr S' \<longleftrightarrow>
     ev_amount (event e) \<noteq> 0 \<and> nullifier_hex (event e) |\<notin>| consumed_nullifiers S \<and>
     S' = mint_post (event e) S"
  by (auto simp: apply_mint_def mint_post_def Let_def with_entry_def)

lemma apply_transfer_eq:
  "apply_transfer x t S = Inr S' \<longleftrightarrow> transfer_ok x t S \<and> S' = transfer_post (body t) S"
  unfolding apply_transfer_def transfer_ok_def transfer_post_def debit_def [abs_def] Let_def
  by (auto simp only: guard_eq_Inr not_less not_not sum.inject)

lemma apply_tx_eq:
  "apply_tx x tx S = Inr S' \<longleftrightarrow>
     (case tx of
        Mint e \<Rightarrow> ev_amount (event e) \<noteq> 0 \<and> nullifier_hex (event e) |\<notin>| consumed_nullifiers S \<and>
                   S' = mint_post (event e) S
      | Transfer t \<Rightarrow> transfer_ok x t S \<and> S' = transfer_post (body t) S)"
  by (cases tx) (simp_all add: apply_tx_def apply_mint_eq apply_transfer_eq)

lemma mint_post_simps [simp]:
  "consumed_nullifiers (mint_post ev S) = finsert (nullifier_hex ev) (consumed_nullifiers S)"
  "total_minted_atoms (mint_post ev S) = sat_add (total_minted_atoms S) (ev_amount ev)"
  "sequencer_fee_address (mint_post ev S) = sequencer_fee_address S"
  "fmlookup (accounts (mint_post ev S)) a =
     (if l2_destination ev = a then Some (credit (ev_amount ev) (acct S a)) else fmlookup (accounts S) a)"
  by (auto simp: mint_post_def)

lemma transfer_post_simps [simp]:
  "consumed_nullifiers (transfer_post b S) = consumed_nullifiers S"
  "total_minted_atoms (transfer_post b S) = total_minted_atoms S"
  "sequencer_fee_address (transfer_post b S) = sequencer_fee_address S"
  by (simp_all add: transfer_post_def Let_def split: option.split)

text \<open>The accounts a transaction reads or writes, given the fee address.\<close>

definition touches :: "L2Address option \<Rightarrow> L2Tx \<Rightarrow> L2Address set" where
  "touches fee tx =
     (case tx of
        Mint e \<Rightarrow> {l2_destination (event e)}
      | Transfer t \<Rightarrow> {tb_from (body t), tb_to (body t)} \<union> set_option fee)"

lemma lookup_transfer_post:
  "fmlookup (accounts (transfer_post b S)) a =
     (if a \<in> touches (sequencer_fee_address S) (Transfer \<lparr>body = b, signature = s\<rparr>)
      then Some (acct (transfer_post b S) a) else fmlookup (accounts S) a)"
  by (auto simp: transfer_post_def touches_def Let_def split: option.split)

lemma apply_tx_frame:
  assumes "apply_tx x tx S = Inr S'" and "a \<notin> touches (sequencer_fee_address S) tx"
  shows "fmlookup (accounts S') a = fmlookup (accounts S) a"
  using assms
  by (cases tx)
    (auto simp: apply_tx_eq touches_def transfer_post_def Let_def split: option.splits)

lemma apply_tx_fee_address:
  "apply_tx x tx S = Inr S' \<Longrightarrow> sequencer_fee_address S' = sequencer_fee_address S"
  by (cases tx) (auto simp: apply_tx_eq)

text \<open>Two ledgers that agree on the accounts a transaction touches, on the nullifiers and on
  the fee address give the same result: this is what lets a light client replay a block
  from the inclusion proofs of the touched accounts alone.\<close>

definition agree :: "L2Address set \<Rightarrow> LedgerState \<Rightarrow> LedgerState \<Rightarrow> bool" where
  "agree T S S' \<longleftrightarrow> (\<forall>a\<in>T. fmlookup (accounts S) a = fmlookup (accounts S') a) \<and>
     consumed_nullifiers S = consumed_nullifiers S' \<and>
     total_minted_atoms S = total_minted_atoms S' \<and>
     sequencer_fee_address S = sequencer_fee_address S'"

lemma agree_acct: "agree T S S' \<Longrightarrow> a \<in> T \<Longrightarrow> acct S a = acct S' a"
  by (simp add: agree_def acct_def)

lemma agree_with_entry: "agree T S S' \<Longrightarrow> a \<in> T \<Longrightarrow> agree T (with_entry a f S) (with_entry a f S')"
  using agree_acct [of T S S' a] by (auto simp: agree_def)

lemma agree_mint_post:
  "agree T S S' \<Longrightarrow> l2_destination ev \<in> T \<Longrightarrow> agree T (mint_post ev S) (mint_post ev S')"
  using agree_acct [of T S S'] by (auto simp: agree_def)

lemma agree_transfer_post:
  assumes "agree T S S'" and "{tb_from b, tb_to b} \<union> set_option (sequencer_fee_address S) \<subseteq> T"
  shows "agree T (transfer_post b S) (transfer_post b S')"
proof -
  have "sequencer_fee_address S' = sequencer_fee_address S" using assms(1) by (simp add: agree_def)
  then show ?thesis
    using assms by (auto simp: transfer_post_def Let_def intro!: agree_with_entry split: option.split)
qed

definition agree_result ::
    "L2Address set \<Rightarrow> ('e, LedgerState) result \<Rightarrow> ('e, LedgerState) result \<Rightarrow> bool" where
  "agree_result T r r' = (case (r, r') of
     (Inl e, Inl e') \<Rightarrow> e = e' | (Inr S, Inr S') \<Rightarrow> agree T S S' | _ \<Rightarrow> False)"

lemma apply_tx_agree:
  assumes "agree T S S'" and "touches (sequencer_fee_address S) tx \<subseteq> T"
  shows "agree_result T (apply_tx x tx S) (apply_tx x tx S')"
proof (cases tx)
  case (Mint e)
  have "apply_mint e S = (if ev_amount (event e) = 0 then Inl ZeroAmount
      else if nullifier_hex (event e) |\<in>| consumed_nullifiers S then Inl DoubleMint
      else Inr (mint_post (event e) S))" for S
    by (simp add: apply_mint_def mint_post_def Let_def with_entry_def)
  then show ?thesis
    using assms agree_mint_post [of T S S' "event e"] Mint
    by (auto simp: apply_tx_def agree_result_def touches_def) (auto simp: agree_def)
next
  case (Transfer t)
  have "apply_transfer x t U = (if tb_amount (body t) = 0 then Inl ZeroAmount
      else if tb_from (body t) = tb_to (body t) then Inl SelfTransfer
      else if tb_nonce (body t) \<noteq> nonce_of U (tb_from (body t))
        then Inl (BadNonce (nonce_of U (tb_from (body t))) (tb_nonce (body t)))
      else if \<not> verify_schnorr x (signature t) (transfer_sighash x (body t)) (tb_from (body t))
        then Inl ApplyBadSignature
      else if balance_of U (tb_from (body t)) < sat_add (tb_amount (body t)) (transfer_fee (tb_amount (body t)))
        then Inl InsufficientBalance
      else Inr (transfer_post (body t) U))" for U
    unfolding apply_transfer_def transfer_post_def debit_def [abs_def] Let_def by (simp only:)
  moreover have "nonce_of S (tb_from (body t)) = nonce_of S' (tb_from (body t))"
    and "balance_of S (tb_from (body t)) = balance_of S' (tb_from (body t))"
    using assms Transfer agree_acct [OF assms(1), of "tb_from (body t)"]
    by (auto simp: touches_def nonce_of_acct balance_of_acct)
  ultimately show ?thesis
    using assms agree_transfer_post [of T S S' "body t"] Transfer
    by (auto simp: apply_tx_def agree_result_def touches_def)
qed

end
