(* ===== verification/Ledger.thy ===== *)
theory Ledger
  imports State
begin

text \<open>
  Runs of the ledger. \<open>ledger_run\<close> is the relation that a sequence of accepted
  transactions leads from one ledger to another; the locale \<open>ledger_invariant\<close> is the
  interface by which a property of single transactions becomes one of runs, and its
  interpretations are the facts that matter: no atom appears that a mint did not credit,
  no nullifier is consumed twice, and an account's nonce counts its transfers.
\<close>

inductive ledger_run :: "ext \<Rightarrow> LedgerState \<Rightarrow> L2Tx list \<Rightarrow> LedgerState \<Rightarrow> bool" for x where
  run_Nil: "ledger_run x S [] S"
| run_snoc: "ledger_run x S txs T \<Longrightarrow> apply_tx x tx T = Inr U \<Longrightarrow> ledger_run x S (txs @ [tx]) U"

inductive_cases run_snocE: "ledger_run x S (txs @ [tx]) U"

definition apply_txs :: "ext \<Rightarrow> L2Tx list \<Rightarrow> LedgerState \<Rightarrow> (ApplyError, LedgerState) result" where
  "apply_txs x txs S = rfold (apply_tx x) txs S"

lemma apply_txs_snoc: "apply_txs x (txs @ [tx]) S = rbind (apply_txs x txs S) (apply_tx x tx)"
  by (simp add: apply_txs_def rfold_append) (cases "rfold (apply_tx x) txs S"; simp add: rbind_def split: sum.split)

lemma ledger_run_iff: "ledger_run x S txs T \<longleftrightarrow> apply_txs x txs S = Inr T"
proof
  assume "ledger_run x S txs T"
  then show "apply_txs x txs S = Inr T"
    by induction (simp_all add: apply_txs_snoc, simp add: apply_txs_def)
next
  show "apply_txs x txs S = Inr T \<Longrightarrow> ledger_run x S txs T"
  proof (induction txs arbitrary: T rule: rev_induct)
    case Nil
    then show ?case by (simp add: apply_txs_def run_Nil)
  next
    case (snoc tx txs)
    then obtain U where "apply_txs x txs S = Inr U" "apply_tx x tx U = Inr T"
      by (auto simp: apply_txs_snoc rbind_eq_Inr)
    with snoc.IH show ?case by (blast intro: run_snoc)
  qed
qed

lemma apply_txs_simps [simp]:
  "apply_txs x [] S = Inr S"
  "apply_txs x (tx # ts) S = rbind (apply_tx x tx S) (apply_txs x ts)"
  by (simp_all add: apply_txs_def [abs_def])

lemma apply_txs_append: "apply_txs x (ts @ us) S = rbind (apply_txs x ts S) (apply_txs x us)"
  by (simp add: apply_txs_def [abs_def] rfold_append)

locale ledger_invariant =
  fixes P :: "ext \<Rightarrow> L2Tx list \<Rightarrow> LedgerState \<Rightarrow> bool"
  assumes preserved:
    "P x txs S \<Longrightarrow> apply_tx x tx S = Inr S' \<Longrightarrow> P x (txs @ [tx]) S'"
begin

lemma run: "ledger_run x S txs T \<Longrightarrow> P x pre S \<Longrightarrow> P x (pre @ txs) T"
  by (induction rule: ledger_run.induct) (auto dest: preserved)

end

section \<open>Supply\<close>

definition total_supply :: "LedgerState \<Rightarrow> nat" where
  "total_supply S = (\<Sum>a\<in>fset (fmdom (accounts S)). unat (acc_balance (acct S a)))"

definition minted_of :: "L2Tx \<Rightarrow> nat" where
  "minted_of tx = (case tx of Mint e \<Rightarrow> unat (ev_amount (event e)) | Transfer _ \<Rightarrow> 0)"

definition minted :: "L2Tx list \<Rightarrow> nat" where
  "minted txs = (\<Sum>tx\<leftarrow>txs. minted_of tx)"

definition fee_of :: "L2Tx \<Rightarrow> nat" where
  "fee_of tx = (case tx of Mint _ \<Rightarrow> 0 | Transfer t \<Rightarrow> fee_nat (unat (tb_amount (body t))))"

definition fees :: "L2Tx list \<Rightarrow> nat" where
  "fees txs = (\<Sum>tx\<leftarrow>txs. fee_of tx)"

lemma supply_with_entry:
  "total_supply (with_entry a f S) + unat (acc_balance (acct S a))
     = total_supply S + unat (acc_balance (f (acct S a)))"
proof -
  let ?D = "fset (fmdom (accounts S))"
  let ?g = "\<lambda>S b. unat (acc_balance (acct S b))"
  have dom: "fset (fmdom (accounts (with_entry a f S))) = insert a ?D"
    by (simp add: with_entry_def)
  have rest: "(\<Sum>b\<in>?D - {a}. ?g (with_entry a f S) b) = (\<Sum>b\<in>?D - {a}. ?g S b)"
    by (rule sum.cong) auto
  have "total_supply (with_entry a f S) = ?g (with_entry a f S) a + (\<Sum>b\<in>?D - {a}. ?g S b)"
    unfolding total_supply_def dom using rest by (subst sum.insert_remove) auto
  moreover have "total_supply S = ?g S a + (\<Sum>b\<in>?D - {a}. ?g S b)"
  proof (cases "a \<in> ?D")
    case True
    then show ?thesis unfolding total_supply_def by (subst sum.remove [of _ a]) auto
  next
    case False
    then have "?g S a = 0" by (auto simp: acct_def fmdom_notD Account_default_def)
    with False show ?thesis by (simp add: total_supply_def)
  qed
  ultimately show ?thesis by simp
qed

lemma balance_le_supply: "unat (acc_balance (acct S a)) \<le> total_supply S"
proof (cases "a |\<in>| fmdom (accounts S)")
  case True
  then show ?thesis unfolding total_supply_def by (intro member_le_sum) auto
qed (simp add: acct_def fmdom_notD Account_default_def)

lemma supply_credit_le: "total_supply (with_entry a (credit n) S) \<le> total_supply S + unat n"
  using supply_with_entry [of a "credit n" S] by (simp add: credit_def rust_arith min_def split: if_splits)

lemma supply_credit:
  assumes "total_supply S + unat n < 2 ^ 64"
  shows "total_supply (with_entry a (credit n) S) = total_supply S + unat n"
proof -
  have "unat (acc_balance (acct S a)) + unat n \<le> 2 ^ 64 - 1"
    using assms balance_le_supply [of S a] by linarith
  then show ?thesis
    using supply_with_entry [of a "credit n" S] by (simp add: credit_def rust_arith min_absorb1)
qed

lemma supply_debit:
  assumes "paid \<le> acc_balance (acct S a)"
  shows "total_supply (with_entry a (debit paid) S) + unat paid = total_supply S"
  using supply_with_entry [of a "debit paid" S] assms
  by (simp add: debit_def rust_arith word_le_nat_alt)

lemma supply_record [simp]:
  "total_supply (S\<lparr>consumed_nullifiers := n\<rparr>) = total_supply S" "total_supply (S\<lparr>total_minted_atoms := t\<rparr>) = total_supply S"
  by (simp_all add: total_supply_def)

lemma supply_mint_le: "total_supply (mint_post ev S) \<le> total_supply S + unat (ev_amount ev)"
  by (simp add: mint_post_def supply_credit_le)

lemma supply_mint:
  "total_supply S + unat (ev_amount ev) < 2 ^ 64 \<Longrightarrow>
     total_supply (mint_post ev S) = total_supply S + unat (ev_amount ev)"
  by (simp add: mint_post_def supply_credit)

text \<open>What the sender pays is the amount and the fee exactly: no saturation is reachable,
  because the balance covers the sum.\<close>

lemma transfer_paid:
  assumes "transfer_ok x t S" and "total_supply S < 2 ^ 64 - 1"
  shows "unat (sat_add (tb_amount (body t)) (transfer_fee (tb_amount (body t))))
       = unat (tb_amount (body t)) + fee_nat (unat (tb_amount (body t)))"
proof -
  have "unat (sat_add (tb_amount (body t)) (transfer_fee (tb_amount (body t)))) < 2 ^ 64 - 1"
    using assms balance_le_supply [of S "tb_from (body t)"]
    by (simp add: transfer_ok_def balance_of_acct word_le_nat_alt)
  then show ?thesis by (simp add: transfer_total min_def split: if_splits)
qed

lemma supply_transfer:
  assumes ok: "transfer_ok x t S" and bound: "total_supply S < 2 ^ 64 - 1"
  shows "total_supply (transfer_post (body t) S) =
     total_supply S - (case sequencer_fee_address S of Some _ \<Rightarrow> 0
                 | None \<Rightarrow> fee_nat (unat (tb_amount (body t))))" (is "?goal")
    and "fee_nat (unat (tb_amount (body t))) \<le> total_supply S"
proof -
  let ?b = "body t"
  let ?paid = "sat_add (tb_amount ?b) (transfer_fee (tb_amount ?b))"
  define S1 where "S1 = with_entry (tb_from ?b) (debit ?paid) S"
  define S2 where "S2 = with_entry (tb_to ?b) (credit (tb_amount ?b)) S1"
  have paid: "unat ?paid = unat (tb_amount ?b) + fee_nat (unat (tb_amount ?b))"
    by (rule transfer_paid [OF ok bound])
  have "total_supply S1 + unat ?paid = total_supply S"
    using ok by (simp add: S1_def supply_debit transfer_ok_def balance_of_acct)
  with paid have s1: "total_supply S1 + unat (tb_amount ?b) + fee_nat (unat (tb_amount ?b)) = total_supply S" by simp
  then show "fee_nat (unat (tb_amount ?b)) \<le> total_supply S" by simp
  have s2: "total_supply S2 = total_supply S1 + unat (tb_amount ?b)"
    unfolding S2_def using s1 bound by (intro supply_credit) simp
  have "total_supply (with_entry f (credit (transfer_fee (tb_amount ?b))) S2) = total_supply S" for f
    using supply_credit [of S2 "transfer_fee (tb_amount ?b)" f] s1 s2 bound
    by (simp add: unat_transfer_fee)
  moreover have "transfer_post ?b S = (case sequencer_fee_address S of
      Some f \<Rightarrow> with_entry f (credit (transfer_fee (tb_amount ?b))) S2 | None \<Rightarrow> S2)"
    by (simp add: transfer_post_def S1_def S2_def Let_def cong: option.case_cong)
  ultimately show ?goal using s1 s2 by (auto split: option.split)
qed

text \<open>Accounting: below \<open>2 ^ 64 - 1\<close> minted atoms the running total is exact and every minted
  atom is in a balance, except the fees burned on a chain without a fee address.\<close>

definition burned :: "L2Address option \<Rightarrow> L2Tx list \<Rightarrow> nat" where
  "burned fee txs = (case fee of Some _ \<Rightarrow> 0 | None \<Rightarrow> fees txs)"

definition accounted :: "ext \<Rightarrow> L2Tx list \<Rightarrow> LedgerState \<Rightarrow> bool" where
  "accounted x txs S \<longleftrightarrow> (minted txs < 2 ^ 64 - 1 \<longrightarrow>
     unat (total_minted_atoms S) = minted txs \<and>
     total_supply S + burned (sequencer_fee_address S) txs = minted txs)"

lemma minted_snoc [simp]: "minted (txs @ [tx]) = minted txs + minted_of tx"
  and fees_snoc [simp]: "fees (txs @ [tx]) = fees txs + fee_of tx"
  by (simp_all add: minted_def fees_def)

lemma accounted_step:
  assumes "accounted x txs S" and step: "apply_tx x tx S = Inr S'"
  shows "accounted x (txs @ [tx]) S'"
  unfolding accounted_def
proof
  assume bound: "minted (txs @ [tx]) < 2 ^ 64 - 1"
  then have pre: "unat (total_minted_atoms S) = minted txs"
    "total_supply S + burned (sequencer_fee_address S) txs = minted txs"
    using assms(1) by (simp_all add: accounted_def)
  show "unat (total_minted_atoms S') = minted (txs @ [tx]) \<and>
      total_supply S' + burned (sequencer_fee_address S') (txs @ [tx]) = minted (txs @ [tx])"
  proof (cases tx)
    case (Mint e)
    then have S': "S' = mint_post (event e) S" and m: "minted_of tx = unat (ev_amount (event e))"
      and f: "fee_of tx = 0"
      using step by (simp_all add: apply_tx_eq minted_of_def fee_of_def)
    have "total_supply S + unat (ev_amount (event e)) < 2 ^ 64" using bound pre(2) m by simp
    then have "total_supply S' = total_supply S + unat (ev_amount (event e))"
      by (simp add: S' supply_mint)
    then show ?thesis
      using pre bound m f by (auto simp: S' rust_arith burned_def split: option.split)
  next
    case (Transfer t)
    then have ok: "transfer_ok x t S" and S': "S' = transfer_post (body t) S"
      and m: "minted_of tx = 0" and f: "fee_of tx = fee_nat (unat (tb_amount (body t)))"
      using step by (simp_all add: apply_tx_eq minted_of_def fee_of_def)
    have "total_supply S < 2 ^ 64 - 1" using pre(2) bound m by simp
    from supply_transfer [OF ok this] show ?thesis
      using pre m f by (auto simp: S' burned_def split: option.splits)
  qed
qed

interpretation accounting: ledger_invariant accounted
  by unfold_locales (rule accounted_step)

section \<open>Nullifiers\<close>

definition nullifiers :: "L2Tx list \<Rightarrow> string list" where
  "nullifiers txs = concat (map (\<lambda>tx. case tx of Mint e \<Rightarrow> [nullifier_hex (event e)] | Transfer _ \<Rightarrow> []) txs)"

definition nullifiers_spent :: "ext \<Rightarrow> L2Tx list \<Rightarrow> LedgerState \<Rightarrow> bool" where
  "nullifiers_spent x txs S \<longleftrightarrow>
     fset (consumed_nullifiers S) = set (nullifiers txs) \<and> distinct (nullifiers txs)"

interpretation dedup: ledger_invariant nullifiers_spent
proof
  fix x txs S tx S'
  assume "nullifiers_spent x txs S" and "apply_tx x tx S = Inr S'"
  then show "nullifiers_spent x (txs @ [tx]) S'"
    by (cases tx) (auto simp: nullifiers_spent_def nullifiers_def apply_tx_eq)
qed

section \<open>Nonces\<close>

definition sent_by :: "L2Address \<Rightarrow> L2Tx list \<Rightarrow> SignedTransfer list" where
  "sent_by a txs = concat (map (\<lambda>tx. case tx of Mint _ \<Rightarrow> []
     | Transfer t \<Rightarrow> if tb_from (body t) = a then [t] else []) txs)"

definition nonces_count :: "ext \<Rightarrow> L2Tx list \<Rightarrow> LedgerState \<Rightarrow> bool" where
  "nonces_count x txs S \<longleftrightarrow> (\<forall>a. nonce_of S a = of_nat (length (sent_by a txs)) \<and>
     map (\<lambda>t. tb_nonce (body t)) (sent_by a txs) = map of_nat [0..<length (sent_by a txs)])"

lemma sent_by_snoc: "sent_by a (txs @ [tx]) = sent_by a txs @
    (case tx of Mint _ \<Rightarrow> [] | Transfer t \<Rightarrow> if tb_from (body t) = a then [t] else [])"
  by (simp add: sent_by_def)

lemma nonce_mint_post: "nonce_of (mint_post ev S) a = nonce_of S a"
  by (simp add: nonce_of_acct mint_post_def credit_def)

lemma nonce_transfer_post:
  "tb_from b \<noteq> tb_to b \<Longrightarrow>
     nonce_of (transfer_post b S) a = (if a = tb_from b then nonce_of S a + 1 else nonce_of S a)"
  by (auto simp: nonce_of_acct transfer_post_def Let_def credit_def debit_def split: option.split)

interpretation nonces: ledger_invariant nonces_count
proof
  fix x txs S tx S'
  assume "nonces_count x txs S" and "apply_tx x tx S = Inr S'"
  then show "nonces_count x (txs @ [tx]) S'"
    by (cases tx)
      (auto simp: nonces_count_def apply_tx_eq sent_by_snoc nonce_mint_post nonce_transfer_post
        transfer_ok_def)
qed

section \<open>From genesis\<close>

definition genesis_ledger :: "L2Address option \<Rightarrow> LedgerState" where
  "genesis_ledger fee = LedgerState_new\<lparr>sequencer_fee_address := fee\<rparr>"

lemma genesis_ledger_invariants:
  "accounted x [] (genesis_ledger fee)" "nullifiers_spent x [] (genesis_ledger fee)"
  "nonces_count x [] (genesis_ledger fee)"
  by (auto simp: accounted_def nullifiers_spent_def nonces_count_def genesis_ledger_def LedgerState_new_def
      total_supply_def burned_def minted_def fees_def nullifiers_def sent_by_def nonce_of_def
      split: option.split)

lemma run_fee_address: "ledger_run x S txs T \<Longrightarrow> sequencer_fee_address T = sequencer_fee_address S"
  by (induction rule: ledger_run.induct) (auto dest: apply_tx_fee_address)

lemma genesis_fee [simp]: "sequencer_fee_address (genesis_ledger fee) = fee"
  by (simp add: genesis_ledger_def)

lemmas genesis_runs =
  accounting.run [OF _ genesis_ledger_invariants(1), simplified]
  dedup.run [OF _ genesis_ledger_invariants(2), simplified]
  nonces.run [OF _ genesis_ledger_invariants(3), simplified]

text \<open>A signed transfer is applied at most once, until an account has sent \<open>2 ^ 64\<close> of them.\<close>

lemma no_replay:
  assumes "ledger_run x (genesis_ledger fee) txs T" and "length (sent_by a txs) \<le> 2 ^ 64"
  shows "distinct (sent_by a txs)"
proof -
  have eq: "map (\<lambda>t. tb_nonce (body t)) (sent_by a txs) = map of_nat [0..<length (sent_by a txs)]"
    using genesis_runs(3) [OF assms(1)] by (simp add: nonces_count_def)
  have "inj_on (of_nat :: nat \<Rightarrow> u64) {0..<length (sent_by a txs)}"
  proof (rule inj_onI)
    fix i j assume "i \<in> {0..<length (sent_by a txs)}" "j \<in> {0..<length (sent_by a txs)}"
      and eq: "(of_nat i :: u64) = of_nat j"
    then have "i < 2 ^ 64" "j < 2 ^ 64" using assms(2) by auto
    with arg_cong [OF eq, of unat] show "i = j" by (simp add: unat_of_nat take_bit_nat_eq_self)
  qed
  then have "distinct (map (of_nat :: nat \<Rightarrow> u64) [0..<length (sent_by a txs)])"
    by (simp add: distinct_map)
  with eq have "distinct (map (\<lambda>t. tb_nonce (body t)) (sent_by a txs))" by simp
  then show ?thesis by (simp add: distinct_map)
qed

end
