(* ===== verification/Block.thy ===== *)
theory Block
  imports Ledger
begin

text \<open>\<open>hodl-core/src/block.rs\<close> and \<open>hodl-core/src/witness.rs\<close>: the block header and its hash,
  the transaction root, the genesis block, and the per-block state-transition witness.\<close>

record L2BlockHeader =
  bh_height :: u32
  prev_hash :: H256
  l1_block_hash :: H256
  l1_height :: u32
  txs_root :: H256
  bh_state_root :: H256
  timestamp :: u64
  anchor_outpoint :: "OutPoint option"
  bh_producer :: "L2Address option"
  bh_fee_address :: "L2Address option"

record L2Block =
  header :: L2BlockHeader
  txs :: "L2Tx list"

definition header_preimage :: "L2BlockHeader \<Rightarrow> bytes" where
  "header_preimage h =
     bytes_of ''hodl-block-v3'' @ be_bytes 4 (bh_height h) @ be_bytes 32 (prev_hash h)
       @ be_bytes 32 (l1_block_hash h) @ be_bytes 4 (l1_height h) @ be_bytes 32 (txs_root h)
       @ be_bytes 32 (bh_state_root h) @ be_bytes 8 (timestamp h)
       @ (case anchor_outpoint h of
            Some p \<Rightarrow> [1] @ be_bytes 32 (txid p) @ be_bytes 4 (vout p) | None \<Rightarrow> [0])
       @ (case bh_producer h of Some p \<Rightarrow> [1] @ serialize p | None \<Rightarrow> [0])
       @ (case bh_fee_address h of Some a \<Rightarrow> [1] @ serialize a | None \<Rightarrow> [0])"

definition block_hash :: "ext \<Rightarrow> L2BlockHeader \<Rightarrow> H256" where
  "block_hash x h = sha256 x (header_preimage h)"

definition txs_preimage :: "ext \<Rightarrow> L2Tx list \<Rightarrow> bytes" where
  "txs_preimage x ts = bytes_of ''hodl-txs-v2'' @ concat (map (\<lambda>tx. be_bytes 32 (tx_hash x tx)) ts)"

definition compute_txs_root :: "ext \<Rightarrow> L2Tx list \<Rightarrow> H256" where
  "compute_txs_root x ts = sha256 x (txs_preimage x ts)"

definition L2Block_hash :: "ext \<Rightarrow> L2Block \<Rightarrow> H256" where
  "L2Block_hash x b = block_hash x (header b)"

definition genesis ::
    "ext \<Rightarrow> H256 \<Rightarrow> u32 \<Rightarrow> u64 \<Rightarrow> OutPoint \<Rightarrow> L2Address option \<Rightarrow> L2Address option \<Rightarrow> L2Block" where
  "genesis x l1_hash l1_h time anchor who fee =
     (let ts = [];
          genesis_state = LedgerState_new\<lparr>sequencer_fee_address := fee\<rparr>
      in \<lparr> header =
             \<lparr> bh_height = 0, prev_hash = H256_ZERO, l1_block_hash = l1_hash, l1_height = l1_h,
               txs_root = compute_txs_root x ts, bh_state_root = state_root x genesis_state,
               timestamp = time, anchor_outpoint = Some anchor, bh_producer = who,
               bh_fee_address = fee \<rparr>,
           txs = ts \<rparr>)"

section \<open>Block witnesses\<close>

record BlockWitness =
  bw_height :: u32
  prior_accounts_root :: H256
  pre_proofs :: "InclusionProof list"

definition touched_addresses :: "L2Tx list \<Rightarrow> L2Address option \<Rightarrow> L2Address list" where
  "touched_addresses ts fee_address =
     (let (set, has_transfer) =
            foldl (\<lambda>(set, has_transfer) tx.
                case tx of
                  Mint entry \<Rightarrow> (finsert (l2_destination (event entry)) set, has_transfer)
                | Transfer t \<Rightarrow> (finsert (tb_to (body t)) (finsert (tb_from (body t)) set), True))
              ({||}, False) ts;
          set = (if has_transfer
                 then (case fee_address of Some addr \<Rightarrow> finsert addr set | None \<Rightarrow> set)
                 else set)
      in sorted_list_of_fset set)"

definition BlockWitness_build :: "ext \<Rightarrow> LedgerState \<Rightarrow> L2Tx list \<Rightarrow> u32 \<Rightarrow> BlockWitness" where
  "BlockWitness_build x prior_state ts height =
     \<lparr> bw_height = height,
       prior_accounts_root = accounts_root x prior_state,
       pre_proofs = map (account_inclusion_proof x prior_state)
                      (touched_addresses ts (sequencer_fee_address prior_state)) \<rparr>"

section \<open>What the block hash binds\<close>

lemma outpoint_be_tagged:
  "(case a of Some p \<Rightarrow> [1] @ be_bytes 32 (txid p) @ be_bytes 4 (vout p) | None \<Rightarrow> [0]) = tagged outpoint_be a"
  by (cases a) (simp_all add: tagged_def outpoint_be_def)

lemma key_tagged: "(case a of Some p \<Rightarrow> [1] @ serialize p | None \<Rightarrow> [0]) = tagged serialize a"
  by (cases a) (simp_all add: tagged_def)

lemma header_preimage_inj: "header_preimage g = header_preimage h \<longleftrightarrow> g = h"
  unfolding header_preimage_def outpoint_be_tagged key_tagged
  by (auto simp: encode_inj)

lemma block_hash_binds:
  "block_hash x g = block_hash x h \<Longrightarrow>
     g = h \<or> collides (sha256 x) [header_preimage g, header_preimage h]"
  by (auto simp: block_hash_def collides_def header_preimage_inj)

definition body_preimages :: "ext \<Rightarrow> L2Tx list \<Rightarrow> bytes list" where
  "body_preimages x ts = txs_preimage x ts # concat (map (tx_preimages x) ts)"

lemma concat_hashes_eq:
  fixes f :: "L2Tx \<Rightarrow> H256"
  assumes "concat (map (\<lambda>t. be_bytes 32 (f t)) ss) = concat (map (\<lambda>t. be_bytes 32 (f t)) ts)"
  shows "map f ss = map f ts"
proof -
  have "be_bytes 32 (w :: H256) \<noteq> []" for w
    using length_be_bytes [of 32 w] by (metis list.size(3) zero_neq_numeral)
  then have "map f ss = map f ts"
    using assms hash_code.concat_code [of "map f ss" "map f ts"] by (simp add: comp_def)
  then show ?thesis .
qed

lemma txs_root_binds:
  assumes "compute_txs_root x ss = compute_txs_root x ts"
    and "list_all short_nullifier ss" and "list_all short_nullifier ts"
  shows "map erase_claim ss = map erase_claim ts \<or>
     collides (sha256 x) (body_preimages x ss @ body_preimages x ts)"
proof (rule disjCI)
  assume no: "\<not> collides (sha256 x) (body_preimages x ss @ body_preimages x ts)"
  have "txs_preimage x ss = txs_preimage x ts"
    using assms(1) by (intro not_collidesD [OF no]) (auto simp: body_preimages_def compute_txs_root_def)
  then have hashes: "map (tx_hash x) ss = map (tx_hash x) ts"
    by (intro concat_hashes_eq) (simp add: txs_preimage_def)
  then have len: "length ss = length ts" by (metis length_map)
  have "erase_claim (ss ! i) = erase_claim (ts ! i)" if i: "i < length ss" for i
  proof -
    have mem: "ss ! i \<in> set ss" "ts ! i \<in> set ts" using i len by auto
    have "tx_hash x (ss ! i) = tx_hash x (ts ! i)"
      using i len arg_cong [OF hashes, of "\<lambda>l. l ! i"] by simp
    moreover have "set (tx_preimages x (ss ! i) @ tx_preimages x (ts ! i))
        \<subseteq> set (body_preimages x ss @ body_preimages x ts)"
      using mem by (auto simp: body_preimages_def)
    ultimately show ?thesis
      using tx_hash_binds [of x "ss ! i" "ts ! i"] mem assms(2,3) no
      unfolding list_all_iff by (metis collides_mono)
  qed
  then show "map erase_claim ss = map erase_claim ts"
    using len by (intro nth_equalityI) auto
qed

lemma genesis_simps [simp]:
  "txs (genesis x b h t a p f) = []"
  "bh_height (header (genesis x b h t a p f)) = 0"
  "bh_state_root (header (genesis x b h t a p f)) = state_root x (genesis_ledger f)"
  "bh_fee_address (header (genesis x b h t a p f)) = f"
  "anchor_outpoint (header (genesis x b h t a p f)) = Some a"
  by (simp_all add: genesis_def genesis_ledger_def)

section \<open>What a block touches\<close>

definition touched :: "L2Address option \<Rightarrow> L2Tx list \<Rightarrow> L2Address set" where
  "touched fee ts = (\<Union>tx\<in>set ts. touches fee tx)"

definition is_transfer :: "L2Tx \<Rightarrow> bool" where
  "is_transfer tx = (case tx of Mint _ \<Rightarrow> False | Transfer _ \<Rightarrow> True)"

definition tx_addrs :: "L2Tx \<Rightarrow> L2Address list" where
  "tx_addrs tx = (case tx of Mint e \<Rightarrow> [l2_destination (event e)]
     | Transfer t \<Rightarrow> [tb_from (body t), tb_to (body t)])"

lemma touches_eq:
  "touches fee tx = set (tx_addrs tx) \<union> (if is_transfer tx then set_option fee else {})"
  by (cases tx) (auto simp: touches_def tx_addrs_def is_transfer_def)

lemma touched_fold:
  "foldl (\<lambda>(set, has_transfer) tx.
      case tx of
        Mint entry \<Rightarrow> (finsert (l2_destination (event entry)) set, has_transfer)
      | Transfer t \<Rightarrow> (finsert (tb_to (body t)) (finsert (tb_from (body t)) set), True)) (A, b) ts
   = (A |\<union>| fset_of_list (concat (map tx_addrs ts)), b \<or> list_ex is_transfer ts)"
proof (induction ts arbitrary: A b)
  case (Cons tx ts)
  then show ?case by (cases tx) (auto simp: is_transfer_def tx_addrs_def)
qed simp

lemma set_touched_addresses: "set (touched_addresses ts fee) = touched fee ts"
proof -
  have "touched fee ts = set (concat (map tx_addrs ts)) \<union> (if list_ex is_transfer ts then set_option fee else {})"
    unfolding touched_def touches_eq by (auto simp: list_ex_iff split: if_splits)
  then show ?thesis
    by (cases fee) (auto simp: touched_addresses_def touched_fold Let_def fset_of_list.rep_eq)
qed

lemma distinct_touched_addresses: "distinct (touched_addresses ts fee)"
  by (simp add: touched_addresses_def Let_def split: prod.split)

end
