(* ===== verification/Rpc.thy ===== *)
theory Rpc
  imports Block
begin

text \<open>\<open>hodl-core/src/rpc.rs\<close>: the messages between wallet, sequencer and node, and the
  sequencer's signed soft confirmation. The HTTP clients of the wallet
  (\<open>hodl-wallet/src/api.rs\<close>) are at the end: a service is the set of answers it gives, and
  the client chooses which service to ask.\<close>

record SubmitMintRequest =
  smr_proof :: MintProofEnvelope
  smr_destination :: L2Address

record SoftConf =
  sc_tx_hash :: H256
  target_l2_height :: u32
  accepted_at_unix :: u64
  sequencer_sig :: Signature

record SubmitMintResponse =
  mint_accepted :: bool
  mint_error :: "string option"
  mint_amount :: "Amount option"
  mint_nullifier :: "string option"
  mint_soft_conf :: "SoftConf option"

record SubmitTransferResponse =
  transfer_accepted :: bool
  transfer_error :: "string option"
  transfer_soft_conf :: "SoftConf option"

record HeadResponse =
  hr_height :: u32
  hr_block_hash :: H256
  hr_state_root :: H256
  hr_l1_height :: u32

record BalanceResponse =
  br_address :: L2Address
  br_balance :: Amount
  br_nonce :: u64
  br_effective_nonce :: u64
  br_l2_height :: u32
  br_state_root :: H256
  br_components :: StateComponents
  br_proof :: InclusionProof
  br_total_minted :: Amount

definition softconf_preimage :: "H256 \<Rightarrow> u32 \<Rightarrow> u64 \<Rightarrow> bytes" where
  "softconf_preimage h height t =
     bytes_of ''hodl-softconf-v1'' @ be_bytes 32 h @ be_bytes 4 height @ be_bytes 8 t"

definition softconf_sighash :: "ext \<Rightarrow> H256 \<Rightarrow> u32 \<Rightarrow> u64 \<Rightarrow> H256" where
  "softconf_sighash x h height t = sha256 x (softconf_preimage h height t)"

definition SoftConf_verify :: "ext \<Rightarrow> SoftConf \<Rightarrow> XOnlyPublicKey \<Rightarrow> bool" where
  "SoftConf_verify x s sequencer_pubkey =
     verify_schnorr x (sequencer_sig s)
       (softconf_sighash x (sc_tx_hash s) (target_l2_height s) (accepted_at_unix s)) sequencer_pubkey"

lemma softconf_preimage_inj:
  "softconf_preimage h k t = softconf_preimage g l u \<longleftrightarrow> h = g \<and> k = l \<and> t = u"
  by (auto simp: softconf_preimage_def encode_inj)

lemma softconf_binds:
  "softconf_sighash x h k t = softconf_sighash x g l u \<Longrightarrow> h = g \<and> k = l \<and> t = u \<or>
     collides (sha256 x) [softconf_preimage h k t, softconf_preimage g l u]"
  by (auto simp: softconf_sighash_def collides_def softconf_preimage_inj)

section \<open>The wallet's HTTP clients\<close>

datatype HttpError = HttpSend | HttpStatus nat | HttpDecode

record Service =
  srv_submit_mint :: "SubmitMintRequest \<Rightarrow> (HttpError, SubmitMintResponse) result"
  srv_submit_transfer :: "SignedTransfer \<Rightarrow> (HttpError, SubmitTransferResponse) result"
  srv_block :: "u32 \<Rightarrow> (HttpError, L2Block) result"
  srv_head :: "(HttpError, HeadResponse) result"
  srv_balance :: "L2Address \<Rightarrow> (HttpError, BalanceResponse) result"
  srv_witness :: "u32 \<Rightarrow> (HttpError, BlockWitness) result"
  srv_nullifiers :: "(HttpError, string list) result"

record ApiClient =
  sequencer_url :: Service
  node_url :: "Service option"

definition api_base :: "ApiClient \<Rightarrow> Service" where
  "api_base c = (case node_url c of Some n \<Rightarrow> n | None \<Rightarrow> sequencer_url c)"

definition api_submit_mint ::
    "ApiClient \<Rightarrow> MintProofEnvelope \<Rightarrow> L2Address \<Rightarrow> (HttpError, SubmitMintResponse) result" where
  "api_submit_mint c pf dest =
     srv_submit_mint (sequencer_url c) \<lparr> smr_proof = pf, smr_destination = dest \<rparr>"

definition api_submit_transfer ::
    "ApiClient \<Rightarrow> SignedTransfer \<Rightarrow> (HttpError, SubmitTransferResponse) result" where
  "api_submit_transfer c t = srv_submit_transfer (sequencer_url c) t"

definition api_get_block :: "ApiClient \<Rightarrow> u32 \<Rightarrow> (HttpError, L2Block) result" where
  "api_get_block c height = srv_block (api_base c) height"

definition api_sequencer_head :: "ApiClient \<Rightarrow> (HttpError, HeadResponse) result" where
  "api_sequencer_head c = srv_head (sequencer_url c)"

definition api_balance :: "ApiClient \<Rightarrow> L2Address \<Rightarrow> (HttpError, BalanceResponse) result" where
  "api_balance c addr = srv_balance (api_base c) addr"

definition api_balance_via_sequencer :: "ApiClient \<Rightarrow> L2Address \<Rightarrow> (HttpError, BalanceResponse) result" where
  "api_balance_via_sequencer c addr = srv_balance (sequencer_url c) addr"

definition api_get_witness :: "ApiClient \<Rightarrow> u32 \<Rightarrow> (HttpError, BlockWitness) result" where
  "api_get_witness c height = srv_witness (api_base c) height"

definition api_get_nullifiers :: "ApiClient \<Rightarrow> (HttpError, string list) result" where
  "api_get_nullifiers c = srv_nullifiers (api_base c)"

end
