(* ===== verification/OpReturn.thy ===== *)
theory OpReturn
  imports Consensus L1
begin

text \<open>\<open>hodl-core/src/op_return.rs\<close>: the 73-byte attestation payload and its \<open>OP_RETURN\<close>
  script. Array slicing is \<open>take\<close>/\<open>drop\<close> at the source's offsets.\<close>

record Attestation =
  att_version :: u8
  att_height :: u32
  att_block_hash :: H256
  att_state_root :: H256

datatype AttestationError = BadLength nat | BadMagic | BadVersion u8 | NotOpReturn

definition Attestation_new :: "u32 \<Rightarrow> H256 \<Rightarrow> H256 \<Rightarrow> Attestation" where
  "Attestation_new height l2_block_hash state_root =
     \<lparr> att_version = ATTESTATION_VERSION, att_height = height,
       att_block_hash = l2_block_hash, att_state_root = state_root \<rparr>"

definition attestation_encode :: "Attestation \<Rightarrow> bytes" where
  "attestation_encode a =
     MAGIC @ [att_version a] @ be_bytes 4 (att_height a)
       @ be_bytes 32 (att_block_hash a) @ be_bytes 32 (att_state_root a)"

definition slice :: "nat \<Rightarrow> nat \<Rightarrow> 'a list \<Rightarrow> 'a list" where
  "slice i j xs = take (j - i) (drop i xs)"

definition attestation_decode :: "bytes \<Rightarrow> (AttestationError, Attestation) result" where
  "attestation_decode bs =
     (if length bs \<noteq> ATTESTATION_LEN then Inl (BadLength (length bs))
      else if slice 0 4 bs \<noteq> MAGIC then Inl BadMagic
      else let version = bs ! 4
           in if version \<noteq> ATTESTATION_VERSION then Inl (BadVersion version)
              else Inr \<lparr> att_version = version, att_height = from_be (slice 5 9 bs),
                         att_block_hash = from_be (slice 9 41 bs),
                         att_state_root = from_be (slice 41 73 bs) \<rparr>)"

definition attestation_to_script :: "ext \<Rightarrow> Attestation \<Rightarrow> Script" where
  "attestation_to_script x a = OP_RETURN # push_slice x (attestation_encode a)"

definition try_from_script :: "ext \<Rightarrow> Script \<Rightarrow> (AttestationError, Attestation option) result" where
  "try_from_script x spk =
     (case spk of
        [] \<Rightarrow> Inl NotOpReturn
      | b # _ \<Rightarrow>
          if b \<noteq> OP_RETURN then Inl NotOpReturn
          else (case drop 1 (instructions x spk) of
                  Some (PushBytes p) # _ \<Rightarrow>
                    (case attestation_decode p of
                       Inr a \<Rightarrow> Inr (Some a)
                     | Inl BadMagic \<Rightarrow> Inr None
                     | Inl (BadLength _) \<Rightarrow> Inr None
                     | Inl e \<Rightarrow> Inl e)
                | _ \<Rightarrow> Inr None))"

section \<open>Round trips\<close>

unbundle bit_operations_syntax

lemma from_be_word32: "length bs = n \<Longrightarrow> 8 * n \<le> LENGTH('a::len) \<Longrightarrow> be_bytes n (from_be bs :: 'a word) = bs"
proof (induction bs arbitrary: n rule: rev_induct)
  case Nil
  then show ?case by (simp add: be_bytes_def)
next
  case (snoc b bs)
  then obtain m where n: "n = Suc m" "length bs = m" "8 * m \<le> LENGTH('a)" "8 * Suc m \<le> LENGTH('a)"
    by (cases n) auto
  have IH: "be_bytes m (from_be bs :: 'a word) = bs" using snoc.IH n by blast
  have tb: "take_bit (8 * m) (from_be bs :: 'a word) = from_be bs"
    using IH from_be_be_bytes_take [of m "from_be bs :: 'a word"] by simp
  have add: "push_bit 8 (from_be bs :: 'a word) + ucast b = push_bit 8 (from_be bs) OR ucast b"
    by (rule disjunctive_add) (auto simp: bit_simps dest: bit_imp_le_length)
  have lo: "(ucast (from_be (bs @ [b]) :: 'a word) :: u8) = b"
    by (rule bit_word_eqI) (use n in \<open>auto simp: from_be_snoc add bit_simps\<close>)
  have "drop_bit 8 (from_be (bs @ [b]) :: 'a word) = from_be bs"
  proof (rule bit_word_eqI)
    fix k assume k: "k < LENGTH('a)"
    have "bit (from_be bs :: 'a word) k \<Longrightarrow> k < 8 * m"
      using arg_cong [OF tb, of "\<lambda>w. bit w k"] by (auto simp: bit_simps)
    then show "bit (drop_bit 8 (from_be (bs @ [b]) :: 'a word)) k = bit (from_be bs :: 'a word) k"
      using n(4) by (auto simp: from_be_snoc add bit_simps dest: bit_imp_le_length)
  qed
  then show ?case using n(1) IH lo by (simp add: be_bytes_snoc)
qed

lemma length_attestation_encode [simp]: "length (attestation_encode a) = ATTESTATION_LEN"
  by (simp add: attestation_encode_def ATTESTATION_LEN_def MAGIC_def)

lemma attestation_fields:
  "slice 0 4 (attestation_encode a) = MAGIC"
  "attestation_encode a ! 4 = att_version a"
  "slice 5 9 (attestation_encode a) = be_bytes 4 (att_height a)"
  "slice 9 41 (attestation_encode a) = be_bytes 32 (att_block_hash a)"
  "slice 41 73 (attestation_encode a) = be_bytes 32 (att_state_root a)"
  by (simp_all add: slice_def attestation_encode_def MAGIC_def)

lemma attestation_decode_encode:
  "attestation_decode (attestation_encode a) =
     (if att_version a = ATTESTATION_VERSION then Inr a else Inl (BadVersion (att_version a)))"
  by (simp add: attestation_decode_def attestation_fields)

lemma attestation_slices:
  assumes "length bs = 73"
  shows "bs = slice 0 4 bs @ [bs ! 4] @ slice 5 9 bs @ slice 9 41 bs @ slice 41 73 bs"
proof -
  have "bs = take 4 bs @ take 1 (drop 4 bs) @ take 4 (drop 5 bs) @ take 32 (drop 9 bs) @ drop 41 bs"
    using append_take_drop_id [of 4 bs] append_take_drop_id [of 1 "drop 4 bs"]
      append_take_drop_id [of 4 "drop 5 bs"] append_take_drop_id [of 32 "drop 9 bs"] by simp
  moreover have "take 1 (drop 4 bs) = [bs ! 4]"
    using assms by (simp add: take_Suc_conv_app_nth)
  ultimately show ?thesis using assms by (simp add: slice_def)
qed

lemma attestation_encode_decode:
  assumes "attestation_decode bs = Inr a"
  shows "attestation_encode a = bs" and "att_version a = ATTESTATION_VERSION"
proof -
  have bs: "length bs = 73" "slice 0 4 bs = MAGIC" "bs ! 4 = ATTESTATION_VERSION"
    and a: "a = \<lparr> att_version = bs ! 4, att_height = from_be (slice 5 9 bs),
        att_block_hash = from_be (slice 9 41 bs), att_state_root = from_be (slice 41 73 bs) \<rparr>"
    using assms by (auto simp: attestation_decode_def ATTESTATION_LEN_def Let_def split: if_splits)
  have len: "length (slice 5 9 bs) = 4" "length (slice 9 41 bs) = 32" "length (slice 41 73 bs) = 32"
    using bs(1) by (simp_all add: slice_def)
  show "att_version a = ATTESTATION_VERSION" using a bs(3) by simp
  show "attestation_encode a = bs"
    using attestation_slices [OF bs(1)] bs(2) len by (simp add: a attestation_encode_def from_be_word32)
qed

text \<open>What the script form relies on: a push of at most 75 bytes reads back as that push.\<close>

definition push_ok :: "ext \<Rightarrow> bool" where
  "push_ok x \<longleftrightarrow> (\<forall>bs. length bs = ATTESTATION_LEN \<longrightarrow>
     (\<exists>i rest. instructions x (OP_RETURN # push_slice x bs) = i # Some (PushBytes bs) # rest))"

lemma try_from_script_to_script:
  "push_ok x \<Longrightarrow> att_version a = ATTESTATION_VERSION \<Longrightarrow>
     try_from_script x (attestation_to_script x a) = Inr (Some a)"
  unfolding push_ok_def
  by (drule spec [of _ "attestation_encode a"])
    (auto simp: try_from_script_def attestation_to_script_def attestation_decode_encode)

lemma try_from_script_Some:
  "try_from_script x spk = Inr (Some a) \<Longrightarrow>
     (\<exists>i rest. instructions x spk = i # Some (PushBytes (attestation_encode a)) # rest) \<and>
     att_version a = ATTESTATION_VERSION"
  by (auto simp: try_from_script_def drop_Suc neq_Nil_conv tl_def attestation_encode_decode
      split: list.splits option.splits Instruction.splits sum.splits AttestationError.splits if_splits)

lemma push_ok_toy: "push_ok toy_ext"
  by (auto simp: push_ok_def toy_ext_def ATTESTATION_LEN_def OP_RETURN_def split: list.split)

end
