(* ===== verification/Esplora.thy ===== *)
theory Esplora
  imports Rpc OpReturn
begin

text \<open>\<open>hodl-wallet/src/esplora.rs\<close>: the wallet's view of L1 through an Esplora endpoint, and
  the walk along the attestation chain. The endpoint is the set of its answers at the
  time of the walk. The loop of \<open>walk_attestation_chain\<close> ends when it meets an unspent
  anchor; an endpoint that lies about spends can keep it going forever, so the loop is a
  partial function, and a run that does not end is the value \<open>None\<close>.\<close>

record EsploraVout =
  scriptpubkey :: string
  vout_value :: u64

record EsploraTx =
  et_vout :: "EsploraVout list"
  et_block_height :: "u32 option"

record Outspend =
  spent :: bool
  os_txid :: "string option"
  os_block_height :: "u32 option"

record AddressUtxo =
  au_txid :: Txid
  au_vout :: u32
  au_value :: u64
  au_block_height :: "u32 option"

record EsploraClient =
  get_tx :: "Txid \<Rightarrow> (HttpError, EsploraTx) result"
  get_outspend :: "Txid \<Rightarrow> u32 \<Rightarrow> (HttpError, Outspend) result"
  tx_exists :: "Txid \<Rightarrow> (HttpError, bool) result"
  es_tip_height :: "(HttpError, u32) result"
  address_utxos :: "string \<Rightarrow> (HttpError, AddressUtxo list) result"

record ChainStep =
  cs_attestation :: Attestation
  cs_l1_height :: u32
  new_anchor :: OutPoint

datatype WalkError =
    WalkHttp HttpError
  | AnchorMissing Txid
  | SpentWithoutTxid
  | BadSpenderTxid string
  | SpentWithoutHeight
  | TooFewOutputs nat
  | BadScriptHex
  | BadOpReturn AttestationError
  | NotAttestation

text \<open>One round of the loop: \<open>None\<close> at the end of the chain, the next step otherwise.\<close>

definition walk_step :: "ext \<Rightarrow> EsploraClient \<Rightarrow> OutPoint \<Rightarrow> (WalkError, ChainStep option) result" where
  "walk_step x esplora current =
     rbind (map_err WalkHttp (get_outspend esplora (txid current) (vout current))) (\<lambda>outspend.
     if \<not> spent outspend then Inr None
     else
       rbind (ok_or (os_txid outspend) SpentWithoutTxid) (\<lambda>spender_txid_str.
       rbind (ok_or (txid_from_str x spender_txid_str) (BadSpenderTxid spender_txid_str)) (\<lambda>spender_txid.
       rbind (ok_or (os_block_height outspend) SpentWithoutHeight) (\<lambda>height.
       rbind (map_err WalkHttp (get_tx esplora spender_txid)) (\<lambda>tx.
       if length (et_vout tx) < 2 then Inl (TooFewOutputs (length (et_vout tx)))
       else
         rbind (ok_or (hex_decode x (scriptpubkey (et_vout tx ! 0))) BadScriptHex) (\<lambda>spk.
         rbind (map_err BadOpReturn (try_from_script x spk)) (\<lambda>parsed.
         rbind (ok_or parsed NotAttestation) (\<lambda>attestation.
         Inr (Some \<lparr> cs_attestation = attestation, cs_l1_height = height,
                     new_anchor = OutPoint spender_txid 1 \<rparr>)))))))))"

partial_function (option) walk_loop ::
    "ext \<Rightarrow> EsploraClient \<Rightarrow> OutPoint \<Rightarrow> ChainStep list \<Rightarrow> (WalkError, ChainStep list) result option" where
  "walk_loop x esplora current steps =
     (case walk_step x esplora current of
        Inl e \<Rightarrow> Some (Inl e)
      | Inr None \<Rightarrow> Some (Inr steps)
      | Inr (Some step) \<Rightarrow> walk_loop x esplora (new_anchor step) (steps @ [step]))"

definition walk_attestation_chain ::
    "ext \<Rightarrow> EsploraClient \<Rightarrow> OutPoint \<Rightarrow> (WalkError, ChainStep list) result option" where
  "walk_attestation_chain x esplora anchor_0 =
     (case map_err WalkHttp (tx_exists esplora (txid anchor_0)) of
        Inl e \<Rightarrow> Some (Inl e)
      | Inr b \<Rightarrow> if \<not> b then Some (Inl (AnchorMissing (txid anchor_0)))
                 else walk_loop x esplora anchor_0 [])"

section \<open>The walk finds the chain\<close>

text \<open>A finite attestation chain on L1, as the endpoint shows it.\<close>

inductive attestation_chain :: "ext \<Rightarrow> EsploraClient \<Rightarrow> OutPoint \<Rightarrow> ChainStep list \<Rightarrow> bool"
  for x esplora where
  chain_tip: "walk_step x esplora p = Inr None \<Longrightarrow> attestation_chain x esplora p []"
| chain_link: "walk_step x esplora p = Inr (Some step) \<Longrightarrow>
    attestation_chain x esplora (new_anchor step) steps \<Longrightarrow>
    attestation_chain x esplora p (step # steps)"

inductive_cases attestation_chainE [elim]:
  "attestation_chain x esplora p []" "attestation_chain x esplora p (s # ss)"

lemma walk_loop_chain:
  "attestation_chain x esplora p steps \<Longrightarrow> walk_loop x esplora p acc = Some (Inr (acc @ steps))"
  by (induction arbitrary: acc rule: attestation_chain.induct)
    (subst walk_loop.simps; simp)+

lemma walk_loop_sound:
  assumes "walk_loop x esplora p acc = Some (Inr out)"
  shows "\<exists>steps. out = acc @ steps \<and> attestation_chain x esplora p steps"
proof -
  define P where "P x esplora p acc r \<longleftrightarrow> (\<forall>out. r = Inr out \<longrightarrow>
      (\<exists>steps. out = acc @ steps \<and> attestation_chain x esplora p steps))"
    for x :: ext and esplora p acc and r :: "(WalkError, ChainStep list) result"
  have "P x esplora p acc (Inr out)"
  proof (rule walk_loop.raw_induct [where P = P and xa = "(((x, esplora), p), acc)", unfolded prod.case])
    fix walk and x :: ext and es p acc r
    assume IH: "\<And>x es p acc r. walk x es p acc = Some r \<Longrightarrow> P x es p acc r"
      and body: "(case walk_step x es p of Inl e \<Rightarrow> Some (Inl e) | Inr None \<Rightarrow> Some (Inr acc)
         | Inr (Some step) \<Rightarrow> walk x es (new_anchor step) (acc @ [step])) = Some r"
    show "P x es p acc r"
    proof (cases "walk_step x es p")
      case (Inr s)
      show ?thesis
      proof (cases s)
        case None
        with Inr body show ?thesis by (auto simp: P_def intro: chain_tip)
      next
        case (Some step)
        with Inr body have "P x es (new_anchor step) (acc @ [step]) r" by (intro IH) simp
        with Inr Some show ?thesis by (fastforce simp: P_def intro: chain_link)
      qed
    qed (use body in \<open>auto simp: P_def\<close>)
  qed (rule assms)
  then show ?thesis by (simp add: P_def)
qed

lemma walk_loop_iff:
  "walk_loop x esplora p [] = Some (Inr steps) \<longleftrightarrow> attestation_chain x esplora p steps"
  using walk_loop_chain [of x esplora p steps "[]"] walk_loop_sound [of x esplora p "[]" steps] by auto

lemma walk_attestation_chain_eq:
  "walk_attestation_chain x esplora p = Some (Inr steps) \<longleftrightarrow>
     tx_exists esplora (txid p) = Inr True \<and> attestation_chain x esplora p steps"
  by (auto simp: walk_attestation_chain_def walk_loop_iff split: sum.splits)

lemma attestation_chain_fun:
  "attestation_chain x esplora p ss \<Longrightarrow> attestation_chain x esplora p ts \<Longrightarrow> ss = ts"
  using walk_loop_iff by (metis option.inject sum.inject(2))

end
