(* ===== verification/LightClient.thy ===== *)
theory LightClient
  imports Esplora
begin

text \<open>\<open>hodl-wallet/src/verify.rs\<close>: the light client. It keeps a verified head (its own leaf and
  path in the account tree, the consumed nullifiers and the anchor to watch), and extends
  it block by block from block bodies and witnesses that an untrusted server returns.\<close>

record VerifiedHead =
  vh_state_root :: H256
  vh_accounts_root :: H256
  vh_l2_height :: u32
  vh_block_hash :: H256
  vh_l1_height :: u32
  vh_anchor :: OutPoint
  vh_own_address :: XOnlyPublicKey
  vh_own_leaf :: LeafKind
  vh_own_path :: "H256 list"
  vh_nullifiers :: "string fset"
  vh_total_minted :: u64
  vh_fee_address :: "XOnlyPublicKey option"

datatype ObservedTxKind =
    TransferIn L2Address Amount string
  | TransferOut L2Address Amount string
  | MintIn Amount string

record TxEvent =
  te_l2_height :: u32
  te_l1_height :: u32
  te_block_ts :: u64
  te_kind :: ObservedTxKind

datatype VerifyError =
    ApiError HttpError
  | NoAnchor
  | Walk WalkError
  | NodeStateRoot H256 H256
  | NodeHeight u32 u32
  | WrongAddress
  | ComponentsMismatch H256 H256
  | InclusionInvalid
  | LeafDisagrees
  | NullifiersInconsistent H256 H256
  | HeightMismatch u32 u32
  | EndHash H256 H256
  | EndStateRoot H256 H256
  | TxsRootMismatch H256 H256
  | PrevHashMismatch H256 H256
  | WitnessHeight u32 u32
  | WitnessPriorRoot H256 H256
  | TouchedSet nat nat
  | FetchL1 HttpError
  | VoutMissing
  | Unconfirmed
  | SpkHex
  | MintInvalid nat MintError
  | ApplyFailed nat ApplyError
  | SparseUpdate SparseUpdateError
  | StateRootMismatch H256 H256
  | ObserverRefresh SparseUpdateError
  | ObserverInvalid

section \<open>Cold start\<close>

definition check_leaf :: "BalanceResponse \<Rightarrow> (VerifyError, unit) result" where
  "check_leaf bal =
     (case ip_leaf (br_proof bal) of
        LeafAccount balance nonce \<Rightarrow>
          if balance \<noteq> br_balance bal \<or> nonce \<noteq> br_nonce bal then Inl LeafDisagrees else Inr ()
      | LeafEmpty \<Rightarrow>
          if br_balance bal \<noteq> 0 \<or> br_nonce bal \<noteq> 0 then Inl LeafDisagrees else Inr ())"

definition bootstrap_from ::
    "ext \<Rightarrow> ApiClient \<Rightarrow> L2Address \<Rightarrow> L2Block \<Rightarrow> OutPoint \<Rightarrow> ChainStep list \<Rightarrow>
     (VerifyError, VerifiedHead) result" where
  "bootstrap_from x api own_address gen anchor_0 chain =
     (let (l1_state_root, l2_h, bhash, l1_h, anchor) =
            (if chain = [] then
               (bh_state_root (header gen), 0, L2Block_hash x gen, l1_height (header gen), anchor_0)
             else
               (att_state_root (cs_attestation (last chain)), att_height (cs_attestation (last chain)),
                att_block_hash (cs_attestation (last chain)), cs_l1_height (last chain),
                new_anchor (last chain)))
      in rbind (map_err ApiError (api_balance api own_address)) (\<lambda>bal.
         if br_state_root bal \<noteq> l1_state_root then Inl (NodeStateRoot (br_state_root bal) l1_state_root)
         else if br_l2_height bal \<noteq> l2_h then Inl (NodeHeight (br_l2_height bal) l2_h)
         else if br_address bal \<noteq> own_address then Inl WrongAddress
         else
           let components_root = components_state_root x (br_components bal)
           in if components_root \<noteq> br_state_root bal
              then Inl (ComponentsMismatch components_root (br_state_root bal))
              else if \<not> InclusionProof_verify x (br_proof bal) (sc_accounts_root (br_components bal))
              then Inl InclusionInvalid
              else
                rbind (check_leaf bal) (\<lambda>_.
                rbind (map_err ApiError (api_get_nullifiers api)) (\<lambda>nullifiers_vec.
                  let consumed = fset_of_list nullifiers_vec;
                      derived_nf_hash = nullifiers_hash_of x consumed
                  in if derived_nf_hash \<noteq> sc_nullifiers_hash (br_components bal)
                     then Inl (NullifiersInconsistent derived_nf_hash (sc_nullifiers_hash (br_components bal)))
                     else Inr \<lparr> vh_state_root = br_state_root bal,
                                vh_accounts_root = sc_accounts_root (br_components bal),
                                vh_l2_height = l2_h, vh_block_hash = bhash, vh_l1_height = l1_h,
                                vh_anchor = anchor, vh_own_address = own_address,
                                vh_own_leaf = ip_leaf (br_proof bal),
                                vh_own_path = ip_siblings (br_proof bal),
                                vh_nullifiers = consumed,
                                vh_total_minted = br_total_minted bal,
                                vh_fee_address = sc_fee_address (br_components bal) \<rparr>))))"

text \<open>\<open>None\<close> is the walk that does not end.\<close>

definition bootstrap ::
    "ext \<Rightarrow> ApiClient \<Rightarrow> EsploraClient \<Rightarrow> L2Address \<Rightarrow> (VerifyError, VerifiedHead) result option" where
  "bootstrap x api esplora own_address =
     (case rbind (map_err ApiError (api_get_block api 0)) (\<lambda>gen.
             rbind (ok_or (anchor_outpoint (header gen)) NoAnchor) (\<lambda>a. Inr (gen, a))) of
        Inl e \<Rightarrow> Some (Inl e)
      | Inr (gen, anchor_0) \<Rightarrow>
          (case walk_attestation_chain x esplora anchor_0 of
             None \<Rightarrow> None
           | Some walked \<Rightarrow>
               Some (rbind (map_err Walk walked) (bootstrap_from x api own_address gen anchor_0))))"

section \<open>One block\<close>

definition prefetch_entry ::
    "ext \<Rightarrow> EsploraClient \<Rightarrow> u32 \<Rightarrow> L2Tx \<Rightarrow> (OutPoint \<rightharpoonup> L1Output) \<Rightarrow>
     (VerifyError, OutPoint \<rightharpoonup> L1Output) result" where
  "prefetch_entry x esplora tip tx outputs =
     (case tx of
        Transfer _ \<Rightarrow> Inr outputs
      | Mint entry \<Rightarrow>
          (let p = pf_outpoint (v0_proof (witness entry))
           in if outputs p \<noteq> None then Inr outputs
              else
                rbind (map_err FetchL1 (get_tx esplora (txid p))) (\<lambda>info.
                rbind (ok_or (if unat (vout p) < length (et_vout info)
                              then Some (et_vout info ! unat (vout p)) else None) VoutMissing) (\<lambda>out.
                rbind (ok_or (et_block_height info) Unconfirmed) (\<lambda>height.
                  let confs = sat_add (sat_sub tip height) 1
                  in rbind (ok_or (hex_decode x (scriptpubkey out)) SpkHex) (\<lambda>spk.
                     Inr (outputs(p \<mapsto> \<lparr> value_sat = vout_value out, script_pubkey = spk,
                                        confirmed_height = height, confirmations = confs \<rparr>))))))))"

definition prefetch_l1_for_block ::
    "ext \<Rightarrow> EsploraClient \<Rightarrow> L2Block \<Rightarrow> u32 \<Rightarrow> (VerifyError, L1View) result" where
  "prefetch_l1_for_block x esplora block tip =
     rbind (rfold (prefetch_entry x esplora tip) (txs block) Map.empty) (\<lambda>outputs.
       Inr \<lparr> get_output = outputs, tip_height = tip \<rparr>)"

definition check_structure ::
    "ext \<Rightarrow> VerifiedHead \<Rightarrow> u32 \<Rightarrow> Attestation option \<Rightarrow> L2Block \<Rightarrow> BlockWitness \<Rightarrow>
     (VerifyError, unit) result" where
  "check_structure x head height end_attestation block w =
     (if bh_height (header block) \<noteq> height then Inl (HeightMismatch (bh_height (header block)) height)
      else
        rbind (case end_attestation of
                 None \<Rightarrow> Inr ()
               | Some att \<Rightarrow>
                   if L2Block_hash x block \<noteq> att_block_hash att
                   then Inl (EndHash (L2Block_hash x block) (att_block_hash att))
                   else if bh_state_root (header block) \<noteq> att_state_root att
                   then Inl (EndStateRoot (bh_state_root (header block)) (att_state_root att))
                   else Inr ()) (\<lambda>_.
        if compute_txs_root x (txs block) \<noteq> txs_root (header block)
        then Inl (TxsRootMismatch (compute_txs_root x (txs block)) (txs_root (header block)))
        else if prev_hash (header block) \<noteq> vh_block_hash head
        then Inl (PrevHashMismatch (prev_hash (header block)) (vh_block_hash head))
        else if bw_height w \<noteq> height then Inl (WitnessHeight (bw_height w) height)
        else if prior_accounts_root w \<noteq> vh_accounts_root head
        then Inl (WitnessPriorRoot (prior_accounts_root w) (vh_accounts_root head))
        else
          let expected = touched_addresses (txs block) (vh_fee_address head);
              got = sort (map ip_address (pre_proofs w))
          in if expected \<noteq> got then Inl (TouchedSet (length got) (length expected)) else Inr ()))"

definition verify_mints :: "ext \<Rightarrow> L1View \<Rightarrow> L2Tx list \<Rightarrow> (VerifyError, unit) result" where
  "verify_mints x l1 ts =
     rall (\<lambda>(i, tx). case tx of
             Mint entry \<Rightarrow> map_err (MintInvalid i) (verify_mint_entry x l1 entry)
           | Transfer _ \<Rightarrow> Inr ()) (enumerate 0 ts)"

definition sparse_ledger :: "VerifiedHead \<Rightarrow> InclusionProof list \<Rightarrow> LedgerState" where
  "sparse_ledger head proofs =
     (foldl (\<lambda>S p. case ip_leaf p of
               LeafAccount balance nonce \<Rightarrow>
                 S\<lparr>accounts := fmupd (ip_address p) \<lparr> acc_balance = balance, acc_nonce = nonce \<rparr> (accounts S)\<rparr>
             | LeafEmpty \<Rightarrow> S) LedgerState_new proofs)
       \<lparr>consumed_nullifiers := vh_nullifiers head, total_minted_atoms := vh_total_minted head,
        sequencer_fee_address := vh_fee_address head\<rparr>"

definition replay :: "ext \<Rightarrow> L2Tx list \<Rightarrow> LedgerState \<Rightarrow> (VerifyError, LedgerState) result" where
  "replay x ts S = rfold (\<lambda>(i, tx) S. map_err (ApplyFailed i) (apply_tx x tx S)) (enumerate 0 ts) S"

definition tx_events :: "ext \<Rightarrow> L2Address \<Rightarrow> u32 \<Rightarrow> L2BlockHeader \<Rightarrow> L2Tx \<Rightarrow> TxEvent list" where
  "tx_events x own height h tx =
     (let mk = (\<lambda>k. \<lparr> te_l2_height = height, te_l1_height = l1_height h, te_block_ts = timestamp h,
                      te_kind = k \<rparr>)
      in case tx of
           Mint entry \<Rightarrow>
             if l2_destination (event entry) = own
             then [mk (MintIn (ev_amount (event entry)) (nullifier_hex (event entry)))] else []
         | Transfer t \<Rightarrow>
             let sighash_hex = hex_encode x (be_bytes 32 (transfer_sighash x (body t)))
             in (if tb_to (body t) = own
                 then [mk (TransferIn (tb_from (body t)) (tb_amount (body t)) sighash_hex)] else [])
                @ (if tb_from (body t) = own
                   then [mk (TransferOut (tb_to (body t)) (tb_amount (body t)) sighash_hex)] else []))"

definition updates_of :: "LedgerState \<Rightarrow> InclusionProof list \<Rightarrow> Update list" where
  "updates_of sparse proofs =
     map (\<lambda>p. \<lparr> pre_proof = p,
                post_state = (case fmlookup (accounts sparse) (ip_address p) of
                                Some a \<Rightarrow> LeafAccount (acc_balance a) (acc_nonce a)
                              | None \<Rightarrow> LeafEmpty) \<rparr>) proofs"

definition finish_block ::
    "ext \<Rightarrow> VerifiedHead \<Rightarrow> u32 \<Rightarrow> L2Block \<Rightarrow> BlockWitness \<Rightarrow> LedgerState \<Rightarrow>
     (VerifyError, VerifiedHead) result" where
  "finish_block x head height block w sparse =
     (let updates = updates_of sparse (pre_proofs w)
      in rbind (if updates = [] then Inr (vh_accounts_root head)
                else map_err SparseUpdate (apply_updates x updates (vh_accounts_root head))) (\<lambda>new_accounts_root.
         let new_components = \<lparr> sc_accounts_root = new_accounts_root,
               sc_nullifiers_hash = nullifiers_hash x sparse,
               sc_fee_address = sequencer_fee_address sparse \<rparr>;
             new_state_root = components_state_root x new_components
         in if new_state_root \<noteq> bh_state_root (header block)
            then Inl (StateRootMismatch new_state_root (bh_state_root (header block)))
            else
              let observer_pre = \<lparr> ip_address = vh_own_address head, ip_leaf = vh_own_leaf head,
                    ip_siblings = vh_own_path head \<rparr>
              in rbind (if updates = [] then Inr observer_pre
                        else map_err ObserverRefresh
                               (refresh_observer x observer_pre updates (vh_accounts_root head))) (\<lambda>observer_post.
                 if \<not> InclusionProof_verify x observer_post new_accounts_root then Inl ObserverInvalid
                 else Inr \<lparr> vh_state_root = new_state_root, vh_accounts_root = new_accounts_root,
                            vh_l2_height = height, vh_block_hash = L2Block_hash x block,
                            vh_l1_height = l1_height (header block), vh_anchor = vh_anchor head,
                            vh_own_address = vh_own_address head,
                            vh_own_leaf = ip_leaf observer_post,
                            vh_own_path = ip_siblings observer_post,
                            vh_nullifiers = consumed_nullifiers sparse,
                            vh_total_minted = total_minted_atoms sparse,
                            vh_fee_address = sequencer_fee_address sparse \<rparr>)))"

definition verify_one_l2_block ::
    "ext \<Rightarrow> VerifiedHead \<Rightarrow> u32 \<Rightarrow> Attestation option \<Rightarrow> u32 \<Rightarrow> ApiClient \<Rightarrow> EsploraClient \<Rightarrow>
     TxEvent list \<Rightarrow> (VerifyError, VerifiedHead \<times> TxEvent list) result" where
  "verify_one_l2_block x head height end_attestation l1_tip api esplora events =
     rbind (map_err ApiError (api_get_block api height)) (\<lambda>block.
     rbind (map_err ApiError (api_get_witness api height)) (\<lambda>w.
     rbind (check_structure x head height end_attestation block w) (\<lambda>_.
     rbind (prefetch_l1_for_block x esplora block l1_tip) (\<lambda>l1_view.
     rbind (verify_mints x l1_view (txs block)) (\<lambda>_.
     rbind (replay x (txs block) (sparse_ledger head (pre_proofs w))) (\<lambda>sparse.
     let events' = events @ concat (map (tx_events x (vh_own_address head) height (header block)) (txs block))
     in rbind (finish_block x head height block w sparse) (\<lambda>head'. Inr (head', events'))))))))"

section \<open>Walking forward\<close>

definition walk_one_step ::
    "ext \<Rightarrow> ApiClient \<Rightarrow> EsploraClient \<Rightarrow> u32 \<Rightarrow> ChainStep \<Rightarrow> VerifiedHead \<times> nat \<times> TxEvent list \<Rightarrow>
     (VerifyError, VerifiedHead \<times> nat \<times> TxEvent list) result" where
  "walk_one_step x api esplora tip step = (\<lambda>(head, count, events).
     let target = att_height (cs_attestation step)
     in if target \<le> vh_l2_height head then Inr (head\<lparr>vh_anchor := new_anchor step\<rparr>, count, events)
        else
          rbind (rfold (\<lambda>h (head, count, events).
              let end_att = (if h = target then Some (cs_attestation step) else None)
              in rbind (verify_one_l2_block x head h end_att tip api esplora events) (\<lambda>(head, events).
                 Inr (head, count + 1, events)))
            (heights (vh_l2_height head + 1) target) (head, count, events)) (\<lambda>(head, count, events).
          Inr (head\<lparr>vh_anchor := new_anchor step, vh_l1_height := cs_l1_height step\<rparr>, count, events)))"

definition walk_forward_from ::
    "ext \<Rightarrow> VerifiedHead \<Rightarrow> ApiClient \<Rightarrow> EsploraClient \<Rightarrow> ChainStep list \<Rightarrow>
     (VerifyError, VerifiedHead \<times> nat \<times> TxEvent list) result" where
  "walk_forward_from x head api esplora chain =
     (if chain = [] then Inr (head, 0, [])
      else rbind (map_err ApiError (es_tip_height esplora)) (\<lambda>tip.
           rfold (walk_one_step x api esplora tip) chain (head, 0, [])))"

definition walk_forward ::
    "ext \<Rightarrow> VerifiedHead \<Rightarrow> ApiClient \<Rightarrow> EsploraClient \<Rightarrow>
     (VerifyError, VerifiedHead \<times> nat \<times> TxEvent list) result option" where
  "walk_forward x head api esplora =
     (case walk_attestation_chain x esplora (vh_anchor head) of
        None \<Rightarrow> None
      | Some walked \<Rightarrow> Some (rbind (map_err Walk walked) (walk_forward_from x head api esplora)))"

definition balance_from :: "VerifiedHead \<Rightarrow> XOnlyPublicKey \<Rightarrow> u64 \<times> u64" where
  "balance_from head addr =
     (if addr = vh_own_address head then
        (case vh_own_leaf head of LeafAccount balance nonce \<Rightarrow> (balance, nonce) | LeafEmpty \<Rightarrow> (0, 0))
      else (0, 0))"

end
