(* ===== verification/LightClientCorrect.thy ===== *)
theory LightClientCorrect
  imports LightClient
begin

text \<open>
  The light client refines the full node. \<open>head_matches\<close> relates a verified head to a full
  ledger; a block that the light client accepts is a block the full ledger accepts, with
  the same result, unless two of the listed preimages collide, and a block built honestly
  on the full ledger with its honest witness is accepted.
\<close>

definition own_proof :: "VerifiedHead \<Rightarrow> InclusionProof" where
  "own_proof H = \<lparr> ip_address = vh_own_address H, ip_leaf = vh_own_leaf H, ip_siblings = vh_own_path H \<rparr>"

definition head_matches :: "ext \<Rightarrow> VerifiedHead \<Rightarrow> LedgerState \<Rightarrow> bool" where
  "head_matches x H S \<longleftrightarrow>
     vh_state_root H = state_root x S \<and> vh_accounts_root H = accounts_root x S \<and>
     own_proof H = honest_proof x (leaf_of S) (vh_own_address H) \<and>
     vh_nullifiers H = consumed_nullifiers S \<and> vh_total_minted H = total_minted_atoms S \<and>
     vh_fee_address H = sequencer_fee_address S"

definition witness_preimages :: "ext \<Rightarrow> LedgerState \<Rightarrow> BlockWitness \<Rightarrow> bytes list" where
  "witness_preimages x S w =
     concat (map (\<lambda>p. proof_preimages x p @ proof_preimages x (honest_proof x (leaf_of S) (ip_address p)))
       (pre_proofs w))"

section \<open>Runs of transactions on a part of the ledger\<close>

lemma touched_Cons: "touched fee (tx # ts) = touches fee tx \<union> touched fee ts"
  by (simp add: touched_def)

lemma apply_txs_agree:
  "agree T S S' \<Longrightarrow> touched (sequencer_fee_address S) ts \<subseteq> T \<Longrightarrow>
     agree_result T (apply_txs x ts S) (apply_txs x ts S')"
proof (induction ts arbitrary: S S')
  case Nil
  then show ?case by (simp add: agree_result_def)
next
  case (Cons tx ts)
  have "agree_result T (apply_tx x tx S) (apply_tx x tx S')"
    using Cons.prems by (intro apply_tx_agree) (auto simp: touched_Cons)
  then consider e where "apply_tx x tx S = Inl e" "apply_tx x tx S' = Inl e"
    | T1 T2 where "apply_tx x tx S = Inr T1" "apply_tx x tx S' = Inr T2" "agree T T1 T2"
    by (auto simp: agree_result_def split: sum.splits)
  then show ?case
  proof cases
    case 2
    then show ?thesis
      using Cons.IH [OF 2(3)] Cons.prems(2) apply_tx_fee_address [OF 2(1)] by (simp add: touched_Cons)
  qed (simp add: agree_result_def)
qed

lemma apply_txs_frame:
  "apply_txs x ts S = Inr S' \<Longrightarrow> a \<notin> touched (sequencer_fee_address S) ts \<Longrightarrow>
     fmlookup (accounts S') a = fmlookup (accounts S) a"
proof (induction ts arbitrary: S)
  case (Cons tx ts)
  then obtain T where T: "apply_tx x tx S = Inr T" "apply_txs x ts T = Inr S'"
    by (auto simp: rbind_eq_Inr)
  then show ?case
    using Cons apply_tx_frame [OF T(1)] apply_tx_fee_address [OF T(1)] by (simp add: touched_Cons)
qed simp

lemma apply_txs_fee_address:
  "apply_txs x ts S = Inr S' \<Longrightarrow> sequencer_fee_address S' = sequencer_fee_address S"
  using run_fee_address ledger_run_iff by blast

lemma leaf_of_frame:
  "apply_txs x ts S = Inr S' \<Longrightarrow> a \<notin> touched (sequencer_fee_address S) ts \<Longrightarrow> leaf_of S' a = leaf_of S a"
  by (simp add: leaf_of_def apply_txs_frame)

lemma rfold_enumerate:
  "rfold (\<lambda>(i, tx) S. map_err (g i) (f tx S)) (enumerate n ts) S = Inr T \<longleftrightarrow> rfold f ts S = Inr T"
  by (induction ts arbitrary: n S) (auto simp: rbind_eq_Inr)

lemma replay_eq: "replay x ts S = Inr T \<longleftrightarrow> apply_txs x ts S = Inr T"
  by (simp add: replay_def apply_txs_def rfold_enumerate)

section \<open>The sparse ledger\<close>

definition account_of_leaf :: "LeafKind \<Rightarrow> Account option" where
  "account_of_leaf l = (case l of
     LeafAccount b n \<Rightarrow> Some \<lparr> acc_balance = b, acc_nonce = n \<rparr> | LeafEmpty \<Rightarrow> None)"

lemma account_of_leaf_of: "account_of_leaf (leaf_of S a) = fmlookup (accounts S) a"
  by (auto simp: account_of_leaf_def leaf_of_def split: option.split)

definition insert_leaf :: "LedgerState \<Rightarrow> InclusionProof \<Rightarrow> LedgerState" where
  "insert_leaf S p = (case ip_leaf p of
     LeafAccount balance nonce \<Rightarrow>
       S\<lparr>accounts := fmupd (ip_address p) \<lparr> acc_balance = balance, acc_nonce = nonce \<rparr> (accounts S)\<rparr>
   | LeafEmpty \<Rightarrow> S)"

lemma insert_leaf_other:
  "a \<noteq> ip_address p \<Longrightarrow> fmlookup (accounts (insert_leaf S p)) a = fmlookup (accounts S) a"
  by (auto simp: insert_leaf_def split: LeafKind.split)

lemma foldl_insert_other:
  "a \<notin> ip_address ` set ps \<Longrightarrow> fmlookup (accounts (foldl insert_leaf S ps)) a = fmlookup (accounts S) a"
  by (induction ps arbitrary: S) (auto simp: insert_leaf_other)

lemma foldl_insert_hit:
  "distinct (map ip_address ps) \<Longrightarrow> p \<in> set ps \<Longrightarrow> fmlookup (accounts S) (ip_address p) = None \<Longrightarrow>
     fmlookup (accounts (foldl insert_leaf S ps)) (ip_address p) = account_of_leaf (ip_leaf p)"
proof (induction ps arbitrary: S)
  case (Cons q ps)
  show ?case
  proof (cases "p = q")
    case True
    then show ?thesis
      using Cons.prems
      by (auto simp: foldl_insert_other) (auto simp: insert_leaf_def account_of_leaf_def split: LeafKind.split)
  next
    case False
    then have "ip_address p \<in> ip_address ` set ps" using Cons.prems(2) by simp
    then have "ip_address p \<noteq> ip_address q" using Cons.prems(1) by auto
    then show ?thesis using Cons False by (auto simp: insert_leaf_other)
  qed
qed simp

lemma sparse_ledger_alt:
  "sparse_ledger head ps = (foldl insert_leaf LedgerState_new ps)
     \<lparr>consumed_nullifiers := vh_nullifiers head, total_minted_atoms := vh_total_minted head,
      sequencer_fee_address := vh_fee_address head\<rparr>"
  by (simp add: sparse_ledger_def insert_leaf_def [abs_def])

definition honest_for :: "ext \<Rightarrow> LedgerState \<Rightarrow> InclusionProof list \<Rightarrow> bool" where
  "honest_for x S ps \<longleftrightarrow> (\<forall>p\<in>set ps. p = honest_proof x (leaf_of S) (ip_address p))"

lemma sparse_ledger_agree:
  assumes "honest_for x S ps" and "distinct (map ip_address ps)" and "head_matches x head S"
  shows "agree (ip_address ` set ps) (sparse_ledger head ps) S"
proof -
  have "fmlookup (accounts (foldl insert_leaf LedgerState_new ps)) (ip_address p)
      = fmlookup (accounts S) (ip_address p)" if p: "p \<in> set ps" for p
  proof -
    have "ip_leaf p = leaf_of S (ip_address p)"
      using assms(1) p by (metis honest_for_def honest_proof_def InclusionProof.select_convs(2))
    then show ?thesis
      using foldl_insert_hit [OF assms(2) p, of LedgerState_new]
      by (simp add: LedgerState_new_def account_of_leaf_of)
  qed
  then show ?thesis
    using assms(3) by (auto simp: agree_def sparse_ledger_alt head_matches_def)
qed

lemma upd_addr_updates_of [simp]: "map upd_addr (updates_of S ps) = map ip_address ps"
  by (simp add: updates_of_def comp_def)

lemma updates_of_Nil [simp]: "updates_of S ps = [] \<longleftrightarrow> ps = []"
  by (simp add: updates_of_def)

lemma honest_updates_of: "honest_updates x (leaf_of S) (updates_of T ps) \<longleftrightarrow> honest_for x S ps"
  by (auto simp: honest_updates_def updates_of_def honest_for_def)

lemma update_preimages_of:
  "update_preimages x (leaf_of S) (updates_of T ps) =
     concat (map (\<lambda>p. proof_preimages x p @ proof_preimages x (honest_proof x (leaf_of S) (ip_address p))) ps)"
  by (simp add: update_preimages_def updates_of_def comp_def)

lemma override_Nil [simp]: "override L [] = L"
  by (simp add: override_def fun_eq_iff)

lemma override_updates_of:
  "override L (updates_of T ps) a = (if a \<in> ip_address ` set ps then leaf_of T a else L a)"
proof (induction ps)
  case (Cons p ps)
  then show ?case by (auto simp: override_def updates_of_def leaf_of_def)
qed (simp add: override_def updates_of_def)

text \<open>The account set after the replay is the full ledger's.\<close>

lemma override_replayed:
  assumes "agree (touched (sequencer_fee_address S) ts) T S'" and "apply_txs x ts S = Inr S'"
    and "ip_address ` set ps = touched (sequencer_fee_address S) ts"
  shows "override (leaf_of S) (updates_of T ps) = leaf_of S'"
proof
  fix a
  have "leaf_of T a = leaf_of S' a" if "a \<in> touched (sequencer_fee_address S) ts"
    using assms(1) that by (simp add: agree_def leaf_of_def)
  then show "override (leaf_of S) (updates_of T ps) a = leaf_of S' a"
    using leaf_of_frame [OF assms(2)] assms(3) by (auto simp: override_updates_of)
qed

lemma touched_empty: "touched fee ts = {} \<longleftrightarrow> ts = []"
proof (cases ts)
  case (Cons tx us)
  then show ?thesis by (cases tx) (auto simp: touched_def touches_def)
qed (simp add: touched_def)

section \<open>Soundness of a step\<close>

lemma check_structure_ok:
  "check_structure x head height att block w = Inr () \<longleftrightarrow>
     bh_height (header block) = height \<and>
     (\<forall>a. att = Some a \<longrightarrow> L2Block_hash x block = att_block_hash a \<and>
        bh_state_root (header block) = att_state_root a) \<and>
     compute_txs_root x (txs block) = txs_root (header block) \<and>
     prev_hash (header block) = vh_block_hash head \<and> bw_height w = height \<and>
     prior_accounts_root w = vh_accounts_root head \<and>
     touched_addresses (txs block) (vh_fee_address head) = sort (map ip_address (pre_proofs w))"
  by (auto simp: check_structure_def rbind_eq_Inr Let_def split: option.splits if_splits)

definition full_result ::
    "ext \<Rightarrow> VerifiedHead \<Rightarrow> u32 \<Rightarrow> L2Block \<Rightarrow> LedgerState \<Rightarrow> VerifiedHead" where
  "full_result x head height block S' =
     \<lparr> vh_state_root = state_root x S', vh_accounts_root = accounts_root x S',
       vh_l2_height = height, vh_block_hash = L2Block_hash x block,
       vh_l1_height = l1_height (header block), vh_anchor = vh_anchor head,
       vh_own_address = vh_own_address head,
       vh_own_leaf = leaf_of S' (vh_own_address head),
       vh_own_path = map (smt_sibling x (leaf_of S') (vh_own_address head)) [0..<256],
       vh_nullifiers = consumed_nullifiers S', vh_total_minted = total_minted_atoms S',
       vh_fee_address = sequencer_fee_address S' \<rparr>"

lemma full_result_matches: "head_matches x (full_result x head height block S') S'"
  by (simp add: head_matches_def full_result_def own_proof_def honest_proof_def)

text \<open>With honest pre-proofs the last phase of a block computes the full ledger's values.\<close>

lemma finish_block_honest:
  assumes match: "head_matches x head S" and honest: "honest_for x S (pre_proofs w)"
    and addrs: "ip_address ` set (pre_proofs w) = touched (sequencer_fee_address S) (txs block)"
    and dist: "distinct (map ip_address (pre_proofs w))"
    and run: "apply_txs x (txs block) S = Inr S'"
    and agree: "agree (touched (sequencer_fee_address S) (txs block)) sparse S'"
  shows "finish_block x head height block w sparse =
     (if state_root x S' = bh_state_root (header block) then Inr (full_result x head height block S')
      else Inl (StateRootMismatch (state_root x S') (bh_state_root (header block))))"
proof -
  let ?us = "updates_of sparse (pre_proofs w)"
  have over: "override (leaf_of S) ?us = leaf_of S'"
    by (rule override_replayed [OF agree run addrs])
  have us: "honest_updates x (leaf_of S) ?us" using honest by (simp add: honest_updates_of)
  have root: "vh_accounts_root head = smt_root x (leaf_of S)"
    using match by (simp add: head_matches_def accounts_root_eq)
  have obs: "\<lparr> ip_address = vh_own_address head, ip_leaf = vh_own_leaf head,
      ip_siblings = vh_own_path head \<rparr> = honest_proof x (leaf_of S) (vh_own_address head)"
    using match by (simp add: head_matches_def own_proof_def)
  have new: "(if ?us = [] then Inr (vh_accounts_root head)
      else map_err SparseUpdate (apply_updates x ?us (vh_accounts_root head))) = Inr (accounts_root x S')"
  proof (cases "pre_proofs w = []")
    case True
    then have "touched (sequencer_fee_address S) (txs block) = {}" using addrs by simp
    then have "txs block = []" by (simp only: touched_empty)
    then show ?thesis using True run match by (simp add: head_matches_def)
  next
    case False
    then show ?thesis
      using apply_updates_complete [of ?us x "leaf_of S"] us dist over
      by (simp add: root accounts_root_eq)
  qed
  have verify: "\<forall>u\<in>set ?us. InclusionProof_verify x (pre_proof u) (smt_root x (leaf_of S))"
    using us honest_proof_verifies by (auto simp: honest_updates_def) (metis honest_proof_verifies)
  have "refresh_observer x (honest_proof x (leaf_of S) (vh_own_address head)) ?us (smt_root x (leaf_of S))
      = Inr (honest_proof x (leaf_of S') (vh_own_address head))"
  proof -
    obtain p where p: "refresh_observer x (honest_proof x (leaf_of S) (vh_own_address head)) ?us
        (smt_root x (leaf_of S)) = Inr p"
      using refresh_observer_eq [of x "honest_proof x (leaf_of S) (vh_own_address head)" ?us]
        verify dist honest_proof_verifies by simp
    then show ?thesis using refresh_honest [OF p us] over by simp
  qed
  then have obs': "(if ?us = [] then Inr (honest_proof x (leaf_of S) (vh_own_address head))
      else map_err ObserverRefresh (refresh_observer x (honest_proof x (leaf_of S) (vh_own_address head)) ?us
        (vh_accounts_root head))) = Inr (honest_proof x (leaf_of S') (vh_own_address head))"
    using over root by (cases "?us = []") simp_all
  have comps: "\<lparr> sc_accounts_root = accounts_root x S', sc_nullifiers_hash = nullifiers_hash x sparse,
      sc_fee_address = sequencer_fee_address sparse \<rparr> = components x S'"
    using agree by (simp add: components_def agree_def nullifiers_hash_def)
  have "InclusionProof_verify x (honest_proof x (leaf_of S') (vh_own_address head)) (accounts_root x S')"
    by (simp add: accounts_root_eq honest_proof_verifies)
  then show ?thesis
    unfolding finish_block_def Let_def new obs rbind_simps comps
    using agree by (simp add: obs' full_result_def state_root_def agree_def honest_proof_def
        del: updates_of_Nil)
qed

definition block_touches :: "LedgerState \<Rightarrow> L2Block \<Rightarrow> BlockWitness \<Rightarrow> bool" where
  "block_touches S block w \<longleftrightarrow>
     touched_addresses (txs block) (sequencer_fee_address S) = sort (map ip_address (pre_proofs w))"

lemma block_touches_addrs:
  assumes "block_touches S block w"
  shows "ip_address ` set (pre_proofs w) = touched (sequencer_fee_address S) (txs block)"
    and "distinct (map ip_address (pre_proofs w))"
proof -
  have eq: "sort (map ip_address (pre_proofs w)) = touched_addresses (txs block) (sequencer_fee_address S)"
    using assms by (simp add: block_touches_def)
  show "ip_address ` set (pre_proofs w) = touched (sequencer_fee_address S) (txs block)"
    using arg_cong [OF eq, of set] by (simp add: set_touched_addresses)
  show "distinct (map ip_address (pre_proofs w))"
    using arg_cong [OF eq, of distinct] by (simp add: distinct_touched_addresses)
qed

text \<open>With honest pre-proofs the replay on the sparse ledger is the replay on the full one.\<close>

lemma replay_sparse:
  assumes "head_matches x head S" and "honest_for x S (pre_proofs w)" and "block_touches S block w"
  shows "agree_result (touched (sequencer_fee_address S) (txs block))
    (apply_txs x (txs block) (sparse_ledger head (pre_proofs w))) (apply_txs x (txs block) S)"
proof (rule apply_txs_agree)
  show "agree (touched (sequencer_fee_address S) (txs block)) (sparse_ledger head (pre_proofs w)) S"
    using sparse_ledger_agree [OF assms(2) block_touches_addrs(2) assms(1)]
      block_touches_addrs [OF assms(3)] assms(3) by simp
  then show "touched (sequencer_fee_address (sparse_ledger head (pre_proofs w))) (txs block)
      \<subseteq> touched (sequencer_fee_address S) (txs block)"
    by (simp add: agree_def)
qed

lemma finish_block_pre_proofs:
  assumes "finish_block x head height block w sparse = Inr head'"
  shows "\<forall>p\<in>set (pre_proofs w). InclusionProof_verify x p (vh_accounts_root head)"
proof (cases "pre_proofs w = []")
  case False
  then obtain r where "apply_updates x (updates_of sparse (pre_proofs w)) (vh_accounts_root head) = Inr r"
    using assms by (auto simp: finish_block_def Let_def rbind_eq_Inr)
  then show ?thesis by (auto simp: apply_updates_eq updates_of_def)
qed simp

lemma pre_proofs_honest:
  assumes "head_matches x head S"
    and "\<forall>p\<in>set (pre_proofs w). InclusionProof_verify x p (vh_accounts_root head)"
  shows "honest_for x S (pre_proofs w) \<or> collides (sha256 x) (witness_preimages x S w)"
proof -
  have "\<forall>u\<in>set (updates_of S (pre_proofs w)). InclusionProof_verify x (pre_proof u) (smt_root x (leaf_of S))"
    using assms by (auto simp: updates_of_def head_matches_def accounts_root_eq)
  from updates_sound [OF this] show ?thesis
    by (simp add: honest_updates_of update_preimages_of witness_preimages_def)
qed

lemma step_sound:
  assumes match: "head_matches x head S" and touch: "block_touches S block w"
    and replay: "replay x (txs block) (sparse_ledger head (pre_proofs w)) = Inr sparse"
    and fin: "finish_block x head height block w sparse = Inr head'"
  shows "(\<exists>S'. apply_txs x (txs block) S = Inr S' \<and> head' = full_result x head height block S' \<and>
      bh_state_root (header block) = state_root x S') \<or>
    collides (sha256 x) (witness_preimages x S w)"
proof -
  from pre_proofs_honest [OF match finish_block_pre_proofs [OF fin]] show ?thesis
  proof
    assume honest: "honest_for x S (pre_proofs w)"
    have "apply_txs x (txs block) (sparse_ledger head (pre_proofs w)) = Inr sparse"
      using replay by (simp add: replay_eq)
    then obtain S' where S': "apply_txs x (txs block) S = Inr S'"
      "agree (touched (sequencer_fee_address S) (txs block)) sparse S'"
      using replay_sparse [OF match honest touch] by (auto simp: agree_result_def split: sum.splits)
    have "state_root x S' = bh_state_root (header block) \<and> head' = full_result x head height block S'"
      using fin finish_block_honest [OF match honest block_touches_addrs [OF touch] S', of height]
      by (auto split: if_splits)
    with S'(1) show ?thesis by auto
  qed simp
qed

lemma verify_one_eq:
  "verify_one_l2_block x head height att tip api es ev = Inr (head', ev') \<longleftrightarrow>
     (\<exists>block w l1 sparse.
        api_get_block api height = Inr block \<and> api_get_witness api height = Inr w \<and>
        check_structure x head height att block w = Inr () \<and>
        prefetch_l1_for_block x es block tip = Inr l1 \<and>
        verify_mints x l1 (txs block) = Inr () \<and>
        replay x (txs block) (sparse_ledger head (pre_proofs w)) = Inr sparse \<and>
        finish_block x head height block w sparse = Inr head' \<and>
        ev' = ev @ concat (map (tx_events x (vh_own_address head) height (header block)) (txs block)))"
  by (auto simp: verify_one_l2_block_def rbind_eq_Inr Let_def)

lemma structure_touches:
  "head_matches x head S \<Longrightarrow> check_structure x head height att block w = Inr () \<Longrightarrow> block_touches S block w"
  by (simp add: check_structure_ok block_touches_def head_matches_def)

lemma verify_one_sound:
  assumes "verify_one_l2_block x head height att tip api es ev = Inr (head', ev')"
    and match: "head_matches x head S"
  shows "\<exists>block w. api_get_block api height = Inr block \<and> api_get_witness api height = Inr w \<and>
    ((\<exists>S'. apply_txs x (txs block) S = Inr S' \<and> head' = full_result x head height block S' \<and>
        bh_state_root (header block) = state_root x S') \<or>
     collides (sha256 x) (witness_preimages x S w))"
  using assms step_sound [OF match structure_touches [OF match]]
  by (fastforce simp: verify_one_eq)

section \<open>Completeness of a step\<close>

lemma build_honest: "honest_for x S (pre_proofs (BlockWitness_build x S ts height))"
  by (auto simp: honest_for_def BlockWitness_build_def account_inclusion_proof_eq honest_proof_def)

lemma sort_touched: "sort (touched_addresses ts fee) = touched_addresses ts fee"
  by (simp add: touched_addresses_def sorted_list_of_fset.rep_eq sorted_sort_id Let_def split: prod.split)

lemma build_touches: "txs block = ts \<Longrightarrow> block_touches S block (BlockWitness_build x S ts height)"
  by (simp add: block_touches_def BlockWitness_build_def comp_def account_inclusion_proof_eq
      honest_proof_def sort_touched)

lemma verify_one_complete:
  assumes match: "head_matches x head S"
    and served: "api_get_block api height = Inr block"
      "api_get_witness api height = Inr (BlockWitness_build x S (txs block) height)"
    and header: "bh_height (header block) = height" "prev_hash (header block) = vh_block_hash head"
      "txs_root (header block) = compute_txs_root x (txs block)"
    and run: "apply_txs x (txs block) S = Inr S'"
    and root: "bh_state_root (header block) = state_root x S'"
    and att: "\<And>a. att = Some a \<Longrightarrow> att_block_hash a = L2Block_hash x block \<and> att_state_root a = state_root x S'"
    and mints: "prefetch_l1_for_block x es block tip = Inr l1" "verify_mints x l1 (txs block) = Inr ()"
  shows "verify_one_l2_block x head height att tip api es ev =
    Inr (full_result x head height block S',
         ev @ concat (map (tx_events x (vh_own_address head) height (header block)) (txs block)))"
proof -
  let ?w = "BlockWitness_build x S (txs block) height"
  have touch: "block_touches S block ?w" by (rule build_touches) simp
  have checked: "check_structure x head height att block ?w = Inr ()"
    using touch match header root att
    by (auto simp: check_structure_ok block_touches_def head_matches_def BlockWitness_build_def)
  obtain sparse where sparse: "replay x (txs block) (sparse_ledger head (pre_proofs ?w)) = Inr sparse"
    "agree (touched (sequencer_fee_address S) (txs block)) sparse S'"
    using replay_sparse [OF match build_honest touch] run
    by (auto simp: agree_result_def replay_eq split: sum.splits)
  have "finish_block x head height block ?w sparse = Inr (full_result x head height block S')"
    using finish_block_honest [OF match build_honest block_touches_addrs [OF touch] run sparse(2)] root
    by simp
  then show ?thesis
    using served checked mints sparse(1) by (simp add: verify_one_eq)
qed

end
