(* ===== verification/WalkCorrect.thy ===== *)
theory WalkCorrect
  imports LightClientCorrect
begin

text \<open>
  Whole walks of the light client: \<open>walk_forward\<close> composes verified blocks into a run of
  the full ledger over consecutive heights, and \<open>bootstrap\<close> pins everything but the running
  total to the state root attested on L1.
\<close>

section \<open>Runs over served blocks\<close>

definition served_txs :: "ApiClient \<Rightarrow> u32 list \<Rightarrow> L2Tx list" where
  "served_txs api hs = concat (map (\<lambda>h. case api_get_block api h of Inr b \<Rightarrow> txs b | Inl _ \<Rightarrow> []) hs)"

fun run_preimages :: "ext \<Rightarrow> ApiClient \<Rightarrow> LedgerState \<Rightarrow> u32 list \<Rightarrow> bytes list" where
  "run_preimages x api S [] = []"
| "run_preimages x api S (h # hs) =
     (case (api_get_block api h, api_get_witness api h) of
        (Inr b, Inr w) \<Rightarrow> witness_preimages x S w @
          (case apply_txs x (txs b) S of Inr S' \<Rightarrow> run_preimages x api S' hs | Inl _ \<Rightarrow> [])
      | _ \<Rightarrow> [])"

lemma served_txs_append: "served_txs api (hs @ ks) = served_txs api hs @ served_txs api ks"
  by (simp add: served_txs_def)

lemma run_preimages_append:
  "apply_txs x (served_txs api hs) S = Inr T \<Longrightarrow>
     set (run_preimages x api T ks) \<subseteq> set (run_preimages x api S (hs @ ks)) \<or>
     (\<exists>h\<in>set hs. \<not> is_ok (api_get_block api h) \<or> \<not> is_ok (api_get_witness api h))"
proof (induction hs arbitrary: S)
  case (Cons h hs)
  then show ?case
    by (cases "api_get_block api h"; cases "api_get_witness api h")
      (fastforce simp: served_txs_def apply_txs_append rbind_eq_Inr)+
qed (simp add: served_txs_def)

lemma run_preimages_prefix: "set (run_preimages x api S hs) \<subseteq> set (run_preimages x api S (hs @ ks))"
  by (induction hs arbitrary: S) (fastforce split: sum.splits)+

definition served :: "ApiClient \<Rightarrow> u32 list \<Rightarrow> bool" where
  "served api hs \<longleftrightarrow> (\<forall>h\<in>set hs. is_ok (api_get_block api h) \<and> is_ok (api_get_witness api h))"

definition range_step ::
    "ext \<Rightarrow> ApiClient \<Rightarrow> EsploraClient \<Rightarrow> u32 \<Rightarrow> Attestation \<Rightarrow> u32 \<Rightarrow> VerifiedHead \<times> nat \<times> TxEvent list \<Rightarrow>
     (VerifyError, VerifiedHead \<times> nat \<times> TxEvent list) result" where
  "range_step x api es tip att h = (\<lambda>(head, count, events).
     let end_att = (if h = att_height att then Some att else None)
     in rbind (verify_one_l2_block x head h end_att tip api es events) (\<lambda>(head, events).
        Inr (head, count + 1, events)))"

lemma range_step_eq:
  "range_step x api es tip att h (head, n, ev) = Inr (head', n', ev') \<longleftrightarrow>
     n' = n + 1 \<and> verify_one_l2_block x head h (if h = att_height att then Some att else None) tip api es ev
       = Inr (head', ev')"
  by (auto simp: range_step_def rbind_eq_Inr Let_def)

lemma walk_one_step_eq:
  "walk_one_step x api es tip step (head, n, ev) =
     (if att_height (cs_attestation step) \<le> vh_l2_height head
      then Inr (head\<lparr>vh_anchor := new_anchor step\<rparr>, n, ev)
      else rbind (rfold (range_step x api es tip (cs_attestation step))
             (blocks_above (vh_l2_height head) (att_height (cs_attestation step))) (head, n, ev))
           (\<lambda>(head, n, ev). Inr (head\<lparr>vh_anchor := new_anchor step, vh_l1_height := cs_l1_height step\<rparr>, n, ev)))"
  by (simp add: walk_one_step_def range_step_def [abs_def] heights_above Let_def)

lemma verify_one_fields:
  assumes "verify_one_l2_block x head h att tip api es ev = Inr (head', ev')"
  shows "vh_l2_height head' = h \<and> vh_anchor head' = vh_anchor head \<and>
    is_ok (api_get_block api h) \<and> is_ok (api_get_witness api h)"
  using assms by (auto simp: verify_one_eq finish_block_def Let_def rbind_eq_Inr)

lemma range_fields:
  "rfold (range_step x api es tip att) hs (head, n, ev) = Inr (head', n', ev') \<Longrightarrow>
     n' = n + length hs \<and> vh_l2_height head' = (if hs = [] then vh_l2_height head else last hs) \<and>
     served api hs"
proof (induction hs arbitrary: head n ev)
  case (Cons h hs)
  then obtain head1 ev1 where v: "verify_one_l2_block x head h (if h = att_height att then Some att else None)
        tip api es ev = Inr (head1, ev1)"
    and r: "rfold (range_step x api es tip att) hs (head1, n + 1, ev1) = Inr (head', n', ev')"
    by (auto simp: range_step_eq rbind_eq_Inr)
  from Cons.IH [OF r] verify_one_fields [OF v] show ?case by (auto simp: served_def)
qed (simp add: served_def)

lemma range_sound:
  "rfold (range_step x api es tip att) hs (head, n, ev) = Inr (head', n', ev') \<Longrightarrow>
   head_matches x head S \<Longrightarrow>
     (\<exists>S'. apply_txs x (served_txs api hs) S = Inr S' \<and> head_matches x head' S') \<or>
     collides (sha256 x) (run_preimages x api S hs)"
proof (induction hs arbitrary: head n ev S)
  case (Cons h hs)
  then obtain head1 ev1 where v: "verify_one_l2_block x head h (if h = att_height att then Some att else None)
        tip api es ev = Inr (head1, ev1)"
    and r: "rfold (range_step x api es tip att) hs (head1, n + 1, ev1) = Inr (head', n', ev')"
    by (auto simp: range_step_eq rbind_eq_Inr)
  obtain b w where bw: "api_get_block api h = Inr b" "api_get_witness api h = Inr w"
    and cases: "(\<exists>T. apply_txs x (txs b) S = Inr T \<and> head1 = full_result x head h b T) \<or>
      collides (sha256 x) (witness_preimages x S w)"
    using verify_one_sound [OF v Cons.prems(2)] by blast
  from cases show ?case
  proof
    assume "\<exists>T. apply_txs x (txs b) S = Inr T \<and> head1 = full_result x head h b T"
    then obtain T where T: "apply_txs x (txs b) S = Inr T" "head_matches x head1 T"
      using full_result_matches by blast
    from Cons.IH [OF r T(2)] show ?thesis
      using T(1) bw by (auto simp: served_txs_def apply_txs_append)
  qed (use bw in auto)
qed (simp add: served_txs_def)

lemma head_matches_anchor [simp]:
  "head_matches x (head\<lparr>vh_anchor := a\<rparr>) S = head_matches x head S"
  "head_matches x (head\<lparr>vh_l1_height := l\<rparr>) S = head_matches x head S"
  by (simp_all add: head_matches_def own_proof_def)

lemma walk_fields:
  "rfold (walk_one_step x api es tip) chain (head, n, ev) = Inr (head', n', ev') \<Longrightarrow>
     vh_l2_height head \<le> vh_l2_height head' \<and>
     n' = n + (unat (vh_l2_height head') - unat (vh_l2_height head)) \<and>
     vh_anchor head' = (if chain = [] then vh_anchor head else new_anchor (last chain)) \<and>
     served api (blocks_above (vh_l2_height head) (vh_l2_height head'))"
proof (induction chain arbitrary: head n ev)
  case (Cons step chain)
  then obtain head1 n1 ev1 where s: "walk_one_step x api es tip step (head, n, ev) = Inr (head1, n1, ev1)"
    and r: "rfold (walk_one_step x api es tip) chain (head1, n1, ev1) = Inr (head', n', ev')"
    by (auto simp: rbind_eq_Inr)
  let ?t = "att_height (cs_attestation step)"
  have one: "vh_l2_height head \<le> vh_l2_height head1 \<and>
      n1 = n + (unat (vh_l2_height head1) - unat (vh_l2_height head)) \<and> vh_anchor head1 = new_anchor step \<and>
      served api (blocks_above (vh_l2_height head) (vh_l2_height head1))"
  proof (cases "?t \<le> vh_l2_height head")
    case True
    with s show ?thesis by (auto simp: walk_one_step_eq served_def)
  next
    case False
    with s obtain h2 where "rfold (range_step x api es tip (cs_attestation step))
        (blocks_above (vh_l2_height head) ?t) (head, n, ev) = Inr (h2, n1, ev1)"
      and "head1 = h2\<lparr>vh_anchor := new_anchor step, vh_l1_height := cs_l1_height step\<rparr>"
      by (auto simp: walk_one_step_eq rbind_eq_Inr)
    with range_fields [OF this(1)] False last_blocks_above [of "vh_l2_height head" ?t] show ?thesis
      by (simp add: length_blocks_above not_le)
  qed
  from Cons.IH [OF r] one blocks_above_append [of "vh_l2_height head" "vh_l2_height head1" "vh_l2_height head'"]
  show ?case by (auto simp: word_le_nat_alt served_def simp del: append_assoc) (metis UnE set_append)+
qed (simp add: served_def)

lemma walk_sound:
  "rfold (walk_one_step x api es tip) chain (head, n, ev) = Inr (head', n', ev') \<Longrightarrow>
   head_matches x head S \<Longrightarrow>
     (\<exists>S'. apply_txs x (served_txs api (blocks_above (vh_l2_height head) (vh_l2_height head'))) S = Inr S' \<and>
        head_matches x head' S') \<or>
     collides (sha256 x) (run_preimages x api S (blocks_above (vh_l2_height head) (vh_l2_height head')))"
proof (induction chain arbitrary: head n ev S)
  case (Cons step chain)
  then obtain head1 n1 ev1 where s: "walk_one_step x api es tip step (head, n, ev) = Inr (head1, n1, ev1)"
    and r: "rfold (walk_one_step x api es tip) chain (head1, n1, ev1) = Inr (head', n', ev')"
    by (auto simp: rbind_eq_Inr)
  have f: "vh_l2_height head \<le> vh_l2_height head1" "vh_l2_height head1 \<le> vh_l2_height head'"
    "served api (blocks_above (vh_l2_height head) (vh_l2_height head1))"
    using walk_fields [of x api es tip "[step]" head n ev head1 n1 ev1] s walk_fields [OF r] by auto
  let ?A = "blocks_above (vh_l2_height head) (vh_l2_height head1)"
  let ?B = "blocks_above (vh_l2_height head1) (vh_l2_height head')"
  have app: "blocks_above (vh_l2_height head) (vh_l2_height head') = ?A @ ?B"
    using blocks_above_append [OF f(1,2)] by simp
  have "(\<exists>T. apply_txs x (served_txs api ?A) S = Inr T \<and> head_matches x head1 T) \<or>
      collides (sha256 x) (run_preimages x api S ?A)"
  proof (cases "att_height (cs_attestation step) \<le> vh_l2_height head")
    case True
    with s Cons.prems(2) show ?thesis by (auto simp: walk_one_step_eq served_txs_def)
  next
    case False
    with s obtain h2 where h2: "rfold (range_step x api es tip (cs_attestation step))
        (blocks_above (vh_l2_height head) (att_height (cs_attestation step))) (head, n, ev) = Inr (h2, n1, ev1)"
      "head1 = h2\<lparr>vh_anchor := new_anchor step, vh_l1_height := cs_l1_height step\<rparr>"
      by (auto simp: walk_one_step_eq rbind_eq_Inr)
    have "vh_l2_height head1 = att_height (cs_attestation step)"
      using range_fields [OF h2(1)] False last_blocks_above [of "vh_l2_height head"] h2(2) by (simp add: not_le)
    with range_sound [OF h2(1) Cons.prems(2)] h2(2) show ?thesis by simp
  qed
  then show ?case
  proof
    assume "\<exists>T. apply_txs x (served_txs api ?A) S = Inr T \<and> head_matches x head1 T"
    then obtain T where T: "apply_txs x (served_txs api ?A) S = Inr T" "head_matches x head1 T" by blast
    have sub: "set (run_preimages x api T ?B) \<subseteq> set (run_preimages x api S (?A @ ?B))"
      using run_preimages_append [OF T(1), of ?B] f(3) by (auto simp: served_def)
    from Cons.IH [OF r T(2)] show ?thesis
    proof
      assume "collides (sha256 x) (run_preimages x api T ?B)"
      then show ?thesis unfolding app by (intro disjI2) (rule collides_mono [OF _ sub])
    qed (use T(1) app in \<open>auto simp: served_txs_append apply_txs_append\<close>)
  next
    assume "collides (sha256 x) (run_preimages x api S ?A)"
    then show ?thesis unfolding app
      by (intro disjI2) (rule collides_mono [OF _ run_preimages_prefix])
  qed
qed (simp add: served_txs_def)

lemma walk_forward_refines:
  assumes "walk_forward x head api es = Some (Inr (head', n, ev))" and "head_matches x head S"
  shows "(\<exists>S'. apply_txs x (served_txs api (blocks_above (vh_l2_height head) (vh_l2_height head'))) S = Inr S' \<and>
       head_matches x head' S') \<or>
    collides (sha256 x) (run_preimages x api S (blocks_above (vh_l2_height head) (vh_l2_height head')))"
proof -
  obtain chain where "walk_forward_from x head api es chain = Inr (head', n, ev)"
    using assms(1) by (auto simp: walk_forward_def rbind_eq_Inr split: option.splits)
  then consider "head' = head" | tip where
      "rfold (walk_one_step x api es tip) chain (head, 0, []) = Inr (head', n, ev)"
    by (auto simp: walk_forward_from_def rbind_eq_Inr split: if_splits)
  then show ?thesis
  proof cases
    case 1
    then show ?thesis using assms(2) by (simp add: served_txs_def)
  next
    case 2
    then show ?thesis by (rule walk_sound [OF _ assms(2)])
  qed
qed

text \<open>A walk never changes whose head it is.\<close>

lemma verify_one_own: "verify_one_l2_block x head h att tip api es ev = Inr (head', ev') \<Longrightarrow> vh_own_address head' = vh_own_address head"
  by (auto simp: verify_one_l2_block_def finish_block_def Let_def rbind_eq_Inr split: if_splits)

lemma walk_one_step_own:
  "walk_one_step x api es tip step (head, n, ev) = Inr (head', n', ev') \<Longrightarrow> vh_own_address head' = vh_own_address head"
proof -
  assume step: "walk_one_step x api es tip step (head, n, ev) = Inr (head', n', ev')"
  have own: "vh_own_address (fst r) = vh_own_address head"
    if "rfold (\<lambda>h (head, count, events).
          let end_att = if h = t then Some a else None
          in rbind (verify_one_l2_block x head h end_att tip api es events) (\<lambda>(head, events). Inr (head, count + 1, events)))
        hs (head, n, ev) = Inr r" for t a hs r
    using that
    by (rule rfold_invariant [where P = "\<lambda>r. vh_own_address (fst r) = vh_own_address head"])
      (auto simp: Let_def rbind_eq_Inr dest: verify_one_own split: prod.splits)
  show ?thesis
    using step own [of "att_height (cs_attestation step)" "cs_attestation step"] by (fastforce simp: walk_one_step_def Let_def rbind_eq_Inr split: if_splits)
qed

lemma walk_forward_own:
  assumes "walk_forward x head api es = Some (Inr (head', n, ev))"
  shows "vh_own_address head' = vh_own_address head"
proof -
  obtain chain where c: "walk_forward_from x head api es chain = Inr (head', n, ev)"
    using assms by (auto simp: walk_forward_def rbind_eq_Inr split: option.splits)
  have "vh_own_address (fst r) = vh_own_address head"
    if "rfold (walk_one_step x api es tip) chain (head, 0, []) = Inr r" for tip r
    using that by (rule rfold_invariant [where P = "\<lambda>r. vh_own_address (fst r) = vh_own_address head"])
      (auto dest: walk_one_step_own)
  with c show ?thesis by (fastforce simp: walk_forward_from_def rbind_eq_Inr split: if_splits)
qed

section \<open>Cold start\<close>

text \<open>The nullifier hash concatenates the strings without separators, so it binds the set only
  among sets of strings of one length; the nullifiers of version 0 all have 72 digits.\<close>

lemma concat_same_length:
  assumes "0 < n"
  shows "list_all (\<lambda>s. length s = n) ss \<Longrightarrow> list_all (\<lambda>s. length s = n) ts \<Longrightarrow>
    concat ss = concat ts \<Longrightarrow> ss = ts"
proof (induction ss ts rule: list_induct2')
  case (4 s ss t ts)
  then have "length s = length t" "s @ concat ss = t @ concat ts" by simp_all
  then have "s = t" and "concat ss = concat ts" using append_eq_append_conv by blast+
  with 4 show ?case by simp
qed (use assms in auto)

lemma sorted_list_of_fset_inj: "sorted_list_of_fset A = sorted_list_of_fset B \<Longrightarrow> A = B"
  using sorted_list_of_fset_simps(2) by metis

lemma nullifiers_preimage_inj:
  assumes "0 < n" and "fBall A (\<lambda>s. length s = n)" and "fBall B (\<lambda>s. length s = n)"
    and "nullifiers_preimage A = nullifiers_preimage B"
  shows "A = B"
proof -
  have "map bytes_of (sorted_list_of_fset A) = map bytes_of (sorted_list_of_fset B)"
    using assms(2-4)
    by (intro concat_same_length [OF assms(1)]) (auto simp: nullifiers_preimage_def list_all_iff)
  then have "sorted_list_of_fset A = sorted_list_of_fset B"
    by (subst (asm) inj_map_eq_map) (auto simp: inj_def)
  then show ?thesis by (rule sorted_list_of_fset_inj)
qed

text \<open>Without the common length it does not: re-split strings give the same preimage.\<close>

lemma nullifiers_preimage_resplit:
  "nullifiers_preimage {|''ab''|} = nullifiers_preimage {|''a'', ''b''|}"
proof -
  have "sorted_list_of_set {''a'', ''b''} = [''a'', ''b'']"
    using sorted_list_of_set_sort_remdups [of "[''a'', ''b'']"] by (simp add: less_eq_char_def)
  then show ?thesis by (simp add: nullifiers_preimage_def sorted_list_of_fset.rep_eq bytes_of_def)
qed

lemma bootstrap_from_eq:
  "bootstrap_from x api own gen anchor_0 chain = Inr H \<longleftrightarrow>
     (\<exists>bal ns. api_balance api own = Inr bal \<and> api_get_nullifiers api = Inr ns \<and>
        br_state_root bal = (if chain = [] then bh_state_root (header gen)
          else att_state_root (cs_attestation (last chain))) \<and>
        br_l2_height bal = (if chain = [] then 0 else att_height (cs_attestation (last chain))) \<and>
        br_address bal = own \<and> components_state_root x (br_components bal) = br_state_root bal \<and>
        InclusionProof_verify x (br_proof bal) (sc_accounts_root (br_components bal)) \<and>
        check_leaf bal = Inr () \<and>
        nullifiers_hash_of x (fset_of_list ns) = sc_nullifiers_hash (br_components bal) \<and>
        H = \<lparr> vh_state_root = br_state_root bal, vh_accounts_root = sc_accounts_root (br_components bal),
              vh_l2_height = br_l2_height bal,
              vh_block_hash = (if chain = [] then L2Block_hash x gen
                else att_block_hash (cs_attestation (last chain))),
              vh_l1_height = (if chain = [] then l1_height (header gen) else cs_l1_height (last chain)),
              vh_anchor = (if chain = [] then anchor_0 else new_anchor (last chain)),
              vh_own_address = own, vh_own_leaf = ip_leaf (br_proof bal),
              vh_own_path = ip_siblings (br_proof bal), vh_nullifiers = fset_of_list ns,
              vh_total_minted = br_total_minted bal,
              vh_fee_address = sc_fee_address (br_components bal) \<rparr>)"
  by (cases "chain = []") (auto simp: bootstrap_from_def Let_def rbind_eq_Inr)

definition bootstrap_preimages :: "ext \<Rightarrow> LedgerState \<Rightarrow> BalanceResponse \<Rightarrow> string list \<Rightarrow> bytes list" where
  "bootstrap_preimages x S bal ns =
     [components_preimage (br_components bal), components_preimage (components x S),
      nullifiers_preimage (fset_of_list ns), nullifiers_preimage (consumed_nullifiers S)] @
     proof_preimages x (br_proof bal) @ proof_preimages x (honest_proof x (leaf_of S) (ip_address (br_proof bal)))"

text \<open>The check of the returned proof does not compare its address with the wallet's own.\<close>

lemma bootstrap_sound:
  assumes boot: "bootstrap_from x api own gen anchor_0 chain = Inr H"
    and root: "vh_state_root H = state_root x S"
    and served: "api_balance api own = Inr bal" "api_get_nullifiers api = Inr ns"
    and own: "ip_address (br_proof bal) = own"
    and len: "0 < n" "fBall (consumed_nullifiers S) (\<lambda>s. length s = n)" "\<forall>s\<in>set ns. length s = n"
  shows "head_matches x (H\<lparr>vh_total_minted := total_minted_atoms S\<rparr>) S \<or>
    collides (sha256 x) (bootstrap_preimages x S bal ns)"
proof (rule disjCI)
  let ?ps = "bootstrap_preimages x S bal ns"
  assume no: "\<not> collides (sha256 x) ?ps"
  have b: "components_state_root x (br_components bal) = br_state_root bal"
    "InclusionProof_verify x (br_proof bal) (sc_accounts_root (br_components bal))"
    "nullifiers_hash_of x (fset_of_list ns) = sc_nullifiers_hash (br_components bal)"
    "vh_state_root H = br_state_root bal" "vh_accounts_root H = sc_accounts_root (br_components bal)"
    "vh_own_address H = own" "vh_own_leaf H = ip_leaf (br_proof bal)" "vh_own_path H = ip_siblings (br_proof bal)"
    "vh_nullifiers H = fset_of_list ns" "vh_fee_address H = sc_fee_address (br_components bal)"
    using boot served by (auto simp: bootstrap_from_eq)
  have "components_preimage (br_components bal) = components_preimage (components x S)"
    using b(1,4) root
    by (intro not_collidesD [OF no]) (auto simp: bootstrap_preimages_def components_state_root_def state_root_def)
  then have comps: "br_components bal = components x S" by (simp add: components_preimage_inj)
  have "nullifiers_preimage (fset_of_list ns) = nullifiers_preimage (consumed_nullifiers S)"
    using b(3) comps
    by (intro not_collidesD [OF no])
      (auto simp: bootstrap_preimages_def components_def nullifiers_hash_def nullifiers_hash_of_def)
  then have nulls: "fset_of_list ns = consumed_nullifiers S"
    using len by (intro nullifiers_preimage_inj [OF len(1)]) (auto simp: fset_of_list_elem)
  have sub: "set (proof_preimages x (br_proof bal) @
      proof_preimages x (honest_proof x (leaf_of S) (ip_address (br_proof bal)))) \<subseteq> set ?ps"
    by (auto simp: bootstrap_preimages_def)
  have "InclusionProof_verify x (br_proof bal) (smt_root x (leaf_of S))"
    using b(2) comps by (simp add: components_def accounts_root_eq)
  then have "br_proof bal = honest_proof x (leaf_of S) own"
    using verify_sound [of x "br_proof bal" "leaf_of S"] no collides_mono [OF _ sub] own by auto
  then show "head_matches x (H\<lparr>vh_total_minted := total_minted_atoms S\<rparr>) S"
    using b comps nulls root
    by (simp add: head_matches_def own_proof_def components_def honest_proof_def)
qed

end
