(* ===== verification/Effect.thy ===== *)
theory Effect
  imports Rpc OpReturn
begin

text \<open>
  What the two daemons share. Their operations keep what they changed when they leave with an
  error, so an operation is a function from a state to a result and a state (\<open>act\<close>), with the
  \<open>?\<close> operator as \<open>op_bind\<close>. All their errors are \<open>anyhow\<close> errors: one datatype, with a
  constructor per place that raises, and \<open>op\<close> is \<open>act\<close> with these errors.
\<close>

datatype Anyhow =
    SqlError
  | JsonError
  | MalformedOutpoint string
  | BadTxid string
  | BadVout string
  | RpcError
  | BlockCountOverflow u64
  | BadHex
  | BadHashLength nat
  | BadKey
  | BadAddress
  | NoAnchor
  | NoConfirmedUtxo
  | MissingTxid
  | MissingVout
  | NoConfirmations
  | SendIncomplete
  | InconsistentSnapshot u32
  | WrongHeight u32 u32
  | AttestationHeight u32 u32
  | AttestationHash H256 H256
  | AttestationRoot H256 H256
  | TxsRootMismatch u32 H256 H256
  | InvalidEntry nat u32 MintError
  | InvalidTx u32 ApplyError
  | StateRootMismatch u32 H256 H256
  | PrevHashMismatch u32 H256 H256
  | SeqHttp HttpError
  | NotGenesis
  | GenesisHeight u32 u32
  | GenesisRoot H256 H256
  | GenesisAnchor
  | TooFewOutputs Txid nat
  | BadOpReturn Txid AttestationError
  | NotAttestation Txid
  | ScanFailed

type_synonym ('s, 'e, 'a) act = "'s \<Rightarrow> ('e, 'a) result \<times> 's"
type_synonym ('s, 'a) op = "('s, Anyhow, 'a) act"

definition op_return :: "'a \<Rightarrow> ('s, 'e, 'a) act" where
  "op_return a s = (Inr a, s)"

definition op_bind :: "('s, 'e, 'a) act \<Rightarrow> ('a \<Rightarrow> ('s, 'e, 'b) act) \<Rightarrow> ('s, 'e, 'b) act" where
  "op_bind m f s = (case m s of (Inl e, s') \<Rightarrow> (Inl e, s') | (Inr a, s') \<Rightarrow> f a s')"

definition op_result :: "('s \<Rightarrow> ('e, 'a) result) \<Rightarrow> ('s, 'e, 'a) act" where
  "op_result r s = (r s, s)"

definition op_gets :: "('s \<Rightarrow> 'a) \<Rightarrow> ('s, 'e, 'a) act" where
  "op_gets g s = (Inr (g s), s)"

definition op_modify :: "('s \<Rightarrow> 's) \<Rightarrow> ('s, 'e, unit) act" where
  "op_modify f s = (Inr (), f s)"

text \<open>A step that may fail and changes nothing when it does (a database statement).\<close>

definition op_write :: "('s \<Rightarrow> ('e, 's) result) \<Rightarrow> ('s, 'e, unit) act" where
  "op_write f s = (case f s of Inl e \<Rightarrow> (Inl e, s) | Inr s' \<Rightarrow> (Inr (), s'))"

lemma op_simps [simp]:
  "op_return a s = (Inr a, s)" "op_gets g s = (Inr (g s), s)" "op_modify f s = (Inr (), f s)"
  by (simp_all add: op_return_def op_gets_def op_modify_def)

lemma op_bind_Inr:
  "op_bind m f s = (Inr b, s'') \<longleftrightarrow> (\<exists>a s'. m s = (Inr a, s') \<and> f a s' = (Inr b, s''))"
  by (auto simp: op_bind_def split: prod.splits sum.splits)

lemma op_bind_Inl:
  "op_bind m f s = (Inl e, s'') \<longleftrightarrow> m s = (Inl e, s'') \<or> (\<exists>a s'. m s = (Inr a, s') \<and> f a s' = (Inl e, s''))"
  by (auto simp: op_bind_def split: prod.splits sum.splits)

lemma op_bind_ok: "m s = (Inr a, s') \<Longrightarrow> op_bind m f s = f a s'"
  by (simp add: op_bind_def)

lemma op_bind_err: "m s = (Inl e, s') \<Longrightarrow> op_bind m f s = (Inl e, s')"
  by (simp add: op_bind_def)

lemma op_bind_pure [simp]:
  "op_bind (op_return a) f s = f a s" "op_bind (op_gets g) f s = f (g s) s"
  "op_bind (op_modify h) f s = f () (h s)"
  by (simp_all add: op_bind_def)

lemma op_result_Inr: "op_result r s = (Inr a, s') \<longleftrightarrow> r s = Inr a \<and> s' = s"
  by (auto simp: op_result_def)

lemma op_result_Inl: "op_result r s = (Inl e, s') \<longleftrightarrow> r s = Inl e \<and> s' = s"
  by (auto simp: op_result_def)

lemma op_write_Inr: "op_write f s = (Inr u, s') \<longleftrightarrow> f s = Inr s'"
  by (auto simp: op_write_def split: sum.splits)

lemma op_write_Inl: "op_write f s = (Inl e, s') \<longleftrightarrow> f s = Inl e \<and> s' = s"
  by (auto simp: op_write_def split: sum.splits)

lemmas op_success = op_bind_Inr op_result_Inr op_write_Inr
lemmas op_failure = op_bind_Inl op_result_Inl op_write_Inl

text \<open>An operation keeps a property of the state whether it succeeds or fails.\<close>

definition keeps :: "('s \<Rightarrow> bool) \<Rightarrow> ('s, 'e, 'a) act \<Rightarrow> bool" where
  "keeps P m \<longleftrightarrow> (\<forall>s. P s \<longrightarrow> P (snd (m s)))"

lemma keepsD: "keeps P m \<Longrightarrow> P s \<Longrightarrow> P (snd (m s))"
  by (simp add: keeps_def)

named_theorems keeps_intros \<open>operations that keep a property of the state\<close>

lemma keeps_bind [keeps_intros]: "keeps P m \<Longrightarrow> (\<And>a. keeps P (f a)) \<Longrightarrow> keeps P (op_bind m f)"
  by (auto simp: keeps_def op_bind_def split: prod.split sum.split)

lemma keeps_pure [keeps_intros]:
  "keeps P (op_return a)" "keeps P (op_gets g)" "keeps P (op_result r)"
  by (simp_all add: keeps_def op_result_def)

lemma keeps_write: "(\<And>s s'. P s \<Longrightarrow> f s = Inr s' \<Longrightarrow> P s') \<Longrightarrow> keeps P (op_write f)"
  by (auto simp: keeps_def op_write_def split: sum.split)

lemma keeps_modify: "(\<And>s. P s \<Longrightarrow> P (f s)) \<Longrightarrow> keeps P (op_modify f)"
  by (simp add: keeps_def)

text \<open>A \<open>for\<close> loop over an operation.\<close>

fun op_iter :: "('a \<Rightarrow> ('s, 'e, unit) act) \<Rightarrow> 'a list \<Rightarrow> ('s, 'e, unit) act" where
  "op_iter f [] = op_return ()"
| "op_iter f (a # as) = op_bind (f a) (\<lambda>_. op_iter f as)"

lemma op_iter_append: "op_iter f (as @ bs) s = op_bind (op_iter f as) (\<lambda>_. op_iter f bs) s"
  by (induction as arbitrary: s) (auto simp: op_bind_def split: prod.splits sum.splits)

lemma keeps_iter [keeps_intros]: "(\<And>a. a \<in> set as \<Longrightarrow> keeps P (f a)) \<Longrightarrow> keeps P (op_iter f as)"
  by (induction as) (auto intro!: keeps_intros simp del: op_simps)

section \<open>Outpoints as text\<close>

definition show_outpoint :: "ext \<Rightarrow> OutPoint \<Rightarrow> string" where
  "show_outpoint x p = txid_to_string x (txid p) @ '':'' @ u32_to_string (vout p)"

definition parse_outpoint :: "ext \<Rightarrow> string \<Rightarrow> (Anyhow, OutPoint) result" where
  "parse_outpoint x s =
     rbind (ok_or (split_once CHR '':'' s) (MalformedOutpoint s)) (\<lambda>(t, v).
     rbind (ok_or (txid_from_str x t) (BadTxid t)) (\<lambda>t.
     rbind (ok_or (parse_u32 v) (BadVout v)) (\<lambda>v.
     Inr (OutPoint t v))))"

lemma parse_show_outpoint:
  assumes "txid_str_ok x"
  shows "parse_outpoint x (show_outpoint x p) = Inr p"
proof -
  have "split_once CHR '':'' (show_outpoint x p) = Some (txid_to_string x (txid p), u32_to_string (vout p))"
    using assms split_once_append by (simp add: show_outpoint_def txid_str_ok_def)
  then show ?thesis using assms by (simp add: parse_outpoint_def txid_str_ok_def)
qed

text \<open>\<open>parse_l1_block_hash\<close>: thirty-two bytes of hexadecimal, in the order printed.\<close>

definition parse_l1_block_hash :: "ext \<Rightarrow> string \<Rightarrow> (Anyhow, H256) result" where
  "parse_l1_block_hash x s =
     rbind (ok_or (hex_decode x s) BadHex) (\<lambda>bs.
     if length bs \<noteq> 32 then Inl (BadHashLength (length bs)) else Inr (from_be bs))"

lemma parse_l1_block_hash_hex: "hex_ok x \<Longrightarrow> parse_l1_block_hash x (hex_encode x (be_bytes 32 h)) = Inr h"
  by (simp add: parse_l1_block_hash_def hex_ok_decode)

section \<open>Answers to an HTTP client\<close>

text \<open>What a handler's result is to an HTTP client: an \<open>ApiError\<close> is status 500, a missing row
  404.\<close>

definition http :: "(Anyhow, 'a) result \<Rightarrow> (HttpError, 'a) result" where
  "http r = map_err (\<lambda>_. HttpStatus 500) r"

definition http_row :: "(Anyhow, 'a option) result \<Rightarrow> (HttpError, 'a) result" where
  "http_row r = rbind (http r) (\<lambda>v. ok_or v (HttpStatus 404))"

end
