(* ===== verification/Chain.thy ===== *)
theory Chain
  imports Effect
begin

text \<open>
  What an L2 chain is, independently of who holds it: a genesis block, then blocks whose
  heights count up by one, that name the hash of their predecessor and that carry the
  state root of the ledger their transactions lead to. The sequencer builds such a
  chain (theory \<open>ProducerCorrect\<close>) and a node accepts only such a chain
  (\<open>FollowerCorrect\<close>).
\<close>

definition genesis_ok :: "ext \<Rightarrow> L2Block \<Rightarrow> bool" where
  "genesis_ok x b \<longleftrightarrow> bh_height (header b) = 0 \<and>
     bh_state_root (header b) = state_root x (genesis_ledger (bh_fee_address (header b)))"

definition extends :: "ext \<Rightarrow> L2Block \<Rightarrow> LedgerState \<Rightarrow> L2Block \<Rightarrow> LedgerState \<Rightarrow> bool" where
  "extends x prev S b S' \<longleftrightarrow>
     bh_height (header b) = bh_height (header prev) + 1 \<and>
     Block.prev_hash (header b) = L2Block_hash x prev \<and>
     apply_txs x (txs b) S = Inr S' \<and> bh_state_root (header b) = state_root x S'"

inductive l2_chain :: "ext \<Rightarrow> L2Block list \<Rightarrow> LedgerState \<Rightarrow> bool" for x where
  root: "genesis_ok x b \<Longrightarrow> l2_chain x [b] (genesis_ledger (bh_fee_address (header b)))"
| extend: "l2_chain x bs S \<Longrightarrow> extends x (last bs) S b S' \<Longrightarrow> l2_chain x (bs @ [b]) S'"

inductive_cases l2_chain_snocE: "l2_chain x (bs @ [b]) S"

definition chain_txs :: "L2Block list \<Rightarrow> L2Tx list" where
  "chain_txs bs = concat (map txs (tl bs))"

lemma chain_not_Nil [simp]: "l2_chain x bs S \<Longrightarrow> bs \<noteq> []"
  by (induction rule: l2_chain.induct) auto

lemma chain_txs_snoc: "bs \<noteq> [] \<Longrightarrow> chain_txs (bs @ [b]) = chain_txs bs @ txs b"
  by (cases bs) (auto simp: chain_txs_def)

text \<open>A chain is a run of the ledger from genesis, so every invariant of runs holds of it.\<close>

lemma chain_run:
  "l2_chain x bs S \<Longrightarrow> ledger_run x (genesis_ledger (bh_fee_address (header (hd bs)))) (chain_txs bs) S"
proof (induction rule: l2_chain.induct)
  case (root b)
  then show ?case by (simp add: chain_txs_def ledger_run_iff)
next
  case (extend bs S b S')
  then show ?case
    by (simp add: chain_txs_snoc ledger_run_iff apply_txs_append extends_def hd_append)
qed

lemma chain_head_root: "l2_chain x bs S \<Longrightarrow> bh_state_root (header (last bs)) = state_root x S"
  by (induction rule: l2_chain.induct) (auto simp: genesis_ok_def extends_def)

lemma chain_fee: "l2_chain x bs S \<Longrightarrow> sequencer_fee_address S = bh_fee_address (header (hd bs))"
  using run_fee_address [OF chain_run] by fastforce

text \<open>As long as the 32-bit height has not wrapped, block \<open>i\<close> of a chain has height \<open>i\<close>.\<close>

lemma chain_heights:
  "l2_chain x bs S \<Longrightarrow> length bs \<le> 2 ^ 32 \<Longrightarrow> i < length bs \<Longrightarrow> unat (bh_height (header (bs ! i))) = i"
proof (induction arbitrary: i rule: l2_chain.induct)
  case (root b)
  then show ?case by (simp add: genesis_ok_def)
next
  case (extend bs S b S')
  show ?case
  proof (cases "i < length bs")
    case True
    then show ?thesis using extend by (simp add: nth_append)
  next
    case False
    have ne: "bs \<noteq> []" using extend.hyps(1) by simp
    with False extend.prems have i: "i = length bs" by simp
    have "unat (bh_height (header (last bs))) = length bs - 1"
      using extend.IH [of "length bs - 1"] extend.prems ne by (simp add: last_conv_nth)
    then have "unat (bh_height (header (last bs)) + 1) = length bs"
      using extend.prems ne unat_add_small [of "bh_height (header (last bs))" 1]
      by (simp add: Suc_le_eq)
    then show ?thesis using extend.hyps(2) i by (simp add: nth_append extends_def)
  qed
qed

lemma chain_links:
  "l2_chain x bs S \<Longrightarrow> Suc i < length bs \<Longrightarrow>
     Block.prev_hash (header (bs ! Suc i)) = L2Block_hash x (bs ! i)"
proof (induction arbitrary: i rule: l2_chain.induct)
  case (extend bs S b S')
  show ?case
  proof (cases "Suc i < length bs")
    case True
    then show ?thesis using extend by (simp add: nth_append)
  next
    case False
    with extend.prems have i: "length bs = Suc i" by simp
    then have "last bs = bs ! i" by (metis diff_Suc_1 last_conv_nth list.size(3) nat.distinct(1))
    then show ?thesis using extend.hyps(2) i by (simp add: nth_append extends_def)
  qed
qed simp

lemma chain_genesis: "l2_chain x bs S \<Longrightarrow> genesis_ok x (hd bs)"
  by (induction rule: l2_chain.induct) (auto simp: hd_append)

text \<open>The ledger is a function of the chain, and every prefix of a chain is one.\<close>

lemma chain_fun: "l2_chain x bs S \<Longrightarrow> l2_chain x bs T \<Longrightarrow> S = T"
  using chain_run [of x bs S] chain_run [of x bs T] by (simp add: ledger_run_iff)

lemma chain_step:
  "l2_chain x bs S \<Longrightarrow> 0 < k \<Longrightarrow> k < length bs \<Longrightarrow>
     \<exists>T T'. l2_chain x (take k bs) T \<and> extends x (bs ! (k - 1)) T (bs ! k) T' \<and> l2_chain x (take (Suc k) bs) T'"
proof (induction rule: l2_chain.induct)
  case (extend bs S b S')
  show ?case
  proof (cases "k < length bs")
    case True
    then show ?thesis using extend less_imp_diff_less [OF True, of 1] by (simp add: nth_append)
  next
    case False
    with extend.prems have k: "k = length bs" by simp
    moreover have "last bs = bs ! (k - 1)" using k extend.prems by (simp add: last_conv_nth)
    ultimately show ?thesis
      using extend.hyps l2_chain.extend [OF extend.hyps] extend.prems by (auto simp: nth_append)
  qed
qed simp

text \<open>Every mint in a block verifies against a view of L1.\<close>

definition mints_ok :: "ext \<Rightarrow> L1View \<Rightarrow> L2Tx list \<Rightarrow> bool" where
  "mints_ok x l1 ts \<longleftrightarrow> (\<forall>e. Mint e \<in> set ts \<longrightarrow> verify_mint_entry x l1 e = Inr ())"

lemma mints_ok_simps [simp]:
  "mints_ok x l1 []"
  "mints_ok x l1 (ts @ us) \<longleftrightarrow> mints_ok x l1 ts \<and> mints_ok x l1 us"
  "mints_ok x l1 (Mint e # ts) \<longleftrightarrow> verify_mint_entry x l1 e = Inr () \<and> mints_ok x l1 ts"
  "mints_ok x l1 (Transfer t # ts) \<longleftrightarrow> mints_ok x l1 ts"
  by (auto simp: mints_ok_def)

text \<open>The head's hash fixes every header below it: two chains of one length with the same head
  hash have the same headers, or two of their headers collide.\<close>

definition header_preimages :: "L2Block list \<Rightarrow> bytes list" where
  "header_preimages bs = map (header_preimage \<circ> header) bs"

lemma chain_head_binds:
  assumes "l2_chain x as S" and "l2_chain x bs T" and "length as = length bs"
    and "L2Block_hash x (last as) = L2Block_hash x (last bs)"
  shows "map header as = map header bs \<or> collides (sha256 x) (header_preimages as @ header_preimages bs)"
  using assms
proof (induction arbitrary: bs T rule: l2_chain.induct)
  case (root a)
  then obtain b where "bs = [b]" by (cases bs) auto
  then show ?case using root.prems block_hash_binds [of x "header a" "header b"]
    by (auto simp: L2Block_hash_def header_preimages_def)
next
  case (extend as S a S')
  have "as \<noteq> []" using extend.hyps(1) by simp
  obtain cs b where bs: "bs = cs @ [b]"
    using extend.prems(2) by (cases bs rule: rev_cases) auto
  with extend.prems(2) \<open>as \<noteq> []\<close> have "cs \<noteq> []" by auto
  then obtain U where U: "l2_chain x cs U" "extends x (last cs) U b T"
    using extend.prems(1) bs by (auto elim: l2_chain_snocE)
  have "header a = header b \<or> collides (sha256 x) [header_preimage (header a), header_preimage (header b)]"
    using extend.prems(3) bs block_hash_binds by (auto simp: L2Block_hash_def)
  then show ?case
  proof
    assume same: "header a = header b"
    then have "L2Block_hash x (last as) = L2Block_hash x (last cs)"
      using extend.hyps(2) U(2) by (simp add: extends_def)
    then have "map header as = map header cs \<or> collides (sha256 x) (header_preimages as @ header_preimages cs)"
      using extend.IH [OF U(1)] extend.prems(2) bs by simp
    then show ?thesis
    proof
      assume "map header as = map header cs"
      then show ?thesis using same bs by simp
    next
      assume c: "collides (sha256 x) (header_preimages as @ header_preimages cs)"
      have "set (header_preimages as @ header_preimages cs)
          \<subseteq> set (header_preimages (as @ [a]) @ header_preimages bs)"
        by (auto simp: header_preimages_def bs)
      then show ?thesis using collides_mono [OF c] by blast
    qed
  next
    assume c: "collides (sha256 x) [header_preimage (header a), header_preimage (header b)]"
    have "set [header_preimage (header a), header_preimage (header b)]
        \<subseteq> set (header_preimages (as @ [a]) @ header_preimages bs)"
      by (auto simp: header_preimages_def bs)
    then show ?thesis using collides_mono [OF c] by blast
  qed
qed

end
