(* ===== verification/Binding.thy ===== *)
theory Binding
  imports WalkCorrect Chain
begin

text \<open>What the roots commit to: the accounts root fixes every leaf, the state root fixes the whole
  ledger except the running mint total, and an L2 block hash with its transaction root fixes
  the block up to the claimed heights of its mints.\<close>

section \<open>The accounts root\<close>

definition leaf_preimages :: "ext \<Rightarrow> (XOnlyPublicKey \<Rightarrow> LeafKind) \<Rightarrow> (XOnlyPublicKey \<Rightarrow> LeafKind) \<Rightarrow>
    XOnlyPublicKey list \<Rightarrow> bytes list" where
  "leaf_preimages x L M as =
     concat (map (\<lambda>a. proof_preimages x (honest_proof x L a) @ proof_preimages x (honest_proof x M a)) as)"

lemma smt_root_binds:
  assumes "smt_root x L = smt_root x M"
  shows "(\<forall>a\<in>set as. L a = M a) \<or> collides (sha256 x) (leaf_preimages x L M as)"
proof (rule disjCI)
  assume no: "\<not> collides (sha256 x) (leaf_preimages x L M as)"
  show "\<forall>a\<in>set as. L a = M a"
  proof
    fix a assume a: "a \<in> set as"
    have "InclusionProof_verify x (honest_proof x L a) (smt_root x M)"
      using honest_proof_verifies [of x L a] assms by simp
    moreover have "set (proof_preimages x (honest_proof x L a) @ proof_preimages x (honest_proof x M a))
        \<subseteq> set (leaf_preimages x L M as)"
      using a by (auto simp: leaf_preimages_def)
    then have "\<not> collides (sha256 x) (proof_preimages x (honest_proof x L a) @ proof_preimages x (honest_proof x M a))"
      using no collides_mono by blast
    ultimately have "honest_proof x L a = honest_proof x M a"
      using verify_sound [of x "honest_proof x L a" M] by (auto simp: honest_proof_def)
    then show "L a = M a" by (simp add: honest_proof_def)
  qed
qed

section \<open>The state root\<close>

definition all_addresses :: "LedgerState \<Rightarrow> LedgerState \<Rightarrow> L2Address list" where
  "all_addresses S T = sorted_list_of_fset (fmdom (accounts S) |\<union>| fmdom (accounts T))"

definition state_preimages :: "ext \<Rightarrow> LedgerState \<Rightarrow> LedgerState \<Rightarrow> bytes list" where
  "state_preimages x S T =
     [components_preimage (components x S), components_preimage (components x T),
      nullifiers_preimage (consumed_nullifiers S), nullifiers_preimage (consumed_nullifiers T)] @
     leaf_preimages x (leaf_of S) (leaf_of T) (all_addresses S T)"

lemma same_leaves_same_accounts:
  assumes "\<forall>a\<in>set (all_addresses S T). leaf_of S a = leaf_of T a"
  shows "accounts S = accounts T"
proof (rule fmap_ext)
  fix a
  show "fmlookup (accounts S) a = fmlookup (accounts T) a"
  proof (cases "a |\<in>| fmdom (accounts S) |\<union>| fmdom (accounts T)")
    case True
    then have "leaf_of S a = leaf_of T a" using assms by (auto simp: all_addresses_def)
    then show ?thesis by (auto simp: leaf_of_def split: option.splits)
  next
    case False
    then show ?thesis by (metis fmdom_notD funionCI)
  qed
qed

lemma state_root_binds:
  assumes "state_root x S = state_root x T"
    and n: "0 < n" "fBall (consumed_nullifiers S) (\<lambda>s. length s = n)" "fBall (consumed_nullifiers T) (\<lambda>s. length s = n)"
  shows "S\<lparr>total_minted_atoms := total_minted_atoms T\<rparr> = T \<or> collides (sha256 x) (state_preimages x S T)"
proof (rule disjCI)
  assume no: "\<not> collides (sha256 x) (state_preimages x S T)"
  have comps: "components x S = components x T"
    using components_binding [of x "components x S" "components x T"] assms(1) no
    by (auto simp: state_root_def state_preimages_def dest: collides_append(1))
  then have "nullifiers_hash x S = nullifiers_hash x T" "accounts_root x S = accounts_root x T"
    and fee: "sequencer_fee_address S = sequencer_fee_address T"
    by (simp_all add: components_def)
  have "nullifiers_preimage (consumed_nullifiers S) = nullifiers_preimage (consumed_nullifiers T)"
    by (rule not_collidesD [OF no])
      (use \<open>nullifiers_hash x S = nullifiers_hash x T\<close> in
        \<open>auto simp: state_preimages_def nullifiers_hash_def nullifiers_hash_of_def\<close>)
  then have nulls: "consumed_nullifiers S = consumed_nullifiers T"
    by (rule nullifiers_preimage_inj [OF n])
  have "\<not> collides (sha256 x) (leaf_preimages x (leaf_of S) (leaf_of T) (all_addresses S T))"
    using no collides_append(2) [of "sha256 x" "leaf_preimages x (leaf_of S) (leaf_of T) (all_addresses S T)"]
    unfolding state_preimages_def by blast
  then have "accounts S = accounts T"
    using smt_root_binds [of x "leaf_of S" "leaf_of T"] \<open>accounts_root x S = accounts_root x T\<close>
    by (intro same_leaves_same_accounts) (auto simp: accounts_root_eq)
  with nulls fee show "S\<lparr>total_minted_atoms := total_minted_atoms T\<rparr> = T"
    by (cases S; cases T) simp
qed

section \<open>Blocks\<close>

definition block_preimages :: "ext \<Rightarrow> L2Block \<Rightarrow> bytes list" where
  "block_preimages x b = header_preimage (header b) # body_preimages x (txs b)"

lemma block_commitment:
  assumes "L2Block_hash x a = L2Block_hash x b"
    and "txs_root (header a) = compute_txs_root x (txs a)" and "txs_root (header b) = compute_txs_root x (txs b)"
    and "list_all short_nullifier (txs a)" and "list_all short_nullifier (txs b)"
  shows "header a = header b \<and> map erase_claim (txs a) = map erase_claim (txs b) \<or>
    collides (sha256 x) (block_preimages x a @ block_preimages x b)"
proof (rule disjCI)
  assume no: "\<not> collides (sha256 x) (block_preimages x a @ block_preimages x b)"
  have "header_preimage (header a) = header_preimage (header b)"
    by (rule not_collidesD [OF no]) (use assms(1) in \<open>auto simp: block_preimages_def L2Block_hash_def block_hash_def\<close>)
  then have h: "header a = header b" by (simp add: header_preimage_inj)
  have "set (body_preimages x (txs a) @ body_preimages x (txs b)) \<subseteq> set (block_preimages x a @ block_preimages x b)"
    by (auto simp: block_preimages_def)
  then have "\<not> collides (sha256 x) (body_preimages x (txs a) @ body_preimages x (txs b))"
    using no collides_mono by blast
  then show "header a = header b \<and> map erase_claim (txs a) = map erase_claim (txs b)"
    using h txs_root_binds [of x "txs a" "txs b"] assms(2-5) by auto
qed

section \<open>Deposits\<close>

text \<open>The deposits a list of transactions mints from.\<close>

definition mint_outpoints :: "L2Tx list \<Rightarrow> OutPoint list" where
  "mint_outpoints ts = concat (map (\<lambda>tx. case tx of Mint e \<Rightarrow> [pf_outpoint (entry_proof e)] | Transfer _ \<Rightarrow> []) ts)"

lemma nullifiers_of_deposits:
  "mints_ok x l1 ts \<Longrightarrow> nullifiers ts = map (\<lambda>p. hex_encode x (outpoint_nullifier p)) (mint_outpoints ts)"
proof (induction ts)
  case (Cons tx ts)
  then show ?case
  proof (cases tx)
    case (Mint e)
    then obtain out where "event e = credit_event (outpoint_credit x (entry_proof e) (l2_destination (event e)) out)"
      using Cons.prems by (auto simp: verify_mint_entry_eq)
    from arg_cong [OF this, of nullifier_hex]
    have "nullifier_hex (event e) = hex_encode x (outpoint_nullifier (pf_outpoint (entry_proof e)))"
      by (simp add: outpoint_credit_def)
    then show ?thesis using Cons Mint by (simp add: nullifiers_def mint_outpoints_def)
  qed (use Cons in \<open>simp_all add: nullifiers_def mint_outpoints_def\<close>)
qed (simp add: nullifiers_def mint_outpoints_def)

text \<open>Verified nullifiers have one length, the 36 bytes of an outpoint in hexadecimal.\<close>

lemma verified_nullifier_length:
  assumes "hex_ok x" and "ledger_run x (genesis_ledger fee) ts S" and "mints_ok x l1 ts"
  shows "fBall (consumed_nullifiers S) (\<lambda>s. length s = 72)"
proof -
  have "fset (consumed_nullifiers S) = set (nullifiers ts)"
    using genesis_runs(2) [OF assms(2)] by (simp add: nullifiers_spent_def)
  then show ?thesis
    using nullifiers_of_deposits [OF assms(3)] hex_ok_length [OF assms(1)]
    by auto
qed

end
