(* ===== verification/Transfers.thy ===== *)
theory Transfers
  imports Ledger
begin

text \<open>The exact effect of a transfer on every account, in natural numbers: below the bound on the
  supply no saturation is reachable.\<close>

lemma balance_credit:
  assumes "total_supply S + unat n < 2 ^ 64"
  shows "unat (acc_balance (acct (with_entry a (credit n) S) b)) =
    unat (acc_balance (acct S b)) + (if a = b then unat n else 0)"
  using assms balance_le_supply [of S b] by (auto simp: credit_def rust_arith)

definition paid_by :: "TransferBody \<Rightarrow> L2Address \<Rightarrow> nat" where
  "paid_by b a = (if a = tb_from b then unat (tb_amount b) + fee_nat (unat (tb_amount b)) else 0)"

definition received_by :: "L2Address option \<Rightarrow> TransferBody \<Rightarrow> L2Address \<Rightarrow> nat" where
  "received_by fee b a = (if a = tb_to b then unat (tb_amount b) else 0) +
     (if fee = Some a then fee_nat (unat (tb_amount b)) else 0)"

lemma transfer_balances:
  assumes ok: "transfer_ok x t S" and bound: "total_supply S < 2 ^ 64 - 1"
  shows "unat (balance_of (transfer_post (body t) S) a) + paid_by (body t) a =
    unat (balance_of S a) + received_by (sequencer_fee_address S) (body t) a"
proof -
  let ?b = "body t"
  let ?paid = "sat_add (tb_amount ?b) (transfer_fee (tb_amount ?b))"
  define S1 where "S1 = with_entry (tb_from ?b) (debit ?paid) S"
  define S2 where "S2 = with_entry (tb_to ?b) (credit (tb_amount ?b)) S1"
  have paid: "unat ?paid = unat (tb_amount ?b) + fee_nat (unat (tb_amount ?b))"
    by (rule transfer_paid [OF ok bound])
  have le: "?paid \<le> acc_balance (acct S (tb_from ?b))"
    using ok by (simp add: transfer_ok_def balance_of_acct)
  then have sup: "total_supply S1 + unat ?paid = total_supply S" by (simp add: S1_def supply_debit)
  have b1: "unat (acc_balance (acct S1 a)) + paid_by ?b a = unat (acc_balance (acct S a))"
    using le paid by (auto simp: S1_def debit_def paid_by_def rust_arith word_le_nat_alt)
  have b2: "unat (acc_balance (acct S2 a)) =
      unat (acc_balance (acct S1 a)) + (if a = tb_to ?b then unat (tb_amount ?b) else 0)"
    using balance_credit [of S1 "tb_amount ?b" "tb_to ?b" a] sup paid bound by (simp add: S2_def)
  have sup2: "total_supply S2 = total_supply S1 + unat (tb_amount ?b)"
    unfolding S2_def using sup paid bound by (intro supply_credit) simp
  have b3: "unat (acc_balance (acct (with_entry f (credit (transfer_fee (tb_amount ?b))) S2) a)) =
      unat (acc_balance (acct S2 a)) + (if f = a then fee_nat (unat (tb_amount ?b)) else 0)" for f
    using balance_credit [of S2 "transfer_fee (tb_amount ?b)" f a] sup sup2 paid bound
    by (simp add: unat_transfer_fee)
  have post: "transfer_post ?b S = (case sequencer_fee_address S of
      Some f \<Rightarrow> with_entry f (credit (transfer_fee (tb_amount ?b))) S2 | None \<Rightarrow> S2)"
    by (simp add: transfer_post_def S1_def S2_def Let_def cong: option.case_cong)
  show ?thesis
  proof (cases "sequencer_fee_address S")
    case None
    with post b1 b2 show ?thesis by (simp add: balance_of_acct received_by_def)
  next
    case (Some f)
    with post b1 b2 b3 [of f] show ?thesis
      by (simp add: balance_of_acct received_by_def del: with_entry_simps)
  qed
qed

end
