(* ===== verification/Address.thy ===== *)
theory Address
  imports Hash
begin

text \<open>\<open>hodl-core/src/config.rs\<close> (network names) and \<open>hodl-core/src/address.rs\<close>: the
  Bech32m form of an L2 address, with the network class carried by the human-readable
  prefix. Bech32 itself belongs to the \<open>bech32\<close> crate.\<close>

datatype NetworkName = Bitcoin | Testnet | Signet | Regtest

primrec into_bitcoin :: "NetworkName \<Rightarrow> Network" where
  "into_bitcoin Bitcoin = NetBitcoin"
| "into_bitcoin Testnet = NetTestnet"
| "into_bitcoin Signet = NetSignet"
| "into_bitcoin Regtest = NetRegtest"

definition to_ascii_lowercase :: "string \<Rightarrow> string" where
  "to_ascii_lowercase s =
     map (\<lambda>c. let k = (of_char c :: nat) in if 65 \<le> k \<and> k \<le> 90 then char_of (k + 32) else c) s"

definition from_str_ci :: "string \<Rightarrow> NetworkName option" where
  "from_str_ci s =
     (let l = to_ascii_lowercase s
      in if l = ''bitcoin'' \<or> l = ''mainnet'' \<or> l = ''main'' then Some Bitcoin
         else if l = ''testnet'' \<or> l = ''test'' then Some Testnet
         else if l = ''signet'' then Some Signet
         else if l = ''regtest'' then Some Regtest
         else None)"

definition slip44_coin_type :: "NetworkName \<Rightarrow> u32" where
  "slip44_coin_type n = (case n of Bitcoin \<Rightarrow> 0 | _ \<Rightarrow> 1)"

datatype AddressClass = ClassMainnet | ClassTestnetOrSignet | ClassRegtest

definition HRP_MAINNET :: string where "HRP_MAINNET = ''hc''"
definition HRP_TEST :: string where "HRP_TEST = ''thc''"
definition HRP_REGTEST :: string where "HRP_REGTEST = ''hcrt''"

primrec class_of :: "NetworkName \<Rightarrow> AddressClass" where
  "class_of Bitcoin = ClassMainnet"
| "class_of Testnet = ClassTestnetOrSignet"
| "class_of Signet = ClassTestnetOrSignet"
| "class_of Regtest = ClassRegtest"

primrec hrp :: "AddressClass \<Rightarrow> string" where
  "hrp ClassMainnet = HRP_MAINNET"
| "hrp ClassTestnetOrSignet = HRP_TEST"
| "hrp ClassRegtest = HRP_REGTEST"

definition from_hrp :: "string \<Rightarrow> AddressClass option" where
  "from_hrp s =
     (if s = HRP_MAINNET then Some ClassMainnet
      else if s = HRP_TEST then Some ClassTestnetOrSignet
      else if s = HRP_REGTEST then Some ClassRegtest
      else None)"

datatype AddressError =
  Bech32Error | WrongHrp string string | UnknownHrp string | WrongLength nat | InvalidPubkey

definition address_encode :: "ext \<Rightarrow> XOnlyPublicKey \<Rightarrow> NetworkName \<Rightarrow> string" where
  "address_encode x addr network = bech32m_encode x (hrp (class_of network)) (serialize addr)"

definition address_decode ::
    "ext \<Rightarrow> string \<Rightarrow> (AddressError, XOnlyPublicKey \<times> AddressClass) result" where
  "address_decode x s =
     (case bech32_decode x s of
        None \<Rightarrow> Inl Bech32Error
      | Some (h, data) \<Rightarrow>
          (case from_hrp h of
             None \<Rightarrow> Inl (UnknownHrp h)
           | Some class \<Rightarrow>
               if length data \<noteq> 32 then Inl (WrongLength (length data))
               else (case xonly_from_slice x data of
                       None \<Rightarrow> Inl InvalidPubkey
                     | Some pk \<Rightarrow> Inr (pk, class))))"

definition decode_for ::
    "ext \<Rightarrow> string \<Rightarrow> NetworkName \<Rightarrow> (AddressError, XOnlyPublicKey) result" where
  "decode_for x s network =
     rbind (address_decode x s) (\<lambda>(pk, class).
       if class \<noteq> class_of network then Inl (WrongHrp (hrp (class_of network)) (hrp class))
       else Inr pk)"

section \<open>Round trip and network separation\<close>

text \<open>What the address codec relies on: the Bech32 crate decodes what it encodes, and a
  32-byte serialisation of a valid key parses to that key.\<close>

definition bech32_ok :: "ext \<Rightarrow> bool" where
  "bech32_ok x \<longleftrightarrow> (\<forall>c bs. length bs = 32 \<longrightarrow>
     bech32_decode x (bech32m_encode x (hrp c) bs) = Some (hrp c, bs))"

definition key_valid :: "ext \<Rightarrow> XOnlyPublicKey \<Rightarrow> bool" where
  "key_valid x pk \<longleftrightarrow> xonly_from_slice x (serialize pk) = Some pk"

lemma from_hrp_hrp [simp]: "from_hrp (hrp c) = Some c"
  by (cases c) (auto simp: from_hrp_def HRP_MAINNET_def HRP_TEST_def HRP_REGTEST_def)

lemma from_hrp_eq_Some: "from_hrp s = Some c \<longleftrightarrow> s = hrp c"
  by (cases c) (auto simp: from_hrp_def HRP_MAINNET_def HRP_TEST_def HRP_REGTEST_def)

lemma address_decode_encode:
  "bech32_ok x \<Longrightarrow> key_valid x pk \<Longrightarrow>
     address_decode x (address_encode x pk n) = Inr (pk, class_of n)"
  by (simp add: address_decode_def address_encode_def bech32_ok_def key_valid_def)

lemma decode_for_encode:
  "bech32_ok x \<Longrightarrow> key_valid x pk \<Longrightarrow>
     decode_for x (address_encode x pk n) m =
       (if class_of n = class_of m then Inr pk
        else Inl (WrongHrp (hrp (class_of m)) (hrp (class_of n))))"
  by (auto simp: decode_for_def address_decode_encode)

lemma address_encode_inj:
  "bech32_ok x \<Longrightarrow> key_valid x p \<Longrightarrow> key_valid x q \<Longrightarrow>
     address_encode x p n = address_encode x q m \<Longrightarrow> p = q \<and> class_of n = class_of m"
  using address_decode_encode [of x p n] address_decode_encode [of x q m] by simp

lemma one_notin_hrp: "CHR ''1'' \<notin> set (hrp c)"
  by (cases c) (auto simp: HRP_MAINNET_def HRP_TEST_def HRP_REGTEST_def)

lemma bech32_ok_toy: "bech32_ok toy_ext"
  by (auto simp: bech32_ok_def toy_ext_def split_once_append one_notin_hrp bytes_of_def o_def of_char_of_u8)

lemma key_valid_toy: "key_valid toy_ext pk"
  by (simp add: key_valid_def toy_ext_def) (simp add: serialize_def)

text \<open>Every spelling the parser accepts names a network, upper case included.\<close>

lemma from_str_ci_cases:
  "from_str_ci s = Some n \<longleftrightarrow>
     to_ascii_lowercase s \<in> (case n of Bitcoin \<Rightarrow> {''bitcoin'', ''mainnet'', ''main''}
       | Testnet \<Rightarrow> {''testnet'', ''test''} | Signet \<Rightarrow> {''signet''} | Regtest \<Rightarrow> {''regtest''})"
  by (cases n) (auto simp: from_str_ci_def Let_def)

end
