(* ===== verification/Sample.thy ===== *)
theory Sample
  imports LightClientCorrect Address OpReturn
begin

text \<open>
  A concrete scenario for closed witnesses: two keys, one confirmed deposit and the mint it
  authorises, the ledger before and after it, the block that carries it, and a server and
  an L1 endpoint that show them. Everything is built on \<open>toy_ext\<close>.
\<close>

definition alice :: XOnlyPublicKey where "alice = XOnly 1"
definition bob :: XOnlyPublicKey where "bob = XOnly 2"

lemma alice_bob [simp]: "alice \<noteq> bob" "bob \<noteq> alice"
  by (simp_all add: alice_def bob_def)

section \<open>A deposit and its mint\<close>

definition deposit :: OutPoint where "deposit = OutPoint 7 0"

definition deposit_spk :: Script where
  "deposit_spk = (case expected_p2tr_spk toy_ext 144 alice of Inr s \<Rightarrow> s | Inl _ \<Rightarrow> [])"

definition deposit_output :: L1Output where
  "deposit_output = \<lparr> value_sat = 1000, script_pubkey = deposit_spk, confirmed_height = 100, confirmations = 1 \<rparr>"

definition sample_l1 :: L1View where
  "sample_l1 = \<lparr> get_output = [deposit \<mapsto> deposit_output], tip_height = 100 \<rparr>"

definition sample_proof :: OutpointProof where
  "sample_proof = \<lparr> pf_outpoint = deposit, pf_user_pk = alice, pf_lock_blocks = 144,
     pf_claimed_height = 100,
     pf_signature = word_cat (mint_sighash toy_ext deposit 100 alice) (xonly_word alice) \<rparr>"

definition sample_entry :: MintEntry where
  "sample_entry = \<lparr> event = credit_event (outpoint_credit toy_ext sample_proof alice deposit_output),
     witness = V0Outpoint sample_proof \<rparr>"

lemma lock_144: "lock_in_range 144"
  by (simp add: lock_in_range_def)

lemma deposit_spk_expected: "expected_p2tr_spk toy_ext 144 alice = Inr deposit_spk"
  using expected_p2tr_spk_in_range [OF lock_144, of toy_ext alice] by (auto simp: deposit_spk_def)

text \<open>With an exponential of 0 the ratio is the upper clamp, and a deposit below \<open>2 ^ 52\<close>
  satoshi mints all but one of its atoms.\<close>

lemma toy_ratio: "mint_ratio toy_ext t = 1 - 1 / 2 ^ 52"
  by (simp add: mint_ratio_def toy_ext_def fl_one_minus_epsilon f64_clamp_def)

lemma toy_mint_1000:
  assumes "t \<noteq> 0"
  shows "mint_fn toy_ext 1000 t = 999"
proof -
  have lt: "unat (mint_fn toy_ext 1000 t) < 1000"
    using mint_fn_less [of 1000 toy_ext t] by (simp add: word_less_nat_alt)
  define y where "y = fl (fl (u64_as_f64 1000 * mint_ratio toy_ext t))"
  have "u64_as_f64 1000 = 1000" using fl_int_exact [of 1000] by (simp add: u64_as_f64_def)
  then have prod: "999 \<le> u64_as_f64 1000 * mint_ratio toy_ext t" by (simp add: toy_ratio)
  then have "fl 999 \<le> fl (u64_as_f64 1000 * mint_ratio toy_ext t)"
    by (intro fl_mono_nonneg) auto
  then have "fl (fl 999) \<le> y" unfolding y_def
    using prod by (intro fl_mono_nonneg fl_nonneg) auto
  moreover have "fl 999 = 999" using fl_int_exact [of 999] by simp
  ultimately have y: "999 \<le> y" by simp
  have m: "mint_fn toy_ext 1000 t = f64_as_u64 (of_int \<lfloor>y\<rfloor>)"
    using assms by (simp add: mint_fn_def y_def)
  have "f64_as_u64 999 \<le> f64_as_u64 (of_int \<lfloor>y\<rfloor>)"
    using y by (intro f64_as_u64_mono) (simp add: le_floor_iff)
  moreover have "unat (f64_as_u64 999) = 999" by (simp add: unat_f64_as_u64)
  ultimately have "999 \<le> unat (mint_fn toy_ext 1000 t)"
    using m by (simp add: word_le_nat_alt)
  with lt have "unat (mint_fn toy_ext 1000 t) = unat (999 :: u64)" by simp
  then show ?thesis by (simp only: word_unat_eq_iff)
qed

lemma sample_accepted: "outpoint_accepts toy_ext sample_l1 sample_proof alice deposit_output"
  by (simp add: outpoint_accepts_def sample_l1_def sample_proof_def deposit_output_def lock_144
      MINT_CONFIRMATIONS_def deposit_spk_expected toy_mint_1000 sat_add_def)
    (simp add: toy_ext_def)

lemma sample_entry_valid: "verify_mint_entry toy_ext sample_l1 sample_entry = Inr ()"
  using sample_accepted
  by (auto simp: verify_mint_entry_eq sample_entry_def entry_proof_def outpoint_credit_def)

lemma sample_event:
  "ev_amount (event sample_entry) = 999" "l2_destination (event sample_entry) = alice"
  "nullifier_hex (event sample_entry) = hex_encode toy_ext (outpoint_nullifier deposit)"
  by (simp_all add: sample_entry_def outpoint_credit_def sample_proof_def deposit_output_def toy_mint_1000)

section \<open>Ledgers\<close>

definition ledger0 :: LedgerState where "ledger0 = genesis_ledger (Some bob)"

definition ledger1 :: LedgerState where "ledger1 = mint_post (event sample_entry) ledger0"

definition sample_body :: TransferBody where
  "sample_body = \<lparr> tb_from = alice, tb_to = bob, tb_amount = 500, tb_nonce = 0 \<rparr>"

definition sample_transfer :: SignedTransfer where
  "sample_transfer = \<lparr> body = sample_body,
     signature = word_cat (transfer_sighash toy_ext sample_body) (xonly_word alice) \<rparr>"

definition ledger2 :: LedgerState where "ledger2 = transfer_post sample_body ledger1"

definition sample_txs :: "L2Tx list" where
  "sample_txs = [Mint sample_entry, Transfer sample_transfer]"

lemma apply_sample_mint: "apply_tx toy_ext (Mint sample_entry) ledger0 = Inr ledger1"
  by (simp add: apply_tx_eq sample_event ledger1_def ledger0_def genesis_ledger_def LedgerState_new_def)

lemma acct_ledger0: "acct ledger0 a = Account_default"
  by (simp add: ledger0_def genesis_ledger_def LedgerState_new_def acct_def)

lemma acct_ledger1: "acct ledger1 alice = \<lparr> acc_balance = 999, acc_nonce = 0 \<rparr>"
  by (simp add: ledger1_def mint_post_def sample_event acct_ledger0 credit_def Account_default_def)

lemma fee_500: "transfer_fee 500 = 100" "sat_add 500 (100 :: u64) = 600"
  by (simp_all add: transfer_fee_def MIN_FEE_def FEE_BPS_def sat_mul_def max_def sat_add_def)

lemma sample_transfer_ok: "transfer_ok toy_ext sample_transfer ledger1"
  by (simp add: transfer_ok_def sample_transfer_def sample_body_def nonce_of_acct balance_of_acct
      acct_ledger1 fee_500)
    (simp add: toy_ext_def)

lemma apply_sample_transfer: "apply_tx toy_ext (Transfer sample_transfer) ledger1 = Inr ledger2"
  using sample_transfer_ok by (simp add: apply_tx_eq ledger2_def sample_transfer_def)

lemma apply_sample_txs: "apply_txs toy_ext sample_txs ledger0 = Inr ledger2"
  by (simp add: sample_txs_def apply_sample_mint apply_sample_transfer)

lemma sample_run: "ledger_run toy_ext (genesis_ledger (Some bob)) sample_txs ledger2"
  using apply_sample_txs by (simp add: ledger_run_iff ledger0_def)

lemma fee_address_ledger [simp]: "sequencer_fee_address ledger0 = Some bob" "sequencer_fee_address ledger1 = Some bob"
  by (simp_all add: ledger0_def ledger1_def)

section \<open>A chain of one block, and who serves it\<close>

definition genesis_block :: L2Block where
  "genesis_block = genesis toy_ext 5 90 1700000000 (OutPoint 6 1) (Some bob) (Some bob)"

definition block1 :: L2Block where
  "block1 = \<lparr> header = \<lparr> bh_height = 1, prev_hash = L2Block_hash toy_ext genesis_block,
      l1_block_hash = 8, l1_height = 100, txs_root = compute_txs_root toy_ext sample_txs,
      bh_state_root = state_root toy_ext ledger2, timestamp = 1700000600, anchor_outpoint = None,
      bh_producer = Some bob, bh_fee_address = None \<rparr>, txs = sample_txs \<rparr>"

definition witness1 :: BlockWitness where
  "witness1 = BlockWitness_build toy_ext ledger0 sample_txs 1"

definition attestation1 :: Attestation where
  "attestation1 = Attestation_new 1 (L2Block_hash toy_ext block1) (state_root toy_ext ledger2)"

definition sample_service :: Service where
  "sample_service = \<lparr>
     srv_submit_mint = (\<lambda>_. Inl HttpSend), srv_submit_transfer = (\<lambda>_. Inl HttpSend),
     srv_block = (\<lambda>h. if h = 0 then Inr genesis_block else if h = 1 then Inr block1 else Inl (HttpStatus 404)),
     srv_head = Inl HttpSend,
     srv_balance = (\<lambda>a. Inr \<lparr> br_address = a, br_balance = balance_of ledger2 a,
        br_nonce = nonce_of ledger2 a, br_effective_nonce = nonce_of ledger2 a, br_l2_height = 1,
        br_state_root = state_root toy_ext ledger2, br_components = components toy_ext ledger2,
        br_proof = account_inclusion_proof toy_ext ledger2 a,
        br_total_minted = total_minted_atoms ledger2 \<rparr>),
     srv_witness = (\<lambda>h. if h = 1 then Inr witness1 else Inl (HttpStatus 404)),
     srv_nullifiers = Inr (sorted_list_of_fset (consumed_nullifiers ledger2)) \<rparr>"

definition sample_api :: ApiClient where
  "sample_api = \<lparr> sequencer_url = sample_service, node_url = Some sample_service \<rparr>"

definition sample_esplora :: EsploraClient where
  "sample_esplora = \<lparr>
     get_tx = (\<lambda>t. if t = 7 then Inr \<lparr> et_vout = [\<lparr> scriptpubkey = hex_encode toy_ext deposit_spk,
                        vout_value = 1000 \<rparr>], et_block_height = Some 100 \<rparr>
                   else if t = 9 then Inr \<lparr> et_vout =
                        [\<lparr> scriptpubkey = hex_encode toy_ext (attestation_to_script toy_ext attestation1),
                           vout_value = 0 \<rparr>, \<lparr> scriptpubkey = [], vout_value = 1000 \<rparr>],
                        et_block_height = Some 101 \<rparr>
                   else Inl (HttpStatus 404)),
     get_outspend = (\<lambda>t v. if t = 6 \<and> v = 1
        then Inr \<lparr> spent = True, os_txid = Some (txid_to_string toy_ext 9), os_block_height = Some 101 \<rparr>
        else Inr \<lparr> spent = False, os_txid = None, os_block_height = None \<rparr>),
     tx_exists = (\<lambda>t. Inr (t = 6 \<or> t = 9)),
     es_tip_height = Inr 100,
     address_utxos = (\<lambda>_. Inr []) \<rparr>"

definition blank_head :: VerifiedHead where
  "blank_head = \<lparr> vh_state_root = 0, vh_accounts_root = 0, vh_l2_height = 0, vh_block_hash = 0,
     vh_l1_height = 90, vh_anchor = OutPoint 6 1, vh_own_address = alice, vh_own_leaf = LeafEmpty,
     vh_own_path = [], vh_nullifiers = {||}, vh_total_minted = 0, vh_fee_address = None \<rparr>"

definition head0 :: VerifiedHead where
  "head0 = full_result toy_ext blank_head 0 genesis_block ledger0"

lemma head0_matches: "head_matches toy_ext head0 ledger0"
  unfolding head0_def by (rule full_result_matches)

lemma head0_simps [simp]:
  "vh_l2_height head0 = 0" "vh_block_hash head0 = L2Block_hash toy_ext genesis_block"
  "vh_anchor head0 = OutPoint 6 1" "vh_own_address head0 = alice"
  by (simp_all add: head0_def full_result_def blank_head_def)

lemma sample_served:
  "api_get_block sample_api 1 = Inr block1"
  "api_get_witness sample_api 1 = Inr (BlockWitness_build toy_ext ledger0 (txs block1) 1)"
  by (simp_all add: api_get_block_def api_get_witness_def api_base_def sample_api_def sample_service_def
      witness1_def block1_def)

lemma toy_hex: "hex_decode toy_ext (hex_encode toy_ext bs) = Some bs"
  using hex_ok_toy by (rule hex_ok_decode)

lemma sample_prefetch: "prefetch_l1_for_block toy_ext sample_esplora block1 100 = Inr sample_l1"
  by (simp add: prefetch_l1_for_block_def block1_def sample_txs_def prefetch_entry_def sample_entry_def
      sample_proof_def deposit_def sample_esplora_def toy_hex sample_l1_def deposit_output_def Let_def
      sat_sub_def sat_add_def)

lemma sample_mints: "verify_mints toy_ext sample_l1 (txs block1) = Inr ()"
  by (simp add: verify_mints_def block1_def sample_txs_def sample_entry_valid)

lemma sample_step:
  "att = None \<or> att = Some attestation1 \<Longrightarrow>
   verify_one_l2_block toy_ext head0 1 att 100 sample_api sample_esplora ev =
     Inr (full_result toy_ext head0 1 block1 ledger2,
          ev @ concat (map (tx_events toy_ext alice 1 (header block1)) (txs block1)))"
  using verify_one_complete [OF head0_matches sample_served _ _ _ _ _ _ sample_prefetch sample_mints,
      where att = att and ev = ev and S' = ledger2] apply_sample_txs
  by (auto simp: block1_def attestation1_def Attestation_new_def)

section \<open>The walk over the sample chain\<close>

definition sample_chain_step :: ChainStep where
  "sample_chain_step = \<lparr> cs_attestation = attestation1, cs_l1_height = 101, new_anchor = OutPoint 9 1 \<rparr>"

lemma sample_chain: "attestation_chain toy_ext sample_esplora (OutPoint 6 1) [sample_chain_step]"
proof (intro chain_link chain_tip)
  have "txid_from_str toy_ext (txid_to_string toy_ext 9) = Some 9"
    using txid_str_ok_toy by (simp add: txid_str_ok_def)
  moreover have "try_from_script toy_ext (attestation_to_script toy_ext attestation1) = Inr (Some attestation1)"
    by (rule try_from_script_to_script [OF push_ok_toy]) (simp add: attestation1_def Attestation_new_def)
  ultimately show "walk_step toy_ext sample_esplora (OutPoint 6 1) = Inr (Some sample_chain_step)"
    by (simp add: walk_step_def sample_esplora_def toy_hex sample_chain_step_def)
qed (simp add: walk_step_def sample_esplora_def sample_chain_step_def)

lemma sample_walk:
  "\<exists>head' ev. walk_forward toy_ext head0 sample_api sample_esplora = Some (Inr (head', 1, ev)) \<and>
     vh_l2_height head' = 1"
proof -
  have "walk_attestation_chain toy_ext sample_esplora (vh_anchor head0) = Some (Inr [sample_chain_step])"
    using sample_chain by (simp add: walk_attestation_chain_eq sample_esplora_def)
  moreover have "heights 1 1 = [1]" by (simp add: heights_def)
  ultimately show ?thesis
    using sample_step [of "Some attestation1" "[]"]
    by (simp add: walk_forward_def walk_forward_from_def sample_esplora_def [THEN arg_cong, of es_tip_height]
        walk_one_step_def sample_chain_step_def Let_def attestation1_def Attestation_new_def full_result_def)
qed

end
