(* ===== verification/CoreProperties.thy ===== *)
theory CoreProperties
  imports Binding Transfers Sample
begin

text \<open>The properties of the ledger: its supply, deposits and mint proofs, transfers and the mint function. Each property that has hypotheses is followed by its
  application to the scenario of theory \<open>Sample\<close>.\<close>

section \<open>The ledger\<close>

text \<open>C8: conservation of value. After any run from genesis that mints less than \<open>2 ^ 64 - 1\<close>
  atoms, the running total is the sum of the mints and every minted atom is in exactly one
  balance, except the fees burned on a chain without a fee address.\<close>

theorem supply_conserved:
  assumes "ledger_run x (genesis_ledger fee) ts S" and "minted ts < 2 ^ 64 - 1"
  shows "unat (total_minted_atoms S) = minted ts \<and> total_supply S + burned fee ts = minted ts"
  using genesis_runs(1) [OF assms(1)] assms(2) run_fee_address [OF assms(1)] by (simp add: accounted_def)

theorem supply_conserved_witness:
  "unat (total_minted_atoms ledger2) = minted sample_txs \<and>
   total_supply ledger2 + burned (Some bob) sample_txs = minted sample_txs"
  by (rule supply_conserved [OF sample_run])
    (simp add: sample_txs_def minted_def minted_of_def sample_event)

text \<open>C9: a deposit mints once. In a run from genesis whose mints all verify against one view of L1,
  the outpoints minted from are distinct, and the consumed nullifiers are exactly those of
  these outpoints.\<close>

theorem deposit_mints_once:
  assumes "hex_ok x" and "ledger_run x (genesis_ledger fee) ts S" and "mints_ok x l1 ts"
  shows "distinct (mint_outpoints ts) \<and>
    fset (consumed_nullifiers S) = (\<lambda>p. hex_encode x (outpoint_nullifier p)) ` set (mint_outpoints ts)"
  using genesis_runs(2) [OF assms(2)] nullifiers_of_deposits [OF assms(3)]
  by (auto simp: nullifiers_spent_def distinct_map)

lemma sample_mints_ok: "mints_ok toy_ext sample_l1 sample_txs"
  by (simp add: sample_txs_def sample_entry_valid)

theorem deposit_mints_once_witness:
  "distinct (mint_outpoints sample_txs) \<and>
   fset (consumed_nullifiers ledger2) = (\<lambda>p. hex_encode toy_ext (outpoint_nullifier p)) ` set (mint_outpoints sample_txs)"
  by (rule deposit_mints_once [OF hex_ok_toy sample_run sample_mints_ok])

text \<open>C33: no replay. In a run from genesis no signed transfer of an account is applied twice, as
  long as the account has sent at most \<open>2 ^ 64\<close> of them, and its nonce counts them.\<close>

theorem no_transfer_replay:
  assumes "ledger_run x (genesis_ledger fee) ts S" and "length (sent_by a ts) \<le> 2 ^ 64"
  shows "distinct (sent_by a ts) \<and> nonce_of S a = of_nat (length (sent_by a ts))"
  using no_replay [OF assms] genesis_runs(3) [OF assms(1)] by (simp add: nonces_count_def)

theorem no_transfer_replay_witness:
  "distinct (sent_by alice sample_txs) \<and> nonce_of ledger2 alice = of_nat (length (sent_by alice sample_txs))"
  by (rule no_transfer_replay [OF sample_run]) (simp add: sent_by_def sample_txs_def)

text \<open>C32: a transfer moves exactly what it says. When \<open>apply\<close> accepts a transfer on a ledger that
  holds fewer than \<open>2 ^ 64 - 1\<close> atoms, the sender pays amount and fee, the recipient receives the
  amount, the fee address the fee, every other balance is unchanged, and only the sender's nonce
  moves, by one.\<close>

theorem transfer_exact:
  assumes "apply_tx x (Transfer t) S = Inr S'" and "total_supply S < 2 ^ 64 - 1"
  shows "unat (balance_of S' a) + paid_by (body t) a =
      unat (balance_of S a) + received_by (sequencer_fee_address S) (body t) a \<and>
    nonce_of S' a = nonce_of S a + (if a = tb_from (body t) then 1 else 0)"
proof -
  have ok: "transfer_ok x t S" and S': "S' = transfer_post (body t) S" using assms(1) by (simp_all add: apply_tx_eq)
  then show ?thesis
    using transfer_balances [OF ok assms(2)] nonce_transfer_post [of "body t" S a]
    by (auto simp: transfer_ok_def)
qed

lemma supply_ledger1: "total_supply ledger1 < 2 ^ 64 - 1"
proof -
  have "total_supply ledger0 = 0"
    by (simp add: total_supply_def ledger0_def genesis_ledger_def LedgerState_new_def)
  then show ?thesis using supply_mint_le [of "event sample_entry" ledger0] by (simp add: ledger1_def sample_event)
qed

theorem transfer_exact_witness:
  "unat (balance_of ledger2 bob) + paid_by (body sample_transfer) bob =
     unat (balance_of ledger1 bob) + received_by (sequencer_fee_address ledger1) (body sample_transfer) bob \<and>
   nonce_of ledger2 bob = nonce_of ledger1 bob + (if bob = tb_from (body sample_transfer) then 1 else 0)"
  by (rule transfer_exact [OF apply_sample_transfer supply_ledger1])

text \<open>A transaction reads and writes only the accounts it touches. On two ledgers that agree on
  them, on the nullifiers, on the running total and on the fee address, \<open>apply\<close> gives the same
  error or two ledgers that agree again, and every other account of each stays as it was.\<close>

theorem apply_is_local:
  assumes "agree T S S'" and "touches (sequencer_fee_address S) tx \<subseteq> T"
  shows "agree_result T (apply_tx x tx S) (apply_tx x tx S') \<and>
    (\<forall>U a. apply_tx x tx S = Inr U \<and> a \<notin> T \<longrightarrow> fmlookup (accounts U) a = fmlookup (accounts S) a)"
  using apply_tx_agree [OF assms] apply_tx_frame assms(2) by blast

theorem apply_is_local_witness:
  "agree_result UNIV (apply_tx toy_ext (Mint sample_entry) ledger0) (apply_tx toy_ext (Mint sample_entry) ledger0) \<and>
   (\<forall>U a. apply_tx toy_ext (Mint sample_entry) ledger0 = Inr U \<and> a \<notin> UNIV \<longrightarrow>
      fmlookup (accounts U) a = fmlookup (accounts ledger0) a)"
  by (rule apply_is_local) (simp_all add: agree_def)

section \<open>Mint proofs\<close>

text \<open>What a mint entry proves. \<open>verify_mint_entry\<close> accepts exactly the entries whose outpoint is an
  unspent output with enough confirmations, locked to the claimed key for a duration in
  \<open>1..65535\<close> under the expected Taproot script, claimed at a height between its creation and its
  expiry and not above the tip, with the owner's signature over outpoint, height and
  destination, and whose event is the one recomputed from that output.\<close>

theorem mint_entry_accepted_iff:
  "verify_mint_entry x l1 e = Inr () \<longleftrightarrow>
     (\<exists>output. outpoint_accepts x l1 (entry_proof e) (l2_destination (event e)) output \<and>
        event e = credit_event (outpoint_credit x (entry_proof e) (l2_destination (event e)) output))"
  by (rule verify_mint_entry_eq)

text \<open>C40: an accepted mint creates fewer atoms than the satoshi locked, and at least one.\<close>

theorem mint_below_deposit:
  assumes "verify_mint_entry x l1 e = Inr ()"
  shows "0 < ev_amount (event e) \<and> ev_amount (event e) < l1_value_sat (event e) \<and>
    (\<exists>output. get_output l1 (pf_outpoint (entry_proof e)) = Some output \<and> l1_value_sat (event e) = value_sat output)"
proof -
  obtain out where acc: "outpoint_accepts x l1 (entry_proof e) (l2_destination (event e)) out"
    and ev: "event e = credit_event (outpoint_credit x (entry_proof e) (l2_destination (event e)) out)"
    using assms by (auto simp: verify_mint_entry_eq)
  have "ev_amount (event e) = mint_fn x (value_sat out) (pf_lock_blocks (entry_proof e))"
    "l1_value_sat (event e) = value_sat out"
    using arg_cong [OF ev, of ev_amount] arg_cong [OF ev, of l1_value_sat] by (simp_all add: outpoint_credit_def)
  then show ?thesis using acc verify_nonzero_value by (auto simp: outpoint_accepts_def word_neq_0_conv)
qed

theorem mint_below_deposit_witness:
  "0 < ev_amount (event sample_entry) \<and> ev_amount (event sample_entry) < l1_value_sat (event sample_entry) \<and>
   (\<exists>output. get_output sample_l1 (pf_outpoint (entry_proof sample_entry)) = Some output \<and>
      l1_value_sat (event sample_entry) = value_sat output)"
  by (rule mint_below_deposit [OF sample_entry_valid])

text \<open>The mint function in binary64. Whatever the exponential returns, the amount minted is
  strictly below the value locked and does not fall when more is locked for the same time.\<close>

theorem mint_fn_bounds:
  "(v \<noteq> 0 \<longrightarrow> mint_fn x v t < v) \<and> (v \<le> w \<longrightarrow> mint_fn x v t \<le> mint_fn x w t)"
  using mint_fn_less mint_fn_mono_value by blast

theorem mint_fn_bounds_witness:
  "mint_fn toy_ext 1000 144 < 1000 \<and> mint_fn toy_ext 1000 144 \<le> mint_fn toy_ext 2000 144"
  using mint_fn_bounds [of 1000 toy_ext 144 2000] by simp

end
