(* ===== verification/CommitProperties.thy ===== *)
theory CommitProperties
  imports Binding Sample Chain
begin

text \<open>The properties of the commitments: the sparse Merkle tree, the state root, block and
  transaction hashes, and the round trips of the codecs.\<close>

section \<open>The sparse Merkle tree\<close>

text \<open>C28: inclusion and non-inclusion proofs are sound. A proof that verifies against the accounts root
  of a ledger is the proof the ledger itself produces for that address, leaf and siblings alike,
  or two SHA-256 preimages listed from the two proofs collide.\<close>

theorem inclusion_proof_sound:
  assumes "InclusionProof_verify x p (accounts_root x S)"
  shows "p = account_inclusion_proof x S (ip_address p) \<or>
    collides (sha256 x) (proof_preimages x p @ proof_preimages x (account_inclusion_proof x S (ip_address p)))"
  using verify_sound [of x p "leaf_of S"] assms by (simp add: accounts_root_eq account_inclusion_proof_eq)

text \<open>Proofs are complete. For every address, with or without an account, the ledger's proof
  verifies against its accounts root and carries the account's balance and nonce.\<close>

theorem inclusion_proof_complete:
  "InclusionProof_verify x (account_inclusion_proof x S a) (accounts_root x S) \<and>
   ip_leaf (account_inclusion_proof x S a) =
     (if a |\<in>| fmdom (accounts S) then LeafAccount (balance_of S a) (nonce_of S a) else LeafEmpty)"
  using honest_proof_verifies [of x "leaf_of S" a]
  by (auto simp: accounts_root_eq account_inclusion_proof_eq honest_proof_def leaf_of_def balance_of_def
      nonce_of_def fmdomI split: option.split)

theorem inclusion_proof_sound_witness:
  "account_inclusion_proof toy_ext ledger2 alice = account_inclusion_proof toy_ext ledger2
      (ip_address (account_inclusion_proof toy_ext ledger2 alice)) \<or>
   collides (sha256 toy_ext) (proof_preimages toy_ext (account_inclusion_proof toy_ext ledger2 alice) @
     proof_preimages toy_ext (account_inclusion_proof toy_ext ledger2
       (ip_address (account_inclusion_proof toy_ext ledger2 alice))))"
  by (rule inclusion_proof_sound) (simp add: accounts_root_eq account_inclusion_proof_eq honest_proof_verifies)

text \<open>C29: the optimised update of the sparse tree equals recomputation. Given updates with the honest
  proofs of distinct addresses, \<open>apply_updates\<close> returns the root of the tree in which exactly
  these leaves are replaced; given any updates it accepts, the same root, or a collision among
  the listed preimages.\<close>

theorem sparse_update_equals_recompute:
  "(us \<noteq> [] \<and> distinct (map upd_addr us) \<and> honest_updates x L us \<longrightarrow>
      apply_updates x us (smt_root x L) = Inr (smt_root x (override L us))) \<and>
   (\<forall>r. apply_updates x us (smt_root x L) = Inr r \<longrightarrow>
      r = smt_root x (override L us) \<or> collides (sha256 x) (update_preimages x L us))"
  using apply_updates_complete apply_updates_sound by blast

theorem sparse_update_equals_recompute_witness:
  "let us = [\<lparr> pre_proof = honest_proof toy_ext (leaf_of ledger1) alice, post_state = LeafAccount 7 1 \<rparr>]
   in apply_updates toy_ext us (smt_root toy_ext (leaf_of ledger1)) =
        Inr (smt_root toy_ext (override (leaf_of ledger1) us))"
  using sparse_update_equals_recompute
    [of "[\<lparr> pre_proof = honest_proof toy_ext (leaf_of ledger1) alice, post_state = LeafAccount 7 1 \<rparr>]"
        toy_ext "leaf_of ledger1"]
  by (simp add: Let_def honest_updates_def honest_proof_def)

text \<open>An observer's refreshed proof is the proof in the updated tree. The proof that
  \<open>refresh_observer\<close> returns is the honest one after the updates, or listed preimages
  collide.\<close>

theorem observer_refresh_sound:
  assumes "refresh_observer x obs us (smt_root x L) = Inr p"
  shows "p = honest_proof x (override L us) (ip_address obs) \<or> collides (sha256 x) (refresh_preimages x L obs us)"
  using assms by (rule refresh_observer_sound)

theorem observer_refresh_sound_witness:
  "let us = [\<lparr> pre_proof = honest_proof toy_ext (leaf_of ledger1) alice, post_state = LeafAccount 7 1 \<rparr>];
       obs = honest_proof toy_ext (leaf_of ledger1) bob
   in \<exists>p. refresh_observer toy_ext obs us (smt_root toy_ext (leaf_of ledger1)) = Inr p \<and>
        (p = honest_proof toy_ext (override (leaf_of ledger1) us) (ip_address obs) \<or>
         collides (sha256 toy_ext) (refresh_preimages toy_ext (leaf_of ledger1) obs us))"
proof -
  let ?us = "[\<lparr> pre_proof = honest_proof toy_ext (leaf_of ledger1) alice, post_state = LeafAccount 7 1 \<rparr>]"
  let ?obs = "honest_proof toy_ext (leaf_of ledger1) bob"
  have "\<exists>p. refresh_observer toy_ext ?obs ?us (smt_root toy_ext (leaf_of ledger1)) = Inr p"
    by (simp add: refresh_observer_eq honest_proof_verifies)
  then obtain p where p: "refresh_observer toy_ext ?obs ?us (smt_root toy_ext (leaf_of ledger1)) = Inr p" ..
  from observer_refresh_sound [OF p] p show ?thesis unfolding Let_def by blast
qed

text \<open>The accounts root does not depend on the order of the accounts.\<close>

theorem compute_root_order_independent:
  assumes "distinct (map fst as)" and "distinct (map fst bs)" and "set as = set bs"
  shows "compute_root x as = compute_root x bs"
  using assms by (rule compute_root_perm)

theorem compute_root_order_independent_witness:
  "compute_root toy_ext [(alice, \<lparr> acc_balance = 1, acc_nonce = 0 \<rparr>), (bob, \<lparr> acc_balance = 2, acc_nonce = 0 \<rparr>)] =
   compute_root toy_ext [(bob, \<lparr> acc_balance = 2, acc_nonce = 0 \<rparr>), (alice, \<lparr> acc_balance = 1, acc_nonce = 0 \<rparr>)]"
  by (rule compute_root_order_independent) auto

section \<open>State roots and hashes\<close>

text \<open>C30: the state root commits to the ledger. Two ledgers with one state root whose nullifiers all have
  the length a verified mint gives them are equal up to the running mint total, which the root
  leaves out, or two of the listed preimages collide.\<close>

theorem state_root_commits:
  assumes "state_root x S = state_root x T"
    and "fBall (consumed_nullifiers S) (\<lambda>s. length s = 72)" and "fBall (consumed_nullifiers T) (\<lambda>s. length s = 72)"
  shows "S\<lparr>total_minted_atoms := total_minted_atoms T\<rparr> = T \<or> collides (sha256 x) (state_preimages x S T)"
  by (rule state_root_binds [OF assms(1) _ assms(2,3)]) simp

theorem state_root_commits_witness:
  "ledger2\<lparr>total_minted_atoms := 5\<rparr>\<lparr>total_minted_atoms := total_minted_atoms ledger2\<rparr> = ledger2 \<or>
   collides (sha256 toy_ext) (state_preimages toy_ext (ledger2\<lparr>total_minted_atoms := 5\<rparr>) ledger2)"
proof (rule state_root_commits)
  have "fBall (consumed_nullifiers ledger2) (\<lambda>s. length s = 72)"
    by (rule verified_nullifier_length [OF hex_ok_toy sample_run, where ?l1.0 = sample_l1]) (simp add: sample_txs_def sample_entry_valid)
  then show "fBall (consumed_nullifiers ledger2) (\<lambda>s. length s = 72)"
    "fBall (consumed_nullifiers (ledger2\<lparr>total_minted_atoms := 5\<rparr>)) (\<lambda>s. length s = 72)" by simp_all
qed (simp add: state_root_def components_def accounts_root_def account_list_def nullifiers_hash_def)

text \<open>Without a common length the nullifier commitment is ambiguous: the strings are hashed one
  after the other with nothing between them, so two different sets have the same hash.\<close>

theorem nullifier_hash_ambiguous:
  "nullifiers_hash_of x {|''ab''|} = nullifiers_hash_of x {|''a'', ''b''|} \<and> {|''ab''|} \<noteq> {|''a'', ''b''|}"
  using nullifiers_preimage_resplit by (auto simp: nullifiers_hash_of_def)



text \<open>The transaction hash leaves out the claimed height: two mints that differ only in it are
  different transactions with one hash, for every hash function.\<close>

theorem mint_hash_omits_claimed_height:
  assumes "h \<noteq> pf_claimed_height p"
  shows "tx_hash x (Mint \<lparr> event = ev, witness = V0Outpoint p \<rparr>) =
      tx_hash x (Mint \<lparr> event = ev, witness = V0Outpoint (p\<lparr>pf_claimed_height := h\<rparr>) \<rparr>) \<and>
    Mint \<lparr> event = ev, witness = V0Outpoint p \<rparr> \<noteq> Mint \<lparr> event = ev, witness = V0Outpoint (p\<lparr>pf_claimed_height := h\<rparr>) \<rparr>"
proof -
  have "witness_canonical_bytes (V0Outpoint p) = witness_canonical_bytes (V0Outpoint (p\<lparr>pf_claimed_height := h\<rparr>))"
    by (simp add: witness_canonical_bytes_def)
  moreover have "p \<noteq> p\<lparr>pf_claimed_height := h\<rparr>"
    using assms by (metis OutpointProof.select_convs(4) OutpointProof.surjective OutpointProof.update_convs(4))
  ultimately show ?thesis by (simp add: tx_hash_def tx_preimage_def Let_def)
qed

theorem mint_hash_omits_claimed_height_witness:
  "tx_hash toy_ext (Mint \<lparr> event = event sample_entry, witness = V0Outpoint sample_proof \<rparr>) =
     tx_hash toy_ext (Mint \<lparr> event = event sample_entry, witness = V0Outpoint (sample_proof\<lparr>pf_claimed_height := 99\<rparr>) \<rparr>) \<and>
   Mint \<lparr> event = event sample_entry, witness = V0Outpoint sample_proof \<rparr> \<noteq>
     Mint \<lparr> event = event sample_entry, witness = V0Outpoint (sample_proof\<lparr>pf_claimed_height := 99\<rparr>) \<rparr>"
  by (rule mint_hash_omits_claimed_height) (simp add: sample_proof_def)

section \<open>Codecs\<close>

text \<open>Attestations survive the trip through L1. An attestation of the current version put into its
  \<open>OP_RETURN\<close> script is read back from it, and a script is read as an attestation only if it
  pushes exactly that attestation's 73 bytes.\<close>

theorem attestation_roundtrip:
  assumes "push_ok x"
  shows "(att_version a = ATTESTATION_VERSION \<longrightarrow> try_from_script x (attestation_to_script x a) = Inr (Some a)) \<and>
    (try_from_script x spk = Inr (Some a) \<longrightarrow> att_version a = ATTESTATION_VERSION \<and>
       (\<exists>i rest. instructions x spk = i # Some (PushBytes (attestation_encode a)) # rest))"
  using try_from_script_to_script [OF assms] try_from_script_Some by blast

theorem attestation_roundtrip_witness:
  "try_from_script toy_ext (attestation_to_script toy_ext attestation1) = Inr (Some attestation1) \<and>
   (\<exists>i rest. instructions toy_ext (attestation_to_script toy_ext attestation1) =
      i # Some (PushBytes (attestation_encode attestation1)) # rest)"
  using attestation_roundtrip [OF push_ok_toy, of attestation1 "attestation_to_script toy_ext attestation1"]
  by (simp add: attestation1_def Attestation_new_def)

text \<open>Addresses. The printed form of a valid key is read back for every network of its class and
  refused, naming the two prefixes, for every other; so a mainnet address is never taken for a
  test address.\<close>

theorem address_roundtrip:
  assumes "bech32_ok x" and "key_valid x pk"
  shows "decode_for x (address_encode x pk n) m =
    (if class_of n = class_of m then Inr pk
     else Inl (WrongHrp (hrp (class_of m)) (hrp (class_of n))))"
  using assms by (rule decode_for_encode)

theorem address_roundtrip_witness:
  "decode_for toy_ext (address_encode toy_ext alice Bitcoin) Regtest =
    (if class_of Bitcoin = class_of Regtest then Inr alice
     else Inl (WrongHrp (hrp (class_of Regtest)) (hrp (class_of Bitcoin))))"
  by (rule address_roundtrip [OF bech32_ok_toy key_valid_toy])

text \<open>A mint address exists exactly for the durations \<open>1..65535\<close>, and it is the address of the very
  script a mint proof is checked against; within that range the duration survives the 16-bit
  mask of a relative lock time.\<close>

theorem mint_address_sound:
  "(is_ok (mint_address x t pk n) \<longleftrightarrow> 1 \<le> unat t \<and> unat t \<le> 65535) \<and>
   (\<forall>a. mint_address x t pk n = Inr a \<longrightarrow> take_bit 16 t = t \<and>
      (\<exists>spend. expected_p2tr_spk x t pk = Inr (new_p2tr_tweaked x (taproot_output_key x spend)) \<and>
         a = p2tr_tweaked_address x (taproot_output_key x spend) n))"
proof -
  have ok: "is_ok (mint_address x t pk n) \<longleftrightarrow> lock_in_range t" by (rule mint_address_ok)
  moreover have "take_bit 16 t = t" if "mint_address x t pk n = Inr a" for a
    using ok that by (auto simp: is_ok_iff intro: lock_in_range_mask)
  ultimately show ?thesis using mint_address_matches_spk [of x t pk n] by (auto simp: lock_in_range_def)
qed

theorem mint_address_sound_witness:
  "\<exists>a spend. mint_address toy_ext 144 alice NetRegtest = Inr a \<and> take_bit 16 (144 :: u32) = 144 \<and>
     expected_p2tr_spk toy_ext 144 alice = Inr (new_p2tr_tweaked toy_ext (taproot_output_key toy_ext spend)) \<and>
     a = p2tr_tweaked_address toy_ext (taproot_output_key toy_ext spend) NetRegtest"
proof -
  have "\<exists>a. mint_address toy_ext 144 alice NetRegtest = Inr a"
    using mint_address_sound [of toy_ext 144 alice NetRegtest] by (auto simp: is_ok_iff)
  then show ?thesis using mint_address_sound [of toy_ext 144 alice NetRegtest] by blast
qed

end
