(* ===== verification/ClientProperties.thy ===== *)
theory ClientProperties
  imports WalkCorrect Sample Binding
begin

text \<open>The properties of the wallet's light client beyond a single block: the walk along the
  attestation chain, the catch-up of a verified head, and the cold start.\<close>



text \<open>C10: catching up is sound. If the verified head matches a full ledger and \<open>walk_forward\<close> returns, then
  replaying the served blocks from the old height to the new on the full ledger succeeds and the
  new head matches its result, or two of the preimages listed from the served witnesses
  collide.\<close>

theorem walk_forward_sound:
  assumes "walk_forward x head api es = Some (Inr (head', n, ev))" and "head_matches x head S"
  shows "(\<exists>S'. apply_txs x (served_txs api (blocks_above (vh_l2_height head) (vh_l2_height head'))) S = Inr S' \<and>
       head_matches x head' S') \<or>
    collides (sha256 x) (run_preimages x api S (blocks_above (vh_l2_height head) (vh_l2_height head')))"
  using assms by (rule walk_forward_refines)

theorem walk_forward_sound_witness:
  "\<exists>head' n ev. walk_forward toy_ext head0 sample_api sample_esplora = Some (Inr (head', n, ev)) \<and>
    ((\<exists>S'. apply_txs toy_ext (served_txs sample_api (blocks_above (vh_l2_height head0) (vh_l2_height head'))) ledger0 = Inr S' \<and>
        head_matches toy_ext head' S') \<or>
     collides (sha256 toy_ext) (run_preimages toy_ext sample_api ledger0 (blocks_above (vh_l2_height head0) (vh_l2_height head'))))"
  using sample_walk walk_forward_sound [OF _ head0_matches] by blast


lemma sample_bootstrap:
  assumes "leaf_of ledger2 a = LeafAccount b n"
    and "es_api = sample_api\<lparr> node_url := Some (sample_service\<lparr> srv_balance :=
      (\<lambda>own. Inr \<lparr> br_address = own, br_balance = b, br_nonce = n, br_effective_nonce = n, br_l2_height = 1,
        br_state_root = state_root toy_ext ledger2, br_components = components toy_ext ledger2,
        br_proof = account_inclusion_proof toy_ext ledger2 a,
        br_total_minted = total_minted_atoms ledger2 \<rparr>) \<rparr>) \<rparr>"
  shows "\<exists>H. bootstrap toy_ext es_api sample_esplora alice = Some (Inr H) \<and>
    vh_state_root H = state_root toy_ext ledger2 \<and> vh_own_address H = alice \<and> vh_own_leaf H = LeafAccount b n"
proof -
  have walk: "walk_attestation_chain toy_ext sample_esplora (OutPoint 6 1) = Some (Inr [sample_chain_step])"
    using sample_chain by (simp add: walk_attestation_chain_eq sample_esplora_def)
  have gen: "api_get_block es_api 0 = Inr genesis_block"
    by (simp add: assms(2) api_get_block_def api_base_def sample_service_def)
  have "anchor_outpoint (header genesis_block) = Some (OutPoint 6 1)" by (simp add: genesis_block_def)
  moreover have "\<exists>H. bootstrap_from toy_ext es_api alice genesis_block (OutPoint 6 1) [sample_chain_step] = Inr H \<and>
    vh_state_root H = state_root toy_ext ledger2 \<and> vh_own_address H = alice \<and> vh_own_leaf H = LeafAccount b n"
    using assms(1)
    by (simp add: bootstrap_from_eq assms(2) api_balance_def api_get_nullifiers_def api_base_def sample_service_def
        sample_chain_step_def attestation1_def Attestation_new_def account_inclusion_proof_eq honest_proof_verifies
        accounts_root_eq components_def state_root_def check_leaf_def nullifiers_hash_def sorted_list_of_fset_simps(2))
      (simp add: honest_proof_def)
  ultimately show ?thesis using gen walk by (auto simp: bootstrap_def)
qed

lemma ledger2_leaves:
  "leaf_of ledger2 alice = LeafAccount 399 1" "leaf_of ledger2 bob = LeafAccount 600 0"
  by (simp_all add: ledger2_def transfer_post_def sample_body_def Let_def fee_500 leaf_of_def acct_ledger1
      acct_def debit_def credit_def fmdom_notD)
    (simp_all add: ledger1_def mint_post_def acct_ledger0 sat_add_def ledger0_def genesis_ledger_def
      LedgerState_new_def Account_default_def sample_event acct_def credit_def)


text \<open>The service of the sample with the balance of account \<open>a\<close> in place of the one asked for.\<close>

definition balance_reply :: "L2Address \<Rightarrow> L2Address \<Rightarrow> BalanceResponse" where
  "balance_reply a own = \<lparr> br_address = own, br_balance = leaf_balance (leaf_of ledger2 a),
     br_nonce = leaf_nonce (leaf_of ledger2 a), br_effective_nonce = leaf_nonce (leaf_of ledger2 a), br_l2_height = 1,
     br_state_root = state_root toy_ext ledger2, br_components = components toy_ext ledger2,
     br_proof = account_inclusion_proof toy_ext ledger2 a, br_total_minted = total_minted_atoms ledger2 \<rparr>"

definition api_with_balance :: "L2Address \<Rightarrow> ApiClient" where
  "api_with_balance a = sample_api\<lparr> node_url := Some (sample_service\<lparr> srv_balance := (\<lambda>own. Inr (balance_reply a own)) \<rparr>) \<rparr>"


text \<open>Without that check the cold start is not sound. A server that answers the wallet's query with
  the balance and the proof of another account, under the wallet's own address, is believed:
  \<open>bootstrap\<close> never compares the address inside the proof. Here Alice's wallet starts with Bob's 600
  atoms, while the ledger holds 399 for Alice.\<close>

theorem bootstrap_accepts_foreign_proof:
  "\<exists>H. bootstrap toy_ext (api_with_balance bob) sample_esplora alice = Some (Inr H) \<and>
    vh_state_root H = state_root toy_ext ledger2 \<and> balance_from H alice = (600, 0) \<and>
    (balance_of ledger2 alice, nonce_of ledger2 alice) = (399, 1)"
proof -
  obtain H where H: "bootstrap toy_ext (api_with_balance bob) sample_esplora alice = Some (Inr H)"
    "vh_state_root H = state_root toy_ext ledger2" "vh_own_address H = alice" "vh_own_leaf H = LeafAccount 600 0"
    using sample_bootstrap [OF ledger2_leaves(2) refl]
    by (auto simp: api_with_balance_def balance_reply_def [abs_def] ledger2_leaves)
  moreover have "(balance_of ledger2 alice, nonce_of ledger2 alice) = (399, 1)"
    using ledger2_leaves(1) by (auto simp: leaf_of_def balance_of_def nonce_of_def split: option.splits)
  ultimately show ?thesis by (auto simp: balance_from_def)
qed

end
