(* ===== verification/StoreLaws.thy ===== *)
theory StoreLaws
  imports Chain "HOL-Library.Finite_Map"
begin

text \<open>
  The contract of the two SQLite stores, as locales: \<open>key_value\<close> for the table of named
  texts, and \<open>block_store\<close>, which adds the tables of blocks, state snapshots and
  witnesses. Theory \<open>SeqStore\<close> interprets both on the sequencer's store and
  \<open>NodeStore\<close> on the node's; what a restart, a cursor or an anchor round trip relies on
  is proved once here.

  SQLite is not under \<open>src/\<close>. A table is a finite map from its primary key to its row, and
  \<open>Sql\<close> lists the kinds of statement the code issues: \<open>db_fault\<close> of a store says which of them
  the database refuses at the moment, and a refused statement changes nothing. The JSON
  columns hold the value that was serialised.
\<close>

datatype Sql =
    SelectKv | UpsertKv | SelectBlocks | UpdateBlocks | SelectSnapshots | SelectWitnesses
  | CommitBlock | SelectSpends | UpsertSpend

locale key_value =
  fixes kv_get :: "'s \<Rightarrow> string \<Rightarrow> (Anyhow, string option) result"
    and kv_put :: "'s \<Rightarrow> string \<Rightarrow> string \<Rightarrow> (Anyhow, 's) result"
  assumes put_get: "kv_put s k v = Inr s' \<Longrightarrow> kv_get s k = Inr w \<Longrightarrow> kv_get s' k = Inr (Some v)"
    and put_get_other: "kv_put s k v = Inr s' \<Longrightarrow> k' \<noteq> k \<Longrightarrow> kv_get s' k' = kv_get s k'"
begin

text \<open>A \<open>u32\<close> and an outpoint written as text are read back.\<close>

lemma u32_roundtrip:
  assumes "kv_put s k (u32_to_string n) = Inr s'" and "kv_get s k = Inr w"
  shows "rbind (kv_get s' k) (\<lambda>v. Inr (Option.bind v parse_u32)) = Inr (Some n)"
  using put_get [OF assms] by simp

lemma outpoint_roundtrip:
  assumes "txid_str_ok x" and "kv_put s k (show_outpoint x p) = Inr s'" and "kv_get s k = Inr w"
  shows "rbind (kv_get s' k) (\<lambda>v. case v of None \<Rightarrow> Inr None
      | Some t \<Rightarrow> rbind (parse_outpoint x t) (\<lambda>q. Inr (Some q))) = Inr (Some p)"
  using put_get [OF assms(2,3)] parse_show_outpoint [OF assms(1)] by simp

end

locale block_store = key_value kv_get kv_put
  for kv_get :: "'s \<Rightarrow> string \<Rightarrow> (Anyhow, string option) result"
    and kv_put :: "'s \<Rightarrow> string \<Rightarrow> string \<Rightarrow> (Anyhow, 's) result" +
  fixes get_block :: "'s \<Rightarrow> u32 \<Rightarrow> (Anyhow, L2Block option) result"
    and get_witness :: "'s \<Rightarrow> u32 \<Rightarrow> (Anyhow, BlockWitness option) result"
    and load_latest_state :: "'s \<Rightarrow> (Anyhow, (u32 \<times> LedgerState) option) result"
    and write_block_and_state :: "'s \<Rightarrow> L2Block \<Rightarrow> LedgerState \<Rightarrow> BlockWitness \<Rightarrow> (Anyhow, 's) result"
  assumes write_block: "write_block_and_state s b S w = Inr s' \<Longrightarrow> get_block s (bh_height (header b)) = Inr r \<Longrightarrow>
      r = None \<and> get_block s' (bh_height (header b)) = Inr (Some b)"
    and write_block_other: "write_block_and_state s b S w = Inr s' \<Longrightarrow> h \<noteq> bh_height (header b) \<Longrightarrow>
      get_block s' h = get_block s h"
    and write_witness: "write_block_and_state s b S w = Inr s' \<Longrightarrow> get_witness s (bh_height (header b)) = Inr old \<Longrightarrow>
      get_witness s' (bh_height (header b)) = Inr (Some w)"
    and write_witness_other: "write_block_and_state s b S w = Inr s' \<Longrightarrow> h \<noteq> bh_height (header b) \<Longrightarrow>
      get_witness s' h = get_witness s h"
    and write_latest: "write_block_and_state s b S w = Inr s' \<Longrightarrow> load_latest_state s = Inr l \<Longrightarrow>
      (\<And>h U. l = Some (h, U) \<Longrightarrow> h < bh_height (header b)) \<Longrightarrow>
      load_latest_state s' = Inr (Some (bh_height (header b), S))"
    and put_keeps: "kv_put s k v = Inr s' \<Longrightarrow> get_block s' h = get_block s h \<and>
      get_witness s' h = get_witness s h \<and> load_latest_state s' = load_latest_state s"
begin

text \<open>The store mirrors a chain: block \<open>i\<close> is found at height \<open>i\<close>, nothing is stored above
  the head, and the latest snapshot is the ledger at the head.\<close>

definition mirrors :: "'s \<Rightarrow> L2Block list \<Rightarrow> LedgerState \<Rightarrow> bool" where
  "mirrors s bs S \<longleftrightarrow> bs \<noteq> [] \<and> length bs \<le> 2 ^ 32 \<and>
     (\<forall>h. get_block s h = Inr (if unat h < length bs then Some (bs ! unat h) else None)) \<and>
     load_latest_state s = Inr (Some (of_nat (length bs - 1), S))"

lemma mirrors_put: "kv_put s k v = Inr s' \<Longrightarrow> mirrors s' bs S = mirrors s bs S"
  using put_keeps [of s k v s'] by (simp add: mirrors_def)

lemma mirrors_write:
  assumes "write_block_and_state s b U w = Inr s'" and "mirrors s bs S"
    and "unat (bh_height (header b)) = length bs"
  shows "mirrors s' (bs @ [b]) U"
proof -
  let ?h = "bh_height (header b)"
  have len: "length bs < 2 ^ 32"
    using assms(3) unat_less_2p [of ?h] by simp
  have ne: "bs \<noteq> []" using assms(2) by (simp add: mirrors_def)
  have h: "?h = of_nat (length bs)" using arg_cong [OF assms(3), of "of_nat :: nat \<Rightarrow> u32"] by simp
  have "get_block s ?h = Inr None" using assms(2,3) by (simp add: mirrors_def)
  then have at: "get_block s' ?h = Inr (Some b)" using write_block [OF assms(1)] by blast
  have blocks: "get_block s' k = Inr (if unat k < length (bs @ [b]) then Some ((bs @ [b]) ! unat k) else None)" for k
  proof (cases "k = ?h")
    case True
    then show ?thesis using at assms(3) by (simp add: nth_append)
  next
    case False
    then have "unat k \<noteq> length bs" using assms(3) by (metis word_unat_eq_iff)
    then show ?thesis
      using write_block_other [OF assms(1) False] assms(2) by (simp add: mirrors_def nth_append)
  qed
  have latest: "load_latest_state s = Inr (Some (of_nat (length bs - 1), S))"
    using assms(2) by (simp add: mirrors_def)
  have "unat (of_nat (length bs - 1) :: u32) = length bs - 1"
    using len by (simp add: unat_of_nat take_bit_nat_eq_self)
  then have "(of_nat (length bs - 1) :: u32) < ?h"
    using ne assms(3) by (cases bs) (auto simp: word_less_nat_alt)
  then have "load_latest_state s' = Inr (Some (?h, U))"
    using write_latest [OF assms(1) latest] by simp
  then show ?thesis
    using blocks h len by (simp add: mirrors_def)
qed

text \<open>A restart finds the head block and its ledger.\<close>

lemma mirrors_resume:
  assumes "mirrors s bs S"
  shows "\<exists>h. load_latest_state s = Inr (Some (h, S)) \<and> get_block s h = Inr (Some (last bs))"
proof (intro exI conjI)
  show "load_latest_state s = Inr (Some (of_nat (length bs - 1), S))"
    using assms by (simp add: mirrors_def)
  have "length bs - 1 < length bs" "length bs \<le> 2 ^ 32" "bs \<noteq> []"
    using assms by (auto simp: mirrors_def)
  then have "unat (of_nat (length bs - 1) :: u32) = length bs - 1"
    by (simp add: unat_of_nat take_bit_nat_eq_self)
  then show "get_block s (of_nat (length bs - 1)) = Inr (Some (last bs))"
    using assms \<open>bs \<noteq> []\<close> by (simp add: mirrors_def last_conv_nth)
qed

end

text \<open>A store in which the database answers: reads succeed, a named text can be written, and so can
  a block at a height that is free. \<open>holds\<close> is what both daemons maintain: the tables mirror an
  L2 chain, and beside every block after genesis lies the witness that \<open>BlockWitness::build\<close>
  makes from the ledger before it.\<close>

locale ready_store = block_store kv_get kv_put get_block get_witness load_latest_state write_block_and_state
  for kv_get :: "'s \<Rightarrow> string \<Rightarrow> (Anyhow, string option) result"
    and kv_put :: "'s \<Rightarrow> string \<Rightarrow> string \<Rightarrow> (Anyhow, 's) result"
    and get_block :: "'s \<Rightarrow> u32 \<Rightarrow> (Anyhow, L2Block option) result"
    and get_witness :: "'s \<Rightarrow> u32 \<Rightarrow> (Anyhow, BlockWitness option) result"
    and load_latest_state :: "'s \<Rightarrow> (Anyhow, (u32 \<times> LedgerState) option) result"
    and write_block_and_state :: "'s \<Rightarrow> L2Block \<Rightarrow> LedgerState \<Rightarrow> BlockWitness \<Rightarrow> (Anyhow, 's) result" +
  fixes ready :: "'s \<Rightarrow> bool"
  assumes ready_put: "ready s \<Longrightarrow> \<exists>s'. kv_put s k v = Inr s' \<and> ready s'"
    and ready_get: "ready s \<Longrightarrow> \<exists>v. kv_get s k = Inr v"
    and ready_witness: "ready s \<Longrightarrow> \<exists>w. get_witness s h = Inr w"
    and ready_write: "ready s \<Longrightarrow> get_block s (bh_height (header b)) = Inr None \<Longrightarrow>
      \<exists>s'. write_block_and_state s b S w = Inr s' \<and> ready s'"
begin

definition witnessed :: "ext \<Rightarrow> 's \<Rightarrow> L2Block list \<Rightarrow> bool" where
  "witnessed x s bs \<longleftrightarrow> (\<forall>k S. 0 < k \<longrightarrow> k < length bs \<longrightarrow> l2_chain x (take k bs) S \<longrightarrow>
     get_witness s (of_nat k) = Inr (Some (BlockWitness_build x S (txs (bs ! k)) (of_nat k))))"

definition holds :: "ext \<Rightarrow> 's \<Rightarrow> L2Block list \<Rightarrow> LedgerState \<Rightarrow> bool" where
  "holds x s bs S \<longleftrightarrow> ready s \<and> mirrors s bs S \<and> l2_chain x bs S \<and> witnessed x s bs"

lemma holds_genesis: "ready s \<Longrightarrow> mirrors s [b] S \<Longrightarrow> l2_chain x [b] S \<Longrightarrow> holds x s [b] S"
  by (simp add: holds_def witnessed_def)

lemma holds_put:
  assumes "holds x s bs S"
  shows "\<exists>s'. kv_put s k v = Inr s' \<and> holds x s' bs S"
proof -
  obtain s' where s': "kv_put s k v = Inr s'" "ready s'" using assms ready_put [of s k v] unfolding holds_def by blast
  then show ?thesis
    using assms mirrors_put [OF s'(1)] put_keeps [OF s'(1)] by (simp add: holds_def witnessed_def)
qed

lemma holds_after_put: "kv_put s k v = Inr s' \<Longrightarrow> holds x s bs S \<Longrightarrow> holds x s' bs S"
  using holds_put [of x s bs S k v] by auto

lemma holds_next_height:
  assumes "holds x s bs S" and "extends x (last bs) S b S'" and "length bs < 2 ^ 32"
  shows "unat (bh_height (header b)) = length bs"
proof -
  have c: "l2_chain x bs S" using assms(1) by (simp add: holds_def)
  then have ne: "bs \<noteq> []" by simp
  have "unat (bh_height (header (last bs))) = length bs - 1"
    using chain_heights [OF c, of "length bs - 1"] assms(3) ne by (simp add: last_conv_nth)
  then show ?thesis
    using assms(2,3) ne unat_add_small [of "bh_height (header (last bs))" 1]
    by (cases bs) (auto simp: extends_def)
qed

lemma holds_extend:
  assumes h: "holds x s bs S" and e: "extends x (last bs) S b S'" and len: "length bs < 2 ^ 32"
  shows "\<exists>s'. write_block_and_state s b S' (BlockWitness_build x S (txs b) (bh_height (header b))) = Inr s' \<and>
    holds x s' (bs @ [b]) S'"
proof -
  let ?h = "bh_height (header b)" and ?w = "BlockWitness_build x S (txs b) (bh_height (header b))"
  have u: "unat ?h = length bs" by (rule holds_next_height [OF assms])
  then have of: "?h = of_nat (length bs)" by (simp flip: u)
  have ch: "l2_chain x bs S" and mir: "mirrors s bs S" and r: "ready s" and wit: "witnessed x s bs"
    using h by (simp_all add: holds_def)
  have "get_block s ?h = Inr None" using mir u by (simp add: mirrors_def)
  then obtain s' where s': "write_block_and_state s b S' ?w = Inr s'" "ready s'" using ready_write [OF r] by blast
  have ws: "get_witness s' (of_nat k) = Inr (Some (BlockWitness_build x T (txs ((bs @ [b]) ! k)) (of_nat k)))"
    if k: "0 < k" "k < length (bs @ [b])" and T: "l2_chain x (take k (bs @ [b])) T" for k T
  proof (cases "k = length bs")
    case True
    then have "T = S" using T chain_fun [OF _ ch] by simp
    moreover obtain old where "get_witness s ?h = Inr old" using ready_witness [OF r] by blast
    ultimately show ?thesis using write_witness [OF s'(1)] True of by (simp add: nth_append)
  next
    case False
    then have l: "k < length bs" using k by simp
    then have "unat (of_nat k :: u32) = k" using len by (simp add: unat_of_nat take_bit_nat_eq_self)
    then have "of_nat k \<noteq> ?h" using u l by auto
    then show ?thesis
      using write_witness_other [OF s'(1)] wit k(1) l T by (simp add: witnessed_def nth_append)
  qed
  have "mirrors s' (bs @ [b]) S'" by (rule mirrors_write [OF s'(1) mir u])
  then show ?thesis
    using s' l2_chain.extend [OF ch e] ws unfolding holds_def witnessed_def by blast
qed

end

text \<open>\<open>ORDER BY l2_height DESC LIMIT 1\<close>: the row with the greatest key.\<close>

definition latest_row :: "(u32, 'a) fmap \<Rightarrow> (u32 \<times> 'a) option" where
  "latest_row m =
     (if fmdom m = {||} then None
      else let h = fMax (fmdom m) in map_option (Pair h) (fmlookup m h))"

lemma latest_row_empty [simp]: "latest_row fmempty = None"
  by (simp add: latest_row_def)

lemma latest_row_insert:
  assumes "\<And>h U. latest_row m = Some (h, U) \<Longrightarrow> h < k"
  shows "latest_row (fmupd k v m) = Some (k, v)"
proof -
  have "fMax (finsert k (fmdom m)) = k"
  proof (cases "fmdom m = {||}")
    case False
    define h where "h = fMax (fmdom m)"
    have "h |\<in>| fmdom m" using False by (simp add: h_def)
    then obtain U where "fmlookup m h = Some U" by (meson fmdomE)
    then have "h < k" using assms [of h U] False by (simp add: latest_row_def h_def Let_def)
    then show ?thesis using False by (simp add: h_def)
  qed simp
  then show ?thesis by (simp add: latest_row_def Let_def)
qed

end
