(* ===== verification/SeqStore.thy ===== *)
theory SeqStore
  imports StoreLaws
begin

text \<open>\<open>hodl-sequencer/src/store.rs\<close>: the sequencer's store. \<open>serde_json\<close> on the one list kept
  as text is the parameter \<open>serde\<close>.\<close>

record PendingAttestation =
  pa_txid :: string
  pa_spent_anchor :: string
  pa_new_anchor :: string
  pa_l2_head_height :: u32
  pa_posted_at_l1_height :: u32

record serde =
  pending_to_json :: "PendingAttestation list \<Rightarrow> string"
  pending_from_json :: "string \<Rightarrow> PendingAttestation list option"

definition serde_ok :: "serde \<Rightarrow> bool" where
  "serde_ok js \<longleftrightarrow> (\<forall>l. pending_from_json js (pending_to_json js l) = Some l)"

record SeqStore =
  sq_kv :: "(string, string) fmap"
  sq_blocks :: "(u32, L2Block \<times> string option) fmap"
  sq_snapshots :: "(u32, LedgerState) fmap"
  sq_witnesses :: "(u32, BlockWitness) fmap"
  sq_fault :: "Sql \<Rightarrow> bool"

text \<open>A newly opened database (\<open>CREATE TABLE IF NOT EXISTS\<close> on an empty file).\<close>

definition seq_open :: SeqStore where
  "seq_open = \<lparr> sq_kv = fmempty, sq_blocks = fmempty, sq_snapshots = fmempty, sq_witnesses = fmempty,
     sq_fault = (\<lambda>_. False) \<rparr>"

definition seq_kv_get :: "SeqStore \<Rightarrow> string \<Rightarrow> (Anyhow, string option) result" where
  "seq_kv_get s key = (if sq_fault s SelectKv then Inl SqlError else Inr (fmlookup (sq_kv s) key))"

definition seq_kv_put :: "SeqStore \<Rightarrow> string \<Rightarrow> string \<Rightarrow> (Anyhow, SeqStore) result" where
  "seq_kv_put s key value =
     (if sq_fault s UpsertKv then Inl SqlError else Inr (s\<lparr>sq_kv := fmupd key value (sq_kv s)\<rparr>))"

definition seq_get_block :: "SeqStore \<Rightarrow> u32 \<Rightarrow> (Anyhow, L2Block option) result" where
  "seq_get_block s height =
     (if sq_fault s SelectBlocks then Inl SqlError
      else Inr (map_option fst (fmlookup (sq_blocks s) height)))"

definition seq_get_attested_txid :: "SeqStore \<Rightarrow> u32 \<Rightarrow> (Anyhow, string option) result" where
  "seq_get_attested_txid s height =
     (if sq_fault s SelectBlocks then Inl SqlError
      else Inr (Option.bind (fmlookup (sq_blocks s) height) snd))"

text \<open>One SQL transaction of four statements. Each \<open>INSERT\<close> fails when its primary key is
  taken, and then the transaction is rolled back.\<close>

definition seq_write_block_and_state ::
    "SeqStore \<Rightarrow> L2Block \<Rightarrow> LedgerState \<Rightarrow> BlockWitness \<Rightarrow> (Anyhow, SeqStore) result" where
  "seq_write_block_and_state s block st w =
     (let height = bh_height (header block)
      in if sq_fault s CommitBlock then Inl SqlError
         else if fmlookup (sq_blocks s) height \<noteq> None then Inl SqlError
         else if fmlookup (sq_snapshots s) height \<noteq> None then Inl SqlError
         else if fmlookup (sq_witnesses s) height \<noteq> None then Inl SqlError
         else Inr (s\<lparr> sq_blocks := fmupd height (block, None) (sq_blocks s),
                      sq_snapshots := fmupd height st (sq_snapshots s),
                      sq_witnesses := fmupd height w (sq_witnesses s),
                      sq_kv := fmupd ''l2_head_height'' (u32_to_string height) (sq_kv s) \<rparr>))"

definition seq_get_witness :: "SeqStore \<Rightarrow> u32 \<Rightarrow> (Anyhow, BlockWitness option) result" where
  "seq_get_witness s height =
     (if sq_fault s SelectWitnesses then Inl SqlError else Inr (fmlookup (sq_witnesses s) height))"

definition seq_set_attested_txid :: "ext \<Rightarrow> SeqStore \<Rightarrow> u32 \<Rightarrow> Txid \<Rightarrow> (Anyhow, SeqStore) result" where
  "seq_set_attested_txid x s height t =
     (if sq_fault s UpdateBlocks then Inl SqlError
      else Inr (case fmlookup (sq_blocks s) height of
                  Some (block, _) \<Rightarrow>
                    s\<lparr>sq_blocks := fmupd height (block, Some (txid_to_string x t)) (sq_blocks s)\<rparr>
                | None \<Rightarrow> s))"

definition seq_latest_unattested_height :: "SeqStore \<Rightarrow> (Anyhow, u32 option) result" where
  "seq_latest_unattested_height s =
     (if sq_fault s SelectBlocks then Inl SqlError
      else let hs = ffilter (\<lambda>h. h > 0 \<and> (case fmlookup (sq_blocks s) h of
                                     Some (_, None) \<Rightarrow> True | _ \<Rightarrow> False)) (fmdom (sq_blocks s))
           in Inr (if hs = {||} then None else Some (fMin hs)))"

definition seq_load_latest_state :: "SeqStore \<Rightarrow> (Anyhow, (u32 \<times> LedgerState) option) result" where
  "seq_load_latest_state s =
     (if sq_fault s SelectSnapshots then Inl SqlError else Inr (latest_row (sq_snapshots s)))"

section \<open>Named texts\<close>

definition seq_get_u32 :: "SeqStore \<Rightarrow> string \<Rightarrow> (Anyhow, u32 option) result" where
  "seq_get_u32 s key = rbind (seq_kv_get s key) (\<lambda>v. Inr (Option.bind v parse_u32))"

definition seq_head_height :: "SeqStore \<Rightarrow> (Anyhow, u32 option) result" where
  "seq_head_height s = seq_get_u32 s ''l2_head_height''"

definition seq_set_l1_cursor :: "SeqStore \<Rightarrow> u32 \<Rightarrow> (Anyhow, SeqStore) result" where
  "seq_set_l1_cursor s h = seq_kv_put s ''l1_cursor'' (u32_to_string h)"

definition seq_l1_cursor :: "SeqStore \<Rightarrow> (Anyhow, u32 option) result" where
  "seq_l1_cursor s = seq_get_u32 s ''l1_cursor''"

definition seq_get_anchor :: "ext \<Rightarrow> SeqStore \<Rightarrow> (Anyhow, OutPoint option) result" where
  "seq_get_anchor x s =
     rbind (seq_kv_get s ''anchor'') (\<lambda>v. case v of
       None \<Rightarrow> Inr None
     | Some t \<Rightarrow> rbind (parse_outpoint x t) (\<lambda>p. Inr (Some p)))"

definition seq_set_anchor :: "ext \<Rightarrow> SeqStore \<Rightarrow> OutPoint \<Rightarrow> (Anyhow, SeqStore) result" where
  "seq_set_anchor x s p = seq_kv_put s ''anchor'' (show_outpoint x p)"

definition seq_last_attested_l1_height :: "SeqStore \<Rightarrow> (Anyhow, u32 option) result" where
  "seq_last_attested_l1_height s = seq_get_u32 s ''last_attested_l1_height''"

definition seq_set_last_attested_l1_height :: "SeqStore \<Rightarrow> u32 \<Rightarrow> (Anyhow, SeqStore) result" where
  "seq_set_last_attested_l1_height s h = seq_kv_put s ''last_attested_l1_height'' (u32_to_string h)"

definition sequencer_seckey_hex :: "SeqStore \<Rightarrow> (Anyhow, string option) result" where
  "sequencer_seckey_hex s = seq_kv_get s ''sequencer_seckey''"

definition set_sequencer_seckey_hex :: "SeqStore \<Rightarrow> string \<Rightarrow> (Anyhow, SeqStore) result" where
  "set_sequencer_seckey_hex s hex = seq_kv_put s ''sequencer_seckey'' hex"

definition pending_attestations :: "serde \<Rightarrow> SeqStore \<Rightarrow> (Anyhow, PendingAttestation list) result" where
  "pending_attestations js s =
     rbind (seq_kv_get s ''pending_attestations'') (\<lambda>v. case v of
       None \<Rightarrow> Inr []
     | Some t \<Rightarrow> ok_or (pending_from_json js t) JsonError)"

definition set_pending_attestations ::
    "serde \<Rightarrow> SeqStore \<Rightarrow> PendingAttestation list \<Rightarrow> (Anyhow, SeqStore) result" where
  "set_pending_attestations js s l = seq_kv_put s ''pending_attestations'' (pending_to_json js l)"

section \<open>The store keeps the contract\<close>

lemmas seq_store_defs =
  seq_kv_get_def seq_kv_put_def seq_get_block_def seq_get_witness_def seq_load_latest_state_def
  seq_write_block_and_state_def

interpretation seq_kv: key_value seq_kv_get seq_kv_put
  by unfold_locales (auto simp: seq_kv_get_def seq_kv_put_def split: if_splits)

interpretation seq_db: block_store seq_kv_get seq_kv_put seq_get_block seq_get_witness
    seq_load_latest_state seq_write_block_and_state
  by unfold_locales
    (auto simp: seq_store_defs Let_def latest_row_insert simp del: not_None_eq split: if_splits)

lemma seq_cursor_roundtrip:
  "seq_set_l1_cursor s h = Inr s' \<Longrightarrow> seq_kv_get s ''l1_cursor'' = Inr w \<Longrightarrow> seq_l1_cursor s' = Inr (Some h)"
  unfolding seq_set_l1_cursor_def seq_l1_cursor_def seq_get_u32_def by (rule seq_kv.u32_roundtrip)

lemma seq_last_attested_roundtrip:
  "seq_set_last_attested_l1_height s h = Inr s' \<Longrightarrow> seq_kv_get s ''last_attested_l1_height'' = Inr w \<Longrightarrow>
     seq_last_attested_l1_height s' = Inr (Some h)"
  unfolding seq_set_last_attested_l1_height_def seq_last_attested_l1_height_def seq_get_u32_def
  by (rule seq_kv.u32_roundtrip)

lemma seq_anchor_roundtrip:
  "txid_str_ok x \<Longrightarrow> seq_set_anchor x s p = Inr s' \<Longrightarrow> seq_kv_get s ''anchor'' = Inr w \<Longrightarrow>
     seq_get_anchor x s' = Inr (Some p)"
  unfolding seq_set_anchor_def seq_get_anchor_def by (rule seq_kv.outpoint_roundtrip)

lemma seq_pending_roundtrip:
  assumes "serde_ok js" and "set_pending_attestations js s l = Inr s'"
    and "seq_kv_get s ''pending_attestations'' = Inr w"
  shows "pending_attestations js s' = Inr l"
  using seq_kv.put_get [OF assms(2) [unfolded set_pending_attestations_def] assms(3)] assms(1)
  by (simp add: pending_attestations_def serde_ok_def)

text \<open>The writers of named texts do not touch the chain.\<close>

lemmas seq_writers = seq_set_l1_cursor_def seq_set_anchor_def seq_set_last_attested_l1_height_def
  set_sequencer_seckey_hex_def set_pending_attestations_def

lemma seq_mirrors_open: "\<not> seq_db.mirrors seq_open bs S"
  by (simp add: seq_db.mirrors_def seq_open_def seq_load_latest_state_def)

end
