(* ===== verification/Bitcoind.thy ===== *)
theory Bitcoind
  imports SeqStore "HOL-Library.Sublist"
begin

text \<open>
  \<open>hodl-sequencer/src/bitcoind.rs\<close>: what the sequencer asks of \<open>bitcoind\<close>. The daemon is not
  under \<open>src/\<close>: \<open>BitcoindRpc\<close> is the set of answers it gives during one operation, and the
  code's reading of them is modelled. The two calls that both daemons of this repository
  make stand in the base record, which \<open>SeqRpc\<close> and the node's \<open>NodeRpc\<close> extend. Replies that
  the code reads as untyped JSON keep each field optional.
\<close>

record TxOutInfo =
  txo_value :: u64
  txo_script :: Script
  txo_confirmations :: u32

record BitcoindRpc =
  get_block_count :: "(string, u64) result"
  get_tx_out :: "Txid \<Rightarrow> u32 \<Rightarrow> (string, TxOutInfo option) result"

record Unspent =
  us_amount :: "rat option"
  us_txid :: "string option"
  us_vout :: "u64 option"

record TransactionReply =
  gt_confirmations :: "i64 option"
  gt_blockheight :: "u64 option"

record SendReply =
  sd_complete :: "bool option"
  sd_txid :: "string option"

record SeqRpc = BitcoindRpc +
  get_block_hash :: "u64 \<Rightarrow> (string, string) result"
  listunspent :: "(string, Unspent list) result"
  gettransaction :: "string \<Rightarrow> (string, TransactionReply) result"
  send_tx :: "string \<Rightarrow> string \<Rightarrow> u32 \<Rightarrow> (string, SendReply) result"

definition rpc :: "(string, 'a) result \<Rightarrow> (Anyhow, 'a) result" where
  "rpc r = map_err (\<lambda>_. RpcError) r"

lemma rpc_Inr [simp]: "rpc r = Inr a \<longleftrightarrow> r = Inr a"
  by (simp add: rpc_def)

lemma rpc_ok [simp]: "rpc (Inr a) = Inr a"
  by simp

datatype AttestationStatus =
    InMempool
  | Confirmed (st_confirmations: u32) (st_block_height: "u32 option")
  | Reorged
  | Missing

definition seq_block_count :: "'r BitcoindRpc_scheme \<Rightarrow> (Anyhow, u32) result" where
  "seq_block_count c =
     rbind (rpc (get_block_count c)) (\<lambda>n.
     if unat n < 2 ^ 32 then Inr (ucast n) else Inl (BlockCountOverflow n))"

definition block_hash_hex :: "SeqRpc \<Rightarrow> u32 \<Rightarrow> (Anyhow, string) result" where
  "block_hash_hex c height = rpc (get_block_hash c (ucast height))"

text \<open>\<open>Iterator::max_by_key\<close>: of several greatest elements the last one.\<close>

definition later_max :: "('a \<Rightarrow> 'b::linorder) \<Rightarrow> 'a \<Rightarrow> 'a \<Rightarrow> 'a" where
  "later_max f best y = (if f y < f best then best else y)"

fun max_by_key :: "('a \<Rightarrow> 'b::linorder) \<Rightarrow> 'a list \<Rightarrow> 'a option" where
  "max_by_key f [] = None"
| "max_by_key f (u # us) = Some (foldl (later_max f) u us)"

definition utxo_sats :: "Unspent \<Rightarrow> u64" where
  "utxo_sats u = (case us_amount u of Some a \<Rightarrow> f64_as_u64 (fl (a * 100000000)) | None \<Rightarrow> 0)"

definition pick_initial_anchor :: "ext \<Rightarrow> SeqRpc \<Rightarrow> (Anyhow, OutPoint) result" where
  "pick_initial_anchor x c =
     rbind (rpc (listunspent c)) (\<lambda>utxos.
     rbind (ok_or (max_by_key utxo_sats utxos) NoConfirmedUtxo) (\<lambda>best.
     rbind (ok_or (us_txid best) MissingTxid) (\<lambda>t.
     rbind (ok_or (us_vout best) MissingVout) (\<lambda>v.
     rbind (ok_or (txid_from_str x t) (BadTxid t)) (\<lambda>t.
     Inr (OutPoint t (ucast v)))))))"

definition attestation_status :: "ext \<Rightarrow> SeqRpc \<Rightarrow> Txid \<Rightarrow> (Anyhow, AttestationStatus) result" where
  "attestation_status x c t =
     (case gettransaction c (txid_to_string x t) of
        Inl msg \<Rightarrow>
          if sublist ''Invalid or non-wallet'' msg \<or> sublist ''not in mempool'' msg then Inr Missing
          else Inl RpcError
      | Inr reply \<Rightarrow>
          rbind (ok_or (gt_confirmations reply) NoConfirmations) (\<lambda>n.
          if sint n < 0 then Inr Reorged
          else if n = 0 then Inr InMempool
          else Inr (Confirmed (ucast n) (map_option ucast (gt_blockheight reply)))))"

definition post_attestation_chained ::
    "ext \<Rightarrow> SeqRpc \<Rightarrow> Attestation \<Rightarrow> OutPoint \<Rightarrow> (Anyhow, Txid \<times> OutPoint) result" where
  "post_attestation_chained x c att anchor_in =
     (let payload_hex = hex_encode x (attestation_encode att)
      in rbind (rpc (send_tx c payload_hex (txid_to_string x (txid anchor_in)) (vout anchor_in))) (\<lambda>reply.
         if sd_complete reply \<noteq> Some True then Inl SendIncomplete
         else rbind (ok_or (sd_txid reply) MissingTxid) (\<lambda>s.
              rbind (ok_or (txid_from_str x s) (BadTxid s)) (\<lambda>t.
              Inr (t, OutPoint t 1)))))"

section \<open>The L1 view of a daemon\<close>

definition seq_get_output :: "'r BitcoindRpc_scheme \<Rightarrow> OutPoint \<Rightarrow> L1Output option" where
  "seq_get_output c p =
     (case get_tx_out c (txid p) (vout p) of
        Inr (Some result) \<Rightarrow>
          (case get_block_count c of
             Inr n \<Rightarrow>
               let tip = ucast n; confs = txo_confirmations result
               in Some \<lparr> value_sat = txo_value result, script_pubkey = txo_script result,
                         confirmed_height = sat_add (sat_sub tip confs) 1, confirmations = confs \<rparr>
           | Inl _ \<Rightarrow> None)
      | _ \<Rightarrow> None)"

definition seq_tip_height :: "'r BitcoindRpc_scheme \<Rightarrow> u32" where
  "seq_tip_height c = (case get_block_count c of Inr n \<Rightarrow> ucast n | Inl _ \<Rightarrow> 0)"

definition seq_l1_view :: "'r BitcoindRpc_scheme \<Rightarrow> L1View" where
  "seq_l1_view c = \<lparr> get_output = seq_get_output c, tip_height = seq_tip_height c \<rparr>"

section \<open>What the readings mean\<close>

lemma foldl_later_max:
  "foldl (later_max f) b xs \<in> insert b (set xs) \<and> (\<forall>y\<in>insert b (set xs). f y \<le> f (foldl (later_max f) b xs))"
proof (induction xs arbitrary: b)
  case (Cons y xs)
  have b: "later_max f b y \<in> {b, y}" "f b \<le> f (later_max f b y)" "f y \<le> f (later_max f b y)"
    by (auto simp: later_max_def)
  from Cons.IH [of "later_max f b y"] show ?case
    using b by (auto intro: order_trans)
qed simp

lemma max_by_key_Some:
  "max_by_key f xs = Some m \<Longrightarrow> m \<in> set xs \<and> (\<forall>y\<in>set xs. f y \<le> f m)"
  using foldl_later_max [of f] by (cases xs) auto

lemma pick_initial_anchor_largest:
  assumes "pick_initial_anchor x c = Inr p"
  shows "\<exists>us u. listunspent c = Inr us \<and> u \<in> set us \<and> (\<forall>v\<in>set us. utxo_sats v \<le> utxo_sats u) \<and>
     (\<exists>t n. us_txid u = Some t \<and> us_vout u = Some n \<and> txid_from_str x t = Some (txid p) \<and> vout p = ucast n)"
proof -
  obtain us best t n q where us: "listunspent c = Inr us" "max_by_key utxo_sats us = Some best"
    "us_txid best = Some t" "us_vout best = Some n" "txid_from_str x t = Some q" "p = OutPoint q (ucast n)"
    using assms by (auto simp: pick_initial_anchor_def rbind_eq_Inr)
  have "best \<in> set us" "\<forall>v\<in>set us. utxo_sats v \<le> utxo_sats best"
    using max_by_key_Some [OF us(2)] by auto
  with us show ?thesis by (intro exI [of _ us] exI [of _ best]) auto
qed

text \<open>For a mined output the height computed from the tip and the depth is the height of its
  block: depth 1 is the tip itself.\<close>

lemma seq_get_output_height:
  assumes "seq_get_output c p = Some out" and "get_block_count c = Inr n" and "unat n < 2 ^ 32"
    and "1 \<le> unat (confirmations out)" and "unat (confirmations out) \<le> unat n"
  shows "unat (confirmed_height out) + unat (confirmations out) = unat n + 1"
proof -
  have tip: "unat (ucast n :: u32) = unat n"
    using assms(3) by (simp add: unsigned_ucast_eq take_bit_nat_eq_self)
  show ?thesis using assms tip unat_less_2p [of "ucast n :: u32"]
    by (auto simp: seq_get_output_def Let_def rust_arith split: sum.splits option.splits)
qed

lemma attestation_status_Missing:
  "attestation_status x c t = Inr Missing \<longleftrightarrow>
     (\<exists>msg. gettransaction c (txid_to_string x t) = Inl msg \<and>
        (sublist ''Invalid or non-wallet'' msg \<or> sublist ''not in mempool'' msg))"
  by (auto simp: attestation_status_def rbind_eq_Inr split: sum.splits)

lemma post_attestation_vout: "post_attestation_chained x c att a = Inr (t, p) \<Longrightarrow> p = OutPoint t 1"
  by (auto simp: post_attestation_chained_def Let_def rbind_eq_Inr)

end
