(* ===== verification/Producer.thy ===== *)
theory Producer
  imports Bitcoind
begin

text \<open>
  \<open>hodl-sequencer/src/shared.rs\<close> and \<open>producer.rs\<close>: the mempool, the in-memory head and
  ledger, block production, attestation posting and the watch over posted attestations.

  A method of \<open>Producer\<close> is an operation on \<open>Sequencer\<close>, the shared state together with the
  store. What it reads from \<open>bitcoind\<close> is an argument, one per point at which the code can see a
  new state of the daemon, and so is the clock.
\<close>

record Mempool =
  mints :: "MintEntry list"
  transfers :: "SignedTransfer list"
  pending_nullifiers :: "string fset"

definition Mempool_default :: Mempool where
  "Mempool_default = \<lparr> mints = [], transfers = [], pending_nullifiers = {||} \<rparr>"

definition Mempool_drain :: "Mempool \<Rightarrow> (MintEntry list \<times> SignedTransfer list) \<times> Mempool" where
  "Mempool_drain m =
     ((mints m, transfers m), m\<lparr> pending_nullifiers := {||}, mints := [], transfers := [] \<rparr>)"

record HeadInfo =
  hd_height :: u32
  hd_block_hash :: H256
  hd_state_root :: H256
  hd_l1_height :: u32
  hd_l1_block_hash :: H256

record Sequencer =
  sh_state :: LedgerState
  sh_mempool :: Mempool
  sh_head :: HeadInfo
  sh_identity :: Keypair
  sh_identity_pubkey :: XOnlyPublicKey
  sh_store :: SeqStore

definition Shared_new :: "ext \<Rightarrow> LedgerState \<Rightarrow> HeadInfo \<Rightarrow> Keypair \<Rightarrow> SeqStore \<Rightarrow> Sequencer" where
  "Shared_new x st h identity store =
     \<lparr> sh_state = st, sh_mempool = Mempool_default, sh_head = h, sh_identity = identity,
       sh_identity_pubkey = keypair_xonly x identity, sh_store = store \<rparr>"

definition REORG_FINALITY_DEPTH :: u32 where "REORG_FINALITY_DEPTH = 2"

text \<open>A statement on the locked store.\<close>

definition store_write :: "(SeqStore \<Rightarrow> (Anyhow, SeqStore) result) \<Rightarrow> (Sequencer, unit) op" where
  "store_write f = op_write (\<lambda>q. rbind (f (sh_store q)) (\<lambda>s. Inr (q\<lparr>sh_store := s\<rparr>)))"

definition store_read :: "(SeqStore \<Rightarrow> (Anyhow, 'a) result) \<Rightarrow> (Sequencer, 'a) op" where
  "store_read f = op_result (\<lambda>q. f (sh_store q))"

section \<open>Filling a block\<close>

text \<open>The two loops of \<open>produce_block\<close>. A mint is verified again and its event recomputed; what
  does not verify or does not apply is left out.\<close>

definition include_tx :: "ext \<Rightarrow> L2Tx \<Rightarrow> LedgerState \<times> L2Tx list \<Rightarrow> LedgerState \<times> L2Tx list" where
  "include_tx x tx = (\<lambda>(state_clone, ts).
     case apply_tx x tx state_clone of
       Inr next \<Rightarrow> (next, ts @ [tx])
     | Inl _ \<Rightarrow> (state_clone, ts))"

definition include_mint :: "ext \<Rightarrow> L1View \<Rightarrow> MintEntry \<Rightarrow> LedgerState \<times> L2Tx list \<Rightarrow> LedgerState \<times> L2Tx list" where
  "include_mint x l1 entry acc =
     (case MintProofEnvelope_verify x l1 (witness entry) (l2_destination (event entry)) of
        Inl _ \<Rightarrow> acc
      | Inr cr \<Rightarrow> include_tx x (Mint \<lparr> event = credit_event cr, witness = witness entry \<rparr>) acc)"

definition build_txs ::
    "ext \<Rightarrow> L1View \<Rightarrow> MintEntry list \<Rightarrow> SignedTransfer list \<Rightarrow> LedgerState \<Rightarrow> LedgerState \<times> L2Tx list" where
  "build_txs x l1 ms ts prior_state =
     fold (\<lambda>st. include_tx x (Transfer st)) ts (fold (include_mint x l1) ms (prior_state, []))"

definition new_block ::
    "ext \<Rightarrow> HeadInfo \<Rightarrow> H256 \<Rightarrow> u32 \<Rightarrow> u64 \<Rightarrow> XOnlyPublicKey \<Rightarrow> LedgerState \<Rightarrow> L2Tx list \<Rightarrow> L2Block" where
  "new_block x h l1hash l1h now who state_clone ts =
     \<lparr> header = \<lparr> bh_height = hd_height h + 1, prev_hash = hd_block_hash h, l1_block_hash = l1hash,
         l1_height = l1h, txs_root = compute_txs_root x ts, bh_state_root = state_root x state_clone,
         timestamp = now, anchor_outpoint = None, bh_producer = Some who, bh_fee_address = None \<rparr>,
       txs = ts \<rparr>"

definition head_of :: "ext \<Rightarrow> L2Block \<Rightarrow> HeadInfo" where
  "head_of x block = \<lparr> hd_height = bh_height (header block), hd_block_hash = L2Block_hash x block,
     hd_state_root = bh_state_root (header block), hd_l1_height = L2BlockHeader.l1_height (header block),
     hd_l1_block_hash = L2BlockHeader.l1_block_hash (header block) \<rparr>"

definition drain_mempool :: "(Sequencer, MintEntry list \<times> SignedTransfer list) op" where
  "drain_mempool q = (let (drained, m) = Mempool_drain (sh_mempool q) in (Inr drained, q\<lparr>sh_mempool := m\<rparr>))"

definition produce_block :: "ext \<Rightarrow> SeqRpc \<Rightarrow> u64 \<Rightarrow> (Sequencer, unit) op" where
  "produce_block x c now =
     op_bind (op_result (\<lambda>_. seq_block_count c)) (\<lambda>l1h.
     op_bind (op_result (\<lambda>_. block_hash_hex c l1h)) (\<lambda>hex.
     op_bind (op_result (\<lambda>_. parse_l1_block_hash x hex)) (\<lambda>l1hash.
     op_bind drain_mempool (\<lambda>(ms, ts).
     op_bind (op_gets sh_state) (\<lambda>prior_state.
     let (state_clone, included) = build_txs x (seq_l1_view c) ms ts prior_state
     in op_bind (op_gets sh_head) (\<lambda>h.
        op_bind (op_gets sh_identity_pubkey) (\<lambda>who.
        let block = new_block x h l1hash l1h now who state_clone included;
            w = BlockWitness_build x prior_state (txs block) (hd_height h + 1)
        in op_bind (op_modify (\<lambda>q. q\<lparr>sh_state := state_clone\<rparr>)) (\<lambda>_.
           op_bind (op_gets sh_state) (\<lambda>st.
           op_bind (store_write (\<lambda>s. seq_write_block_and_state s block st w)) (\<lambda>_.
           op_bind (store_write (\<lambda>s. seq_set_l1_cursor s l1h)) (\<lambda>_.
           op_modify (\<lambda>q. q\<lparr>sh_head := head_of x block\<rparr>))))))))))))"

section \<open>Attestations\<close>

definition last_attested :: "SeqStore \<Rightarrow> (Anyhow, u32) result" where
  "last_attested s =
     rbind (seq_last_attested_l1_height s) (\<lambda>l. Inr (case l of
       Some h \<Rightarrow> h
     | None \<Rightarrow> (case seq_l1_cursor s of Inr (Some h) \<Rightarrow> h | _ \<Rightarrow> 0)))"

definition pending_of :: "ext \<Rightarrow> Txid \<Rightarrow> OutPoint \<Rightarrow> OutPoint \<Rightarrow> u32 \<Rightarrow> u32 \<Rightarrow> PendingAttestation" where
  "pending_of x t spent new_anchor height tip =
     \<lparr> pa_txid = txid_to_string x t, pa_spent_anchor = show_outpoint x spent,
       pa_new_anchor = show_outpoint x new_anchor, pa_l2_head_height = height,
       pa_posted_at_l1_height = tip \<rparr>"

text \<open>The part of \<open>check_and_attest\<close> after the block has been produced.\<close>

definition attest_head :: "ext \<Rightarrow> serde \<Rightarrow> SeqRpc \<Rightarrow> u32 \<Rightarrow> (Sequencer, unit) op" where
  "attest_head x js c_post tip =
     op_bind (op_gets sh_head) (\<lambda>h.
     op_bind (store_read (\<lambda>s. rbind (seq_get_anchor x s) (\<lambda>a. ok_or a NoAnchor))) (\<lambda>anchor.
     case post_attestation_chained x c_post
            (Attestation_new (hd_height h) (hd_block_hash h) (hd_state_root h)) anchor of
       Inr (t, new_anchor) \<Rightarrow>
         op_bind (store_write (\<lambda>s. seq_set_anchor x s new_anchor)) (\<lambda>_.
         op_bind (store_write (\<lambda>s. seq_set_last_attested_l1_height s tip)) (\<lambda>_.
         op_bind (store_read (pending_attestations js)) (\<lambda>pending.
         store_write (\<lambda>s. set_pending_attestations js s
           (pending @ [pending_of x t anchor new_anchor (hd_height h) tip])))))
     | Inl _ \<Rightarrow> op_return ()))"

definition check_and_attest ::
    "ext \<Rightarrow> serde \<Rightarrow> SeqRpc \<Rightarrow> SeqRpc \<Rightarrow> SeqRpc \<Rightarrow> u64 \<Rightarrow> (Sequencer, unit) op" where
  "check_and_attest x js c c_block c_post now =
     op_bind (op_result (\<lambda>_. seq_block_count c)) (\<lambda>tip.
     op_bind (store_read last_attested) (\<lambda>attested.
     if tip \<le> attested then op_return ()
     else
       op_bind (produce_block x c_block now) (\<lambda>_.
       attest_head x js c_post tip)))"

definition monitor_one ::
    "ext \<Rightarrow> SeqRpc \<Rightarrow> PendingAttestation \<Rightarrow> PendingAttestation list \<times> OutPoint option \<Rightarrow>
     (Anyhow, PendingAttestation list \<times> OutPoint option) result" where
  "monitor_one x c p = (\<lambda>(surviving, anchor_to_revert).
     rbind (ok_or (txid_from_str x (pa_txid p)) (BadTxid (pa_txid p))) (\<lambda>t.
     rbind (attestation_status x c t) (\<lambda>status. case status of
       Confirmed n _ \<Rightarrow>
         if REORG_FINALITY_DEPTH \<le> n then Inr (surviving, anchor_to_revert)
         else Inr (surviving @ [p], anchor_to_revert)
     | InMempool \<Rightarrow> Inr (surviving @ [p], anchor_to_revert)
     | Reorged \<Rightarrow> Inr (surviving @ [p], anchor_to_revert)
     | Missing \<Rightarrow> rbind (parse_outpoint x (pa_spent_anchor p)) (\<lambda>spent. Inr (surviving, Some spent)))))"

definition monitor_pending :: "ext \<Rightarrow> serde \<Rightarrow> SeqRpc \<Rightarrow> (Sequencer, unit) op" where
  "monitor_pending x js c =
     op_bind (store_read (pending_attestations js)) (\<lambda>pending.
     if pending = [] then op_return ()
     else
       op_bind (op_result (\<lambda>_. rfold (monitor_one x c) pending ([], None))) (\<lambda>(surviving, anchor_to_revert).
       op_bind (store_write (\<lambda>s. set_pending_attestations js s surviving)) (\<lambda>_.
       case anchor_to_revert of
         None \<Rightarrow> op_return ()
       | Some revert_to \<Rightarrow>
           op_bind (store_write (\<lambda>s. seq_set_anchor x s revert_to)) (\<lambda>_.
           op_bind (store_read seq_last_attested_l1_height) (\<lambda>l.
           let attested = (case l of Some h \<Rightarrow> h | None \<Rightarrow> 0)
           in if 0 < attested
              then store_write (\<lambda>s. seq_set_last_attested_l1_height s (sat_sub attested 1))
              else op_return ())))))"

text \<open>The two arms of the \<open>select!\<close> loop. Their errors are logged and dropped.\<close>

definition block_tick :: "ext \<Rightarrow> SeqRpc \<Rightarrow> u64 \<Rightarrow> Sequencer \<Rightarrow> Sequencer" where
  "block_tick x c now q = snd (produce_block x c now q)"

definition l1_tick :: "ext \<Rightarrow> serde \<Rightarrow> SeqRpc \<Rightarrow> SeqRpc \<Rightarrow> SeqRpc \<Rightarrow> SeqRpc \<Rightarrow> u64 \<Rightarrow> Sequencer \<Rightarrow> Sequencer" where
  "l1_tick x js c0 c c_block c_post now q =
     snd (check_and_attest x js c c_block c_post now (snd (monitor_pending x js c0 q)))"

end
