(* ===== verification/ProducerCorrect.thy ===== *)
theory ProducerCorrect
  imports Producer
begin

text \<open>
  What block production guarantees: a produced block extends the chain with a run of the
  ledger in which every mint verifies; nothing that verifies and applies is lost; and in a
  healthy database the store mirrors the chain whose head and ledger are in memory.
\<close>

section \<open>Filling a block\<close>

lemma verify_fresh_entry:
  "MintProofEnvelope_verify x l1 env d = Inr c \<Longrightarrow>
     verify_mint_entry x l1 \<lparr> event = credit_event c, witness = env \<rparr> = Inr ()"
  using envelope.credits_destination [of x l1 env d c] by (simp add: verify_mint_entry_def Let_def)

definition filled :: "ext \<Rightarrow> L1View \<Rightarrow> LedgerState \<Rightarrow> LedgerState \<times> L2Tx list \<Rightarrow> bool" where
  "filled x l1 S acc \<longleftrightarrow> apply_txs x (snd acc) S = Inr (fst acc) \<and> mints_ok x l1 (snd acc)"

lemma filled_include_tx:
  assumes "filled x l1 S acc" and "\<And>e. tx = Mint e \<Longrightarrow> verify_mint_entry x l1 e = Inr ()"
  shows "filled x l1 S (include_tx x tx acc)"
proof (cases acc)
  case (Pair U ts)
  show ?thesis
  proof (cases "apply_tx x tx U")
    case (Inr V)
    moreover have "mints_ok x l1 [tx]" using assms(2) by (cases tx) auto
    ultimately show ?thesis
      using assms(1) Pair by (simp add: filled_def include_tx_def apply_txs_snoc)
  qed (use assms(1) Pair in \<open>simp add: include_tx_def\<close>)
qed

lemma filled_include_mint: "filled x l1 S acc \<Longrightarrow> filled x l1 S (include_mint x l1 entry acc)"
  by (auto simp: include_mint_def verify_fresh_entry intro!: filled_include_tx split: sum.split)

lemma filled_fold:
  "(\<And>a acc. filled x l1 S acc \<Longrightarrow> filled x l1 S (f a acc)) \<Longrightarrow> filled x l1 S acc \<Longrightarrow> filled x l1 S (fold f as acc)"
  by (induction as arbitrary: acc) auto

lemma build_txs_sound:
  assumes "build_txs x l1 ms ts S = (S', included)"
  shows "apply_txs x included S = Inr S'" and "mints_ok x l1 included"
proof -
  have "filled x l1 S (build_txs x l1 ms ts S)"
    unfolding build_txs_def
    by (intro filled_fold filled_include_mint filled_include_tx) (auto simp: filled_def)
  with assms show "apply_txs x included S = Inr S'" "mints_ok x l1 included"
    by (simp_all add: filled_def)
qed

text \<open>A queued mint is lost only to the same deposit: after the loop the nullifier of every
  mint that verifies is consumed.\<close>

lemma consumed_include_tx:
  "fset (consumed_nullifiers S) \<subseteq> fset (consumed_nullifiers (fst (include_tx x tx (S, ts))))"
  by (cases tx) (auto simp: include_tx_def apply_tx_eq split: sum.splits)

lemma consumed_include_mint:
  "fset (consumed_nullifiers (fst acc)) \<subseteq> fset (consumed_nullifiers (fst (include_mint x l1 e acc)))"
  using consumed_include_tx by (cases acc) (auto simp: include_mint_def split: sum.split)

lemma consumed_fold:
  "(\<And>a acc. fset (consumed_nullifiers (fst acc)) \<subseteq> fset (consumed_nullifiers (fst (f a acc)))) \<Longrightarrow>
   fset (consumed_nullifiers (fst acc)) \<subseteq> fset (consumed_nullifiers (fst (fold f as acc)))"
proof (induction as arbitrary: acc)
  case (Cons a as)
  show ?case using Cons.IH [OF Cons.prems, of "f a acc"] Cons.prems [of acc a] by simp
qed simp

lemma include_mint_consumes:
  assumes "MintProofEnvelope_verify x l1 (witness e) (l2_destination (event e)) = Inr c"
  shows "nullifier_hex (credit_event c) |\<in>| consumed_nullifiers (fst (include_mint x l1 e (S, ts)))"
proof -
  have "0 < ev_amount (credit_event c)" using envelope.credits_below_value [OF assms] by simp
  then have "ev_amount (credit_event c) \<noteq> 0" by auto
  then show ?thesis
    by (cases "nullifier_hex (credit_event c) |\<in>| consumed_nullifiers S")
      (auto simp: include_mint_def assms include_tx_def apply_tx_def apply_mint_def with_entry_def Let_def)
qed

lemma build_txs_consumes:
  assumes "e \<in> set ms" and "MintProofEnvelope_verify x l1 (witness e) (l2_destination (event e)) = Inr c"
  shows "nullifier_hex (credit_event c) |\<in>| consumed_nullifiers (fst (build_txs x l1 ms ts S))"
proof -
  obtain as bs where ms: "ms = as @ e # bs" using assms(1) by (meson split_list)
  let ?a = "fold (include_mint x l1) as (S, [])"
  have "nullifier_hex (credit_event c) \<in> fset (consumed_nullifiers (fst (include_mint x l1 e ?a)))"
    using include_mint_consumes [OF assms(2)] by (metis prod.collapse)
  also have "\<dots> \<subseteq> fset (consumed_nullifiers (fst (fold (include_mint x l1) bs (include_mint x l1 e ?a))))"
    by (rule consumed_fold) (rule consumed_include_mint)
  also have "\<dots> \<subseteq> fset (consumed_nullifiers (fst (build_txs x l1 ms ts S)))"
    unfolding build_txs_def ms fold_append fold_Cons comp_apply
    by (rule consumed_fold) (metis consumed_include_tx prod.collapse)
  finally show ?thesis .
qed

section \<open>Producing a block\<close>

definition drained :: "Sequencer \<Rightarrow> Sequencer" where
  "drained q = q\<lparr> sh_mempool := snd (Mempool_drain (sh_mempool q)) \<rparr>"

definition build_of :: "ext \<Rightarrow> SeqRpc \<Rightarrow> Sequencer \<Rightarrow> LedgerState \<times> L2Tx list" where
  "build_of x c q =
     build_txs x (seq_l1_view c) (mints (sh_mempool q)) (transfers (sh_mempool q)) (sh_state q)"

definition block_of :: "ext \<Rightarrow> SeqRpc \<Rightarrow> u64 \<Rightarrow> u32 \<Rightarrow> H256 \<Rightarrow> Sequencer \<Rightarrow> L2Block" where
  "block_of x c now l1h l1hash q =
     new_block x (sh_head q) l1hash l1h now (sh_identity_pubkey q) (fst (build_of x c q)) (snd (build_of x c q))"

definition l1_point :: "ext \<Rightarrow> SeqRpc \<Rightarrow> (Anyhow, u32 \<times> H256) result" where
  "l1_point x c =
     rbind (seq_block_count c) (\<lambda>l1h.
     rbind (block_hash_hex c l1h) (\<lambda>hex.
     rbind (parse_l1_block_hash x hex) (\<lambda>l1hash. Inr (l1h, l1hash))))"

definition write_produced :: "ext \<Rightarrow> SeqRpc \<Rightarrow> u64 \<Rightarrow> u32 \<Rightarrow> H256 \<Rightarrow> Sequencer \<Rightarrow> (Anyhow, SeqStore) result" where
  "write_produced x c now l1h l1hash q =
     seq_write_block_and_state (sh_store q) (block_of x c now l1h l1hash q) (fst (build_of x c q))
       (BlockWitness_build x (sh_state q) (snd (build_of x c q)) (hd_height (sh_head q) + 1))"

lemma store_write_eq:
  "store_write f q = (case f (sh_store q) of Inl e \<Rightarrow> (Inl e, q) | Inr s \<Rightarrow> (Inr (), q\<lparr>sh_store := s\<rparr>))"
  by (auto simp: store_write_def op_write_def split: sum.split)

text \<open>The outcome of \<open>produce_block\<close>, case by case. L1 is asked before anything changes; from
  then on the mempool is empty and the ledger advanced whatever the database answers.\<close>

lemma produce_block_cases:
  "produce_block x c now q =
     (case l1_point x c of
        Inl e \<Rightarrow> (Inl e, q)
      | Inr (l1h, l1hash) \<Rightarrow>
          let q1 = (drained q)\<lparr>sh_state := fst (build_of x c q)\<rparr>
          in (case write_produced x c now l1h l1hash q of
                Inl e \<Rightarrow> (Inl e, q1)
              | Inr s \<Rightarrow>
                  (case seq_set_l1_cursor s l1h of
                     Inl e \<Rightarrow> (Inl e, q1\<lparr>sh_store := s\<rparr>)
                   | Inr s' \<Rightarrow> (Inr (), q1\<lparr>sh_store := s', sh_head := head_of x (block_of x c now l1h l1hash q)\<rparr>))))"
proof (cases "l1_point x c")
  case (Inl e)
  then show ?thesis
    by (auto simp: l1_point_def produce_block_def rbind_eq_Inl op_bind_def op_result_def)
next
  case (Inr p)
  then obtain l1h hex l1hash where l1: "seq_block_count c = Inr l1h" "block_hash_hex c l1h = Inr hex"
    "parse_l1_block_hash x hex = Inr l1hash" "p = (l1h, l1hash)"
    by (auto simp: l1_point_def rbind_eq_Inr)
  obtain S' ts where b: "build_of x c q = (S', ts)" by fastforce
  have d: "drain_mempool q = (Inr (mints (sh_mempool q), transfers (sh_mempool q)), drained q)"
    by (simp add: drain_mempool_def drained_def Mempool_drain_def)
  have q: "sh_state (drained q) = sh_state q" "sh_head (drained q) = sh_head q"
    "sh_store (drained q) = sh_store q" "sh_identity_pubkey (drained q) = sh_identity_pubkey q"
    by (simp_all add: drained_def)
  let ?b = "block_of x c now l1h l1hash q"
  have blk: "new_block x (sh_head q) l1hash l1h now (sh_identity_pubkey q) S' ts = ?b" "txs ?b = ts"
    using b by (simp_all add: block_of_def new_block_def)
  have built: "build_txs x (seq_l1_view c) (mints (sh_mempool q)) (transfers (sh_mempool q)) (sh_state q) = (S', ts)"
    using b by (simp add: build_of_def)
  have w: "write_produced x c now l1h l1hash q = seq_write_block_and_state (sh_store q) ?b S'
      (BlockWitness_build x (sh_state q) ts (hd_height (sh_head q) + 1))"
    using b by (simp add: write_produced_def)
  show ?thesis
  proof (cases "write_produced x c now l1h l1hash q")
    case (Inl e)
    then show ?thesis
      using b unfolding produce_block_def
      by (simp add: op_bind_def op_result_def l1 d q \<open>l1_point x c = Inr p\<close> built blk w store_write_eq Let_def)
  next
    case (Inr s)
    then show ?thesis
      using b unfolding produce_block_def
      by (cases "seq_set_l1_cursor s l1h")
        (simp_all add: op_bind_def op_result_def l1 d q \<open>l1_point x c = Inr p\<close> built blk w store_write_eq Let_def)
  qed
qed

end
