(* ===== verification/SeqApi.thy ===== *)
theory SeqApi
  imports ProducerCorrect Address
begin

text \<open>
  \<open>hodl-sequencer/src/api.rs\<close> and the start-up code of \<open>main.rs\<close>: the HTTP handlers as
  functions on \<open>Sequencer\<close>, the service they present to a client, the identity key, and the
  creation or resumption of the chain.

  A handler takes the locks one after the other, so \<open>submit_mint\<close> is two steps: a check of
  the ledger and the insertion into the mempool. \<open>submit_mint\<close> is their composition when nothing
  comes between, and \<open>SeqSystem\<close> interleaves them with everything else.
\<close>

definition show_u32 :: "u32 \<Rightarrow> string" where "show_u32 = u32_to_string"
definition show_u64 :: "u64 \<Rightarrow> string" where "show_u64 n = nat_to_string (unat n)"

text \<open>The \<open>Display\<close> texts of \<open>MintError\<close>.\<close>

definition show_mint_error :: "MintError \<Rightarrow> string" where
  "show_mint_error e = (case e of
     EventMismatch f \<Rightarrow> ''declared mint event disagrees with witness-derived credit: '' @ f
   | OutpointNotFound \<Rightarrow> ''L1 outpoint not found''
   | NotEnoughConfirmations n k \<Rightarrow> ''insufficient confirmations: '' @ show_u32 n @ '' < '' @ show_u32 k
   | ScriptMismatch \<Rightarrow> ''scriptPubKey does not match the revealed tapleaf under NUMS H''
   | BadSignature \<Rightarrow> ''invalid Schnorr signature over the mint message''
   | BadLockBlocks n m \<Rightarrow> ''invalid lock duration: lock_blocks='' @ show_u32 n @ '', must be in [1, '' @ show_u32 m @ '']''
   | ValueMismatch v c \<Rightarrow> ''value mismatch: on-chain '' @ show_u64 v @ '' vs claimed '' @ show_u64 c
   | AmountOverflow \<Rightarrow> ''mint amount underflowed/overflowed''
   | ClaimedHeightBeforeCreate c k \<Rightarrow>
       ''claimed height '' @ show_u32 c @ '' is before lock creation height '' @ show_u32 k
   | LockExpired c u \<Rightarrow> ''lock expired: claimed height '' @ show_u32 c @ '' >= unlock height '' @ show_u32 u
   | ClaimedHeightInFuture c t \<Rightarrow>
       ''claimed height '' @ show_u32 c @ '' is in the future (L1 tip is '' @ show_u32 t @ '')'')"

section \<open>Soft confirmations\<close>

definition sign_soft_conf :: "ext \<Rightarrow> Sequencer \<Rightarrow> H256 \<Rightarrow> u64 \<Rightarrow> SoftConf" where
  "sign_soft_conf x q h now =
     (let target = hd_height (sh_head q) + 1;
          digest = softconf_sighash x h target now
      in \<lparr> sc_tx_hash = h, target_l2_height = target, accepted_at_unix = now,
           sequencer_sig = sign_schnorr x digest (sh_identity q) \<rparr>)"

section \<open>Submitting a mint\<close>

definition mint_rejected :: "string \<Rightarrow> SubmitMintResponse" where
  "mint_rejected msg = \<lparr> mint_accepted = False, mint_error = Some msg, mint_amount = None,
     mint_nullifier = None, mint_soft_conf = None \<rparr>"

definition submit_mint_check ::
    "ext \<Rightarrow> L1View \<Rightarrow> SubmitMintRequest \<Rightarrow> LedgerState \<Rightarrow> (SubmitMintResponse, MintEntry) result" where
  "submit_mint_check x l1 req st =
     (case MintProofEnvelope_verify x l1 (smr_proof req) (smr_destination req) of
        Inl e \<Rightarrow> Inl (mint_rejected (show_mint_error e))
      | Inr cr \<Rightarrow>
          if nullifier_hex (credit_event cr) |\<in>| consumed_nullifiers st
          then Inl (mint_rejected ''nullifier already consumed'')
          else Inr \<lparr> event = credit_event cr, witness = smr_proof req \<rparr>)"

definition submit_mint_enqueue ::
    "ext \<Rightarrow> MintEntry \<Rightarrow> u64 \<Rightarrow> Sequencer \<Rightarrow> SubmitMintResponse \<times> Sequencer" where
  "submit_mint_enqueue x entry now q =
     (let n = nullifier_hex (event entry); m = sh_mempool q
      in if n |\<in>| pending_nullifiers m then (mint_rejected ''nullifier already in mempool'', q)
         else
           let q' = q\<lparr>sh_mempool := m\<lparr> pending_nullifiers := finsert n (pending_nullifiers m),
                                      mints := mints m @ [entry] \<rparr>\<rparr>
           in (\<lparr> mint_accepted = True, mint_error = None, mint_amount = Some (ev_amount (event entry)),
                 mint_nullifier = Some n,
                 mint_soft_conf = Some (sign_soft_conf x q' (tx_hash x (Mint entry)) now) \<rparr>, q'))"

definition submit_mint ::
    "ext \<Rightarrow> L1View \<Rightarrow> SubmitMintRequest \<Rightarrow> u64 \<Rightarrow> Sequencer \<Rightarrow> SubmitMintResponse \<times> Sequencer" where
  "submit_mint x l1 req now q =
     (case submit_mint_check x l1 req (sh_state q) of
        Inl r \<Rightarrow> (r, q)
      | Inr entry \<Rightarrow> submit_mint_enqueue x entry now q)"

section \<open>Submitting a transfer\<close>

definition transfer_rejected :: "string \<Rightarrow> SubmitTransferResponse" where
  "transfer_rejected msg =
     \<lparr> transfer_accepted = False, transfer_error = Some msg, transfer_soft_conf = None \<rparr>"

definition submit_transfer ::
    "ext \<Rightarrow> SignedTransfer \<Rightarrow> u64 \<Rightarrow> Sequencer \<Rightarrow> SubmitTransferResponse \<times> Sequencer" where
  "submit_transfer x t now q =
     (if \<not> verify_schnorr x (signature t) (transfer_sighash x (body t)) (tb_from (body t))
      then (transfer_rejected ''bad signature'', q)
      else
        let expected = nonce_of (sh_state q) (tb_from (body t))
        in if tb_nonce (body t) \<noteq> expected
           then (transfer_rejected (''nonce mismatch: expected '' @ show_u64 expected @ '', got ''
                   @ show_u64 (tb_nonce (body t))), q)
           else
             let m = sh_mempool q; q' = q\<lparr>sh_mempool := m\<lparr>transfers := transfers m @ [t]\<rparr>\<rparr>
             in (\<lparr> transfer_accepted = True, transfer_error = None,
                   transfer_soft_conf = Some (sign_soft_conf x q' (tx_hash x (Transfer t)) now) \<rparr>, q'))"

section \<open>Reading\<close>

definition seq_get_head :: "Sequencer \<Rightarrow> HeadResponse" where
  "seq_get_head q =
     \<lparr> hr_height = hd_height (sh_head q), hr_block_hash = hd_block_hash (sh_head q),
       hr_state_root = hd_state_root (sh_head q), hr_l1_height = hd_l1_height (sh_head q) \<rparr>"

definition seq_parse_xonly :: "ext \<Rightarrow> string \<Rightarrow> (Anyhow, XOnlyPublicKey) result" where
  "seq_parse_xonly x s =
     (let lower = to_ascii_lowercase s;
          looks_bech32m = (case split_once CHR ''1'' lower of
             Some (h, _) \<Rightarrow> h \<in> {''hc'', ''thc'', ''hcrt''} | None \<Rightarrow> False)
      in if looks_bech32m
         then rbind (map_err (\<lambda>_. BadAddress) (address_decode x s)) (\<lambda>(pk, _). Inr pk)
         else rbind (ok_or (hex_decode x s) BadHex) (\<lambda>bs. ok_or (xonly_from_slice x bs) BadKey))"

definition seq_balance :: "ext \<Rightarrow> L2Address \<Rightarrow> Sequencer \<Rightarrow> BalanceResponse" where
  "seq_balance x addr q =
     (let st = sh_state q;
          comps = components x st;
          pending_from_addr =
            of_nat (length (filter (\<lambda>t. tb_from (body t) = addr) (transfers (sh_mempool q))))
      in \<lparr> br_address = addr, br_balance = balance_of st addr, br_nonce = nonce_of st addr,
           br_effective_nonce = sat_add (nonce_of st addr) pending_from_addr,
           br_l2_height = hd_height (sh_head q), br_state_root = components_state_root x comps,
           br_components = comps, br_proof = account_inclusion_proof x st addr,
           br_total_minted = total_minted_atoms st \<rparr>)"

definition seq_get_balance :: "ext \<Rightarrow> string \<Rightarrow> Sequencer \<Rightarrow> (Anyhow, BalanceResponse) result" where
  "seq_get_balance x addr_hex q = rbind (seq_parse_xonly x addr_hex) (\<lambda>addr. Inr (seq_balance x addr q))"

definition seq_get_block_handler :: "Sequencer \<Rightarrow> u32 \<Rightarrow> (Anyhow, L2Block option) result" where
  "seq_get_block_handler q height = seq_get_block (sh_store q) height"

definition seq_get_witness_handler :: "Sequencer \<Rightarrow> u32 \<Rightarrow> (Anyhow, BlockWitness option) result" where
  "seq_get_witness_handler q height = seq_get_witness (sh_store q) height"

text \<open>The router, for a client that writes an address as the hexadecimal of its key. There is no
  route \<open>/nullifiers\<close>.\<close>

definition seq_router :: "ext \<Rightarrow> L1View \<Rightarrow> u64 \<Rightarrow> Sequencer \<Rightarrow> Service" where
  "seq_router x l1 now q =
     \<lparr> srv_submit_mint = (\<lambda>req. Inr (fst (submit_mint x l1 req now q))),
       srv_submit_transfer = (\<lambda>t. Inr (fst (submit_transfer x t now q))),
       srv_block = (\<lambda>h. http_row (seq_get_block_handler q h)),
       srv_head = Inr (seq_get_head q),
       srv_balance = (\<lambda>a. http (seq_get_balance x (hex_encode x (serialize a)) q)),
       srv_witness = (\<lambda>h. http_row (seq_get_witness_handler q h)),
       srv_nullifiers = Inl (HttpStatus 404) \<rparr>"

section \<open>Start-up\<close>

text \<open>\<open>load_or_create_identity\<close>; the fresh key is an argument. Keys are their 32 bytes, and
  \<open>seckey_ok\<close> is the range check of \<open>SecretKey::from_slice\<close>.\<close>

definition load_or_create_identity ::
    "ext \<Rightarrow> (bytes \<Rightarrow> Keypair option) \<Rightarrow> Keypair \<Rightarrow> (SeqStore, Keypair) op" where
  "load_or_create_identity x seckey fresh =
     op_bind (op_result sequencer_seckey_hex) (\<lambda>v. case v of
       Some h \<Rightarrow> op_result (\<lambda>_. rbind (ok_or (hex_decode x h) BadHex) (\<lambda>bs. ok_or (seckey bs) BadKey))
     | None \<Rightarrow>
         op_bind (op_write (\<lambda>s. set_sequencer_seckey_hex s (hex_encode x (be_bytes 32 fresh)))) (\<lambda>_.
         op_return fresh))"

definition seq_resume :: "ext \<Rightarrow> u32 \<Rightarrow> LedgerState \<Rightarrow> SeqStore \<Rightarrow> (Anyhow, LedgerState \<times> HeadInfo) result" where
  "seq_resume x height st s =
     rbind (seq_l1_cursor s) (\<lambda>_.
     rbind (seq_get_block s height) (\<lambda>b.
     rbind (ok_or b (InconsistentSnapshot height)) (\<lambda>block.
     Inr (st, head_of x block))))"

text \<open>The wait for the genesis height is over when \<open>c\<close> answers: its tip is at least \<open>target\<close>.\<close>

definition seq_init ::
    "ext \<Rightarrow> u32 \<Rightarrow> SeqRpc \<Rightarrow> u64 \<Rightarrow> Keypair \<Rightarrow> (SeqStore, LedgerState \<times> HeadInfo) op" where
  "seq_init x target c now identity =
     op_bind (op_result (\<lambda>_. block_hash_hex c target)) (\<lambda>hex.
     op_bind (op_result (\<lambda>_. parse_l1_block_hash x hex)) (\<lambda>l1hash.
     op_bind (op_result (\<lambda>_. pick_initial_anchor x c)) (\<lambda>anchor_0.
     let pk = keypair_xonly x identity;
         block = genesis x l1hash target now anchor_0 (Some pk) (Some pk);
         st = LedgerState_new\<lparr>sequencer_fee_address := Some pk\<rparr>;
         w = BlockWitness_build x st (txs block) 0
     in op_bind (op_write (\<lambda>s. seq_write_block_and_state s block st w)) (\<lambda>_.
        op_bind (op_write (\<lambda>s. seq_set_l1_cursor s target)) (\<lambda>_.
        op_bind (op_write (\<lambda>s. seq_set_anchor x s anchor_0)) (\<lambda>_.
        op_return (st, \<lparr> hd_height = 0, hd_block_hash = L2Block_hash x block,
          hd_state_root = bh_state_root (header block), hd_l1_height = target,
          hd_l1_block_hash = l1hash \<rparr>)))))))"

definition seq_bootstrap ::
    "ext \<Rightarrow> u32 \<Rightarrow> SeqRpc \<Rightarrow> u64 \<Rightarrow> Keypair \<Rightarrow> (SeqStore, LedgerState \<times> HeadInfo) op" where
  "seq_bootstrap x target c now identity =
     op_bind (op_result seq_load_latest_state) (\<lambda>snapshot. case snapshot of
       Some (height, st) \<Rightarrow> op_result (seq_resume x height st)
     | None \<Rightarrow> seq_init x target c now identity)"

end
