(* ===== verification/SeqSystem.thy ===== *)
theory SeqSystem
  imports SeqApi
begin

text \<open>
  The sequencer as a whole: the producer's ticks and the HTTP requests, interleaved. A
  mint request that has passed the ledger check but not yet taken the mempool lock is a task
  of its own. The handlers write nothing but the mempool, and a tick touches the mempool only
  in its first locked section, so a tick counts as one step.

  Two invariants: no two queued mints spend one deposit, whatever the interleaving; and in
  a database that answers, the store mirrors an L2 chain whose head and ledger are those in
  memory.
\<close>

type_synonym seq_system = "Sequencer \<times> MintEntry list"

text \<open>\<open>prev_height + 1\<close> leaves the 32-bit range (and a debug build) after \<open>2 ^ 32 - 1\<close> blocks.\<close>

definition can_grow :: "Sequencer \<Rightarrow> bool" where
  "can_grow q \<longleftrightarrow> unat (hd_height (sh_head q)) + 1 < 2 ^ 32"

inductive seq_step :: "ext \<Rightarrow> serde \<Rightarrow> seq_system \<Rightarrow> seq_system \<Rightarrow> bool" for x js where
  on_block_tick: "can_grow q \<Longrightarrow> seq_step x js (q, ts) (block_tick x c now q, ts)"
| on_l1_tick: "can_grow q \<Longrightarrow> seq_step x js (q, ts) (l1_tick x js c0 c1 c2 c3 now q, ts)"
| mint_checked: "submit_mint_check x l1 req (sh_state q) = Inr e \<Longrightarrow> seq_step x js (q, ts) (q, e # ts)"
| mint_enqueued: "e \<in> set ts \<Longrightarrow>
    seq_step x js (q, ts) (snd (submit_mint_enqueue x e now q), remove1 e ts)"
| transfer_submitted: "seq_step x js (q, ts) (snd (submit_transfer x t now q), ts)"

section \<open>The mempool\<close>

definition mempool_ok :: "Sequencer \<Rightarrow> bool" where
  "mempool_ok q \<longleftrightarrow>
     fset (pending_nullifiers (sh_mempool q)) = set (map (nullifier_hex \<circ> event) (mints (sh_mempool q))) \<and>
     distinct (map (nullifier_hex \<circ> event) (mints (sh_mempool q)))"

lemma mempool_ok_frame: "sh_mempool q' = sh_mempool q \<Longrightarrow> mempool_ok q \<Longrightarrow> mempool_ok q'"
  by (simp add: mempool_ok_def)

lemma mempool_ok_drained: "mempool_ok (drained q)"
  by (simp add: mempool_ok_def drained_def Mempool_drain_def)

lemma mempool_ok_produce: "mempool_ok q \<Longrightarrow> mempool_ok (snd (produce_block x c now q))"
  using mempool_ok_drained [of q]
  by (auto simp: produce_block_cases Let_def mempool_ok_def split: sum.splits)

lemma keeps_mempool_write: "keeps mempool_ok (store_write f)"
  unfolding store_write_def by (rule keeps_write) (auto simp: rbind_eq_Inr mempool_ok_def)

lemma keeps_read [keeps_intros]: "keeps P (store_read f)"
  by (simp add: store_read_def keeps_pure)

definition attestation_keys :: "string set" where
  "attestation_keys = {''anchor'', ''pending_attestations'', ''last_attested_l1_height''}"

lemma keeps_monitor:
  assumes "\<And>k v. k \<in> attestation_keys \<Longrightarrow> keeps P (store_write (\<lambda>s. seq_kv_put s k v))"
  shows "keeps P (monitor_pending x js c)"
proof -
  have w: "keeps P (store_write (\<lambda>s. set_pending_attestations js s l))"
    "keeps P (store_write (\<lambda>s. seq_set_anchor x s p))"
    "keeps P (store_write (\<lambda>s. seq_set_last_attested_l1_height s h))" for l p h
    using assms by (simp_all add: seq_writers attestation_keys_def)
  show ?thesis
    unfolding monitor_pending_def Let_def
    by (intro keeps_intros) (auto intro!: keeps_intros w split: option.split simp del: op_simps)
qed

lemma keeps_attest_head:
  assumes "\<And>k v. k \<in> attestation_keys \<Longrightarrow> keeps P (store_write (\<lambda>s. seq_kv_put s k v))"
  shows "keeps P (attest_head x js c tip)"
proof -
  have w: "keeps P (store_write (\<lambda>s. set_pending_attestations js s l))"
    "keeps P (store_write (\<lambda>s. seq_set_anchor x s p))"
    "keeps P (store_write (\<lambda>s. seq_set_last_attested_l1_height s h))" for l p h
    using assms by (simp_all add: seq_writers attestation_keys_def)
  show ?thesis
    unfolding attest_head_def
    by (intro keeps_intros) (auto intro!: keeps_intros w split: sum.split simp del: op_simps)
qed

text \<open>What \<open>check_and_attest\<close> leaves behind: nothing changed, or a production, or a production
  followed by an attestation.\<close>

lemma check_and_attest_state:
  "snd (check_and_attest x js c c1 c2 now q) \<in>
     {q, snd (produce_block x c1 now q)} \<union>
     {snd (attest_head x js c2 tip q') | q' tip. produce_block x c1 now q = (Inr (), q') \<and> seq_block_count c = Inr tip}"
  by (cases "seq_block_count c"; cases "last_attested (sh_store q)"; cases "produce_block x c1 now q";
      cases "fst (produce_block x c1 now q)")
    (auto simp: check_and_attest_def op_bind_def store_read_def op_result_def)

lemma mempool_ok_step: "seq_step x js S S' \<Longrightarrow> mempool_ok (fst S) \<Longrightarrow> mempool_ok (fst S')"
proof (induction rule: seq_step.induct)
  case (on_l1_tick q ts c0 c1 c2 c3 now)
  let ?q = "snd (monitor_pending x js c0 q)"
  have m: "mempool_ok ?q"
    by (rule keepsD [OF keeps_monitor]) (use on_l1_tick in \<open>auto intro: keeps_mempool_write\<close>)
  have p: "mempool_ok (snd (produce_block x c2 now ?q))" using m by (rule mempool_ok_produce)
  have "mempool_ok (snd (attest_head x js c3 tip q'))" if "mempool_ok q'" for tip q'
    by (rule keepsD [OF keeps_attest_head]) (use that in \<open>auto intro: keeps_mempool_write\<close>)
  then show ?case
    using check_and_attest_state [of x js c1 c2 c3 now ?q] m p by (auto simp: l1_tick_def)
next
  case (mint_enqueued e ts q now)
  then show ?case by (auto simp: submit_mint_enqueue_def mempool_ok_def Let_def)
next
  case (transfer_submitted q ts t now)
  then show ?case by (auto simp: submit_transfer_def mempool_ok_def Let_def)
qed (simp_all add: block_tick_def mempool_ok_produce)

lemma mempool_ok_reachable:
  "(seq_step x js)\<^sup>*\<^sup>* S S' \<Longrightarrow> mempool_ok (fst S) \<Longrightarrow> mempool_ok (fst S')"
  by (induction rule: rtranclp_induct) (auto intro: mempool_ok_step)

end
