(* ===== verification/SeqInvariant.thy ===== *)
theory SeqInvariant
  imports SeqSystem
begin

text \<open>
  The chain invariant of the sequencer: while the database answers, its tables mirror an L2
  chain, and the ledger and head in memory are those at the chain's head. Every step keeps
  it, a tick that can read L1 extends the chain by one block, and a restart finds it again.
\<close>

definition healthy :: "SeqStore \<Rightarrow> bool" where
  "healthy s \<longleftrightarrow> (\<forall>k. \<not> sq_fault s k)"

definition aligned :: "SeqStore \<Rightarrow> bool" where
  "aligned s \<longleftrightarrow> fmdom (sq_snapshots s) = fmdom (sq_blocks s) \<and> fmdom (sq_witnesses s) = fmdom (sq_blocks s)"

lemma seq_write_ready:
  assumes "healthy s \<and> aligned s" and "seq_get_block s (bh_height (header b)) = Inr None"
  shows "\<exists>s'. seq_write_block_and_state s b S w = Inr s' \<and> healthy s' \<and> aligned s'"
proof -
  have "fmlookup (sq_blocks s) (bh_height (header b)) = None"
    using assms by (simp add: seq_get_block_def split: if_splits)
  moreover from this have "fmlookup (sq_snapshots s) (bh_height (header b)) = None"
      "fmlookup (sq_witnesses s) (bh_height (header b)) = None"
    using assms(1) by (auto simp: aligned_def fmdom_notD fmdom_notI)
  ultimately show ?thesis
    using assms(1) by (simp add: seq_write_block_and_state_def Let_def healthy_def aligned_def)
qed

interpretation seq_ready: ready_store seq_kv_get seq_kv_put seq_get_block seq_get_witness
    seq_load_latest_state seq_write_block_and_state "\<lambda>s. healthy s \<and> aligned s"
proof unfold_locales
  show "\<exists>s'. seq_write_block_and_state s b S w = Inr s' \<and> healthy s' \<and> aligned s'"
    if "healthy s \<and> aligned s" "seq_get_block s (bh_height (header b)) = Inr None" for s b S w
    using that by (rule seq_write_ready)
qed (auto simp: seq_kv_put_def seq_kv_get_def seq_get_witness_def healthy_def aligned_def)

definition seq_inv :: "ext \<Rightarrow> Sequencer \<Rightarrow> L2Block list \<Rightarrow> bool" where
  "seq_inv x q bs \<longleftrightarrow> seq_ready.holds x (sh_store q) bs (sh_state q) \<and> sh_head q = head_of x (last bs)"

lemma seq_inv_iff:
  "seq_inv x q bs \<longleftrightarrow> healthy (sh_store q) \<and> aligned (sh_store q) \<and>
     seq_db.mirrors (sh_store q) bs (sh_state q) \<and> l2_chain x bs (sh_state q) \<and>
     seq_ready.witnessed x (sh_store q) bs \<and> sh_head q = head_of x (last bs)"
  by (auto simp: seq_inv_def seq_ready.holds_def)

lemma head_of_simps [simp]:
  "hd_height (head_of x b) = bh_height (header b)" "hd_block_hash (head_of x b) = L2Block_hash x b"
  "hd_state_root (head_of x b) = bh_state_root (header b)"
  "hd_l1_height (head_of x b) = L2BlockHeader.l1_height (header b)"
  by (simp_all add: head_of_def)

lemma seq_inv_chain: "seq_inv x q bs \<Longrightarrow> l2_chain x bs (sh_state q)"
  by (simp add: seq_inv_iff)

lemma seq_inv_length: "seq_inv x q bs \<Longrightarrow> bs \<noteq> [] \<and> length bs \<le> 2 ^ 32"
  by (simp add: seq_inv_iff seq_db.mirrors_def)

lemma seq_inv_height:
  assumes "seq_inv x q bs"
  shows "unat (hd_height (sh_head q)) = length bs - 1"
proof -
  have bs: "bs \<noteq> []" "length bs \<le> 2 ^ 32" using seq_inv_length [OF assms] by simp_all
  then have "length bs - 1 < length bs" by simp
  then have "unat (bh_height (header (bs ! (length bs - 1)))) = length bs - 1"
    by (rule chain_heights [OF seq_inv_chain [OF assms] bs(2)])
  moreover have "hd_height (sh_head q) = bh_height (header (bs ! (length bs - 1)))"
    using assms bs(1) by (simp add: seq_inv_iff last_conv_nth)
  ultimately show ?thesis by (simp only:)
qed

lemma kv_put_keeps:
  assumes "seq_kv_put s k v = Inr s'"
  shows "healthy s' = healthy s" "aligned s' = aligned s" "seq_db.mirrors s' bs S = seq_db.mirrors s bs S"
  using assms seq_db.mirrors_put [OF assms]
  by (auto simp: seq_kv_put_def healthy_def aligned_def split: if_splits)

lemma seq_inv_kv_put: "seq_inv x q bs \<Longrightarrow> seq_kv_put (sh_store q) k v = Inr s \<Longrightarrow> seq_inv x (q\<lparr>sh_store := s\<rparr>) bs"
  using seq_ready.holds_after_put [of "sh_store q" k v s] by (simp add: seq_inv_def)

lemma keeps_inv_kv: "keeps (\<lambda>q. seq_inv x q bs) (store_write (\<lambda>s. seq_kv_put s k v))"
  unfolding store_write_def by (rule keeps_write) (auto simp: rbind_eq_Inr intro: seq_inv_kv_put)

lemma healthy_kv: "healthy s \<Longrightarrow> \<exists>s'. seq_kv_put s k v = Inr s' \<and> healthy s'"
  by (simp add: healthy_def seq_kv_put_def)

section \<open>Writing the next block\<close>

lemma new_block_extends:
  assumes "sh_head q = head_of x prev"
  shows "extends x prev (sh_state q) (block_of x c now l1h l1hash q) (fst (build_of x c q))"
proof -
  obtain S' ts where b: "build_of x c q = (S', ts)" by fastforce
  then show ?thesis
    using build_txs_sound(1) [of x _ _ _ _ S' ts] assms
    by (simp add: extends_def block_of_def new_block_def build_of_def)
qed

lemma rows_above_head:
  assumes "seq_inv x q bs" and "unat h = length bs"
  shows "fmlookup (sq_blocks (sh_store q)) h = None" "fmlookup (sq_snapshots (sh_store q)) h = None"
    "fmlookup (sq_witnesses (sh_store q)) h = None"
proof -
  have "seq_get_block (sh_store q) h = Inr None"
    using assms by (simp add: seq_inv_iff seq_db.mirrors_def)
  then show none: "fmlookup (sq_blocks (sh_store q)) h = None"
    by (simp add: seq_get_block_def split: if_splits)
  then show "fmlookup (sq_snapshots (sh_store q)) h = None" "fmlookup (sq_witnesses (sh_store q)) h = None"
    using assms(1) by (auto simp: seq_inv_iff aligned_def fmdom_notD fmdom_notI)
qed

lemma can_grow_height:
  assumes "seq_inv x q bs" and "can_grow q"
  shows "unat (hd_height (sh_head q) + 1) = length bs" "length bs < 2 ^ 32"
proof -
  have ne: "bs \<noteq> []" using seq_inv_length [OF assms(1)] by simp
  then show "length bs < 2 ^ 32"
    using assms(2) seq_inv_height [OF assms(1)] by (cases bs) (auto simp: can_grow_def)
  then show "unat (hd_height (sh_head q) + 1) = length bs"
    using ne seq_inv_height [OF assms(1)] unat_add_small [of "hd_height (sh_head q)" 1]
    by (cases bs) auto
qed

lemma produce_inv:
  assumes inv: "seq_inv x q bs" and grow: "can_grow q"
  shows "case l1_point x c of
      Inl e \<Rightarrow> produce_block x c now q = (Inl e, q)
    | Inr (l1h, l1hash) \<Rightarrow> \<exists>q'. produce_block x c now q = (Inr (), q') \<and>
        seq_inv x q' (bs @ [block_of x c now l1h l1hash q]) \<and>
        sh_state q' = fst (build_of x c q) \<and>
        seq_get_witness (sh_store q') (hd_height (sh_head q')) =
          Inr (Some (BlockWitness_build x (sh_state q) (snd (build_of x c q)) (hd_height (sh_head q'))))"
proof (cases "l1_point x c")
  case (Inl e)
  then show ?thesis by (simp add: produce_block_cases)
next
  case (Inr p)
  obtain l1h l1hash where p: "p = (l1h, l1hash)" by fastforce
  let ?b = "block_of x c now l1h l1hash q" and ?S = "fst (build_of x c q)"
    and ?w = "BlockWitness_build x (sh_state q) (snd (build_of x c q)) (hd_height (sh_head q) + 1)"
  have bh: "bh_height (header ?b) = hd_height (sh_head q) + 1" "txs ?b = snd (build_of x c q)"
    by (simp_all add: block_of_def new_block_def)
  have "extends x (last bs) (sh_state q) ?b ?S" using inv by (intro new_block_extends) (simp add: seq_inv_def)
  from seq_ready.holds_extend [OF _ this can_grow_height(2) [OF inv grow]] inv obtain s where
    s: "write_produced x c now l1h l1hash q = Inr s" "seq_ready.holds x s (bs @ [?b]) ?S"
    by (auto simp: write_produced_def seq_inv_def bh)
  obtain s' where s': "seq_set_l1_cursor s l1h = Inr s'" and kept: "seq_ready.holds x s' (bs @ [?b]) ?S"
    using seq_ready.holds_put [OF s(2)] unfolding seq_set_l1_cursor_def by blast
  have "healthy s'" using kept by (simp add: seq_ready.holds_def)
  then have "seq_get_witness s' (bh_height (header ?b)) = Inr (Some ?w)"
    using s(1) s' by (auto simp: write_produced_def seq_write_block_and_state_def Let_def bh seq_set_l1_cursor_def
        seq_kv_put_def seq_get_witness_def healthy_def split: if_splits)
  then show ?thesis
    using Inr p s(1) s' kept by (simp add: produce_block_cases seq_inv_def bh Let_def)
qed

section \<open>Every step keeps the invariant\<close>

lemma seq_inv_frame:
  "sh_store q' = sh_store q \<Longrightarrow> sh_state q' = sh_state q \<Longrightarrow> sh_head q' = sh_head q \<Longrightarrow> seq_inv x q' bs = seq_inv x q bs"
  by (simp add: seq_inv_iff)

lemma seq_inv_produce:
  assumes "seq_inv x q bs" and "can_grow q"
  shows "\<exists>bs'. seq_inv x (snd (produce_block x c now q)) (bs @ bs') \<and> length bs' \<le> 1"
proof (cases "l1_point x c")
  case (Inl e)
  then have "snd (produce_block x c now q) = q" using produce_inv [OF assms, of c now] by simp
  then show ?thesis using assms(1) by (intro exI [of _ "[]"]) simp
next
  case (Inr p)
  then show ?thesis using produce_inv [OF assms, of c now]
    by (cases p) (auto intro!: exI [of _ "[b]" for b])
qed

lemma seq_inv_step:
  assumes "seq_step x js S S'" and "seq_inv x (fst S) bs"
  shows "\<exists>bs'. seq_inv x (fst S') (bs @ bs') \<and> length bs' \<le> 1"
  using assms
proof (induction rule: seq_step.induct)
  case (on_block_tick q ts c now)
  then show ?case using seq_inv_produce by (simp add: block_tick_def)
next
  case (on_l1_tick q ts c0 c1 c2 c3 now)
  let ?q = "snd (monitor_pending x js c0 q)"
  have m: "seq_inv x ?q bs"
    by (rule keepsD [OF keeps_monitor]) (use on_l1_tick in \<open>auto intro: keeps_inv_kv\<close>)
  then have g: "can_grow ?q" using on_l1_tick by (simp add: can_grow_def seq_inv_iff)
  obtain bs' where p: "seq_inv x (snd (produce_block x c2 now ?q)) (bs @ bs')" "length bs' \<le> 1"
    using seq_inv_produce [OF m g] by blast
  have "seq_inv x (snd (attest_head x js c3 tip q')) (bs @ bs')" if "seq_inv x q' (bs @ bs')" for tip q'
    by (rule keepsD [OF keeps_attest_head]) (use that in \<open>auto intro: keeps_inv_kv\<close>)
  then have a: "\<exists>bs'. seq_inv x (snd (attest_head x js c3 tip q')) (bs @ bs') \<and> length bs' \<le> 1"
    if "produce_block x c2 now ?q = (Inr (), q')" for tip q'
    using p that by (metis snd_conv)
  from check_and_attest_state [of x js c1 c2 c3 now ?q] consider
      "snd (check_and_attest x js c1 c2 c3 now ?q) = ?q"
    | "snd (check_and_attest x js c1 c2 c3 now ?q) = snd (produce_block x c2 now ?q)"
    | q' tip where "snd (check_and_attest x js c1 c2 c3 now ?q) = snd (attest_head x js c3 tip q')"
        "produce_block x c2 now ?q = (Inr (), q')"
    by blast
  then have "\<exists>bs'. seq_inv x (l1_tick x js c0 c1 c2 c3 now q) (bs @ bs') \<and> length bs' \<le> 1"
  proof cases
    case 1
    then show ?thesis using m by (intro exI [of _ "[]"]) (simp add: l1_tick_def)
  next
    case 2
    then show ?thesis using p by (auto simp: l1_tick_def)
  next
    case 3
    then show ?thesis using a [OF 3(2)] by (simp add: l1_tick_def)
  qed
  then show ?case by simp
next
  case (mint_enqueued e ts q now)
  have "seq_inv x (snd (submit_mint_enqueue x e now q)) bs = seq_inv x q bs"
    by (rule seq_inv_frame) (auto simp: submit_mint_enqueue_def Let_def)
  then show ?case using mint_enqueued by (intro exI [of _ "[]"]) simp
next
  case (transfer_submitted q ts t now)
  have "seq_inv x (snd (submit_transfer x t now q)) bs = seq_inv x q bs"
    by (rule seq_inv_frame) (auto simp: submit_transfer_def Let_def)
  then show ?case using transfer_submitted by (intro exI [of _ "[]"]) simp
qed (auto intro: exI [of _ "[]"])

lemma seq_inv_reachable:
  "(seq_step x js)\<^sup>*\<^sup>* S S' \<Longrightarrow> seq_inv x (fst S) bs \<Longrightarrow> \<exists>bs'. seq_inv x (fst S') (bs @ bs')"
proof (induction rule: rtranclp_induct)
  case base
  then show ?case by (intro exI [of _ "[]"]) simp
next
  case (step T U)
  then obtain bs' where "seq_inv x (fst T) (bs @ bs')" by blast
  from seq_inv_step [OF step.hyps(2) this] show ?case by (metis append.assoc)
qed

section \<open>Creating and resuming the chain\<close>

lemma seq_resume_inv:
  assumes "seq_inv x q bs"
  shows "fst (seq_bootstrap x target c now identity (sh_store q)) = Inr (sh_state q, sh_head q)"
    and "snd (seq_bootstrap x target c now identity (sh_store q)) = sh_store q"
proof -
  obtain h where h: "seq_load_latest_state (sh_store q) = Inr (Some (h, sh_state q))"
    "seq_get_block (sh_store q) h = Inr (Some (last bs))"
    using seq_db.mirrors_resume assms unfolding seq_inv_iff by blast
  have "\<exists>v. seq_l1_cursor (sh_store q) = Inr v"
    using assms by (simp add: seq_inv_iff healthy_def seq_l1_cursor_def seq_get_u32_def seq_kv_get_def)
  then have "seq_resume x h (sh_state q) (sh_store q) = Inr (sh_state q, sh_head q)"
    using h(2) assms by (auto simp: seq_resume_def seq_inv_iff)
  then show "fst (seq_bootstrap x target c now identity (sh_store q)) = Inr (sh_state q, sh_head q)"
    "snd (seq_bootstrap x target c now identity (sh_store q)) = sh_store q"
    using h(1) by (simp_all add: seq_bootstrap_def op_bind_def op_result_def)
qed

text \<open>What the sequencer serves.\<close>

lemma seq_router_block:
  assumes "seq_inv x q bs"
  shows "srv_block (seq_router x l1 now q) h = (if unat h < length bs then Inr (bs ! unat h) else Inl (HttpStatus 404))"
  using assms by (simp add: seq_router_def seq_get_block_handler_def seq_inv_iff seq_db.mirrors_def http_row_def http_def)

text \<open>A database that answers and holds no block; it may hold a key.\<close>

definition fresh_store :: "SeqStore \<Rightarrow> bool" where
  "fresh_store s \<longleftrightarrow> healthy s \<and> sq_blocks s = fmempty \<and> sq_snapshots s = fmempty \<and> sq_witnesses s = fmempty"

lemma fresh_open: "fresh_store seq_open"
  by (simp add: fresh_store_def seq_open_def healthy_def)

lemma fresh_latest: "fresh_store s \<Longrightarrow> seq_load_latest_state s = Inr None"
  by (simp add: fresh_store_def seq_load_latest_state_def latest_row_def healthy_def)

lemma mirrors_genesis:
  assumes "fresh_store s0" "seq_write_block_and_state s0 b S w = Inr s" and "bh_height (header b) = 0"
  shows "seq_db.mirrors s [b] S" "healthy s" "aligned s"
  using assms
  by (auto simp: seq_write_block_and_state_def fresh_store_def seq_db.mirrors_def seq_get_block_def
      seq_load_latest_state_def latest_row_def healthy_def aligned_def unat_eq_0)

lemma seq_bootstrap_fresh:
  assumes fresh: "fresh_store s0" and boot: "seq_bootstrap x target c now identity s0 = (Inr (st, hd0), s)"
  shows "\<exists>b. seq_inv x (Shared_new x st hd0 identity s) [b] \<and> L2BlockHeader.l1_height (header b) = target \<and>
    bh_fee_address (header b) = Some (keypair_xonly x identity) \<and>
    (\<exists>p. pick_initial_anchor x c = Inr p \<and> anchor_outpoint (header b) = Some p \<and>
       seq_kv_get s ''anchor'' = Inr (Some (show_outpoint x p)))"
proof -
  have init: "seq_init x target c now identity s0 = (Inr (st, hd0), s)"
    using boot fresh_latest [OF fresh] by (simp add: seq_bootstrap_def op_bind_def op_result_def)
  define pk where "pk = keypair_xonly x identity"
  from init obtain hex l1hash p s1 s2 where p: "pick_initial_anchor x c = Inr p"
    and w: "seq_write_block_and_state s0 (genesis x l1hash target now p (Some pk) (Some pk))
        (genesis_ledger (Some pk)) (BlockWitness_build x (genesis_ledger (Some pk))
          (txs (genesis x l1hash target now p (Some pk) (Some pk))) 0) = Inr s1"
    and s2: "seq_set_l1_cursor s1 target = Inr s2" and s: "seq_set_anchor x s2 p = Inr s"
    and st: "st = genesis_ledger (Some pk)"
    and hd0: "hd0 = \<lparr> hd_height = 0, hd_block_hash = L2Block_hash x (genesis x l1hash target now p (Some pk) (Some pk)),
      hd_state_root = bh_state_root (header (genesis x l1hash target now p (Some pk) (Some pk))),
      hd_l1_height = target, hd_l1_block_hash = l1hash \<rparr>"
    by (auto simp: seq_init_def op_success Let_def pk_def genesis_ledger_def)
  let ?b = "genesis x l1hash target now p (Some pk) (Some pk)"
  have "seq_db.mirrors s1 [?b] st" "healthy s1" "aligned s1" using mirrors_genesis [OF fresh w] st by simp_all
  then have kept: "seq_db.mirrors s [?b] st" "healthy s" "aligned s"
    using s2 s kv_put_keeps by (auto simp: seq_set_l1_cursor_def seq_set_anchor_def)
  have "l2_chain x [?b] st" using l2_chain.root [of x ?b] st by (simp add: genesis_ok_def)
  moreover have "hd0 = head_of x ?b" by (simp add: hd0 head_of_def genesis_def)
  ultimately have "seq_inv x (Shared_new x st hd0 identity s) [?b]"
    using kept by (simp add: seq_inv_iff Shared_new_def seq_ready.witnessed_def)
  moreover have "seq_kv_get s ''anchor'' = Inr (Some (show_outpoint x p))"
    using s kept(2) by (auto simp: seq_set_anchor_def seq_kv_put_def seq_kv_get_def healthy_def split: if_splits)
  ultimately show ?thesis using p by (intro exI [of _ ?b]) (simp add: genesis_def pk_def)
qed

lemmas seq_bootstrap_genesis = seq_bootstrap_fresh [OF fresh_open]

text \<open>Creation succeeds on an empty database as soon as L1 and the wallet answer.\<close>

lemma seq_bootstrap_fresh_succeeds:
  assumes "fresh_store s0" and "block_hash_hex c target = Inr h" and "parse_l1_block_hash x h = Inr l1hash"
    and "pick_initial_anchor x c = Inr p"
  shows "\<exists>st hd0 s. seq_bootstrap x target c now identity s0 = (Inr (st, hd0), s)"
proof -
  let ?pk = "Some (keypair_xonly x identity)"
  let ?b = "genesis x l1hash target now p ?pk ?pk" and ?st = "LedgerState_new\<lparr>sequencer_fee_address := ?pk\<rparr>"
  obtain s1 where s1: "seq_write_block_and_state s0 ?b ?st (BlockWitness_build x ?st (txs ?b) 0) = Inr s1"
    using assms(1) by (simp add: seq_write_block_and_state_def fresh_store_def healthy_def Let_def del: genesis_simps)
  then have "healthy s1" using mirrors_genesis(2) [OF assms(1)] genesis_simps(2) by blast
  then obtain s2 where s2: "seq_set_l1_cursor s1 target = Inr s2" "healthy s2"
    using healthy_kv unfolding seq_set_l1_cursor_def by blast
  then obtain s3 where s3: "seq_set_anchor x s2 p = Inr s3"
    using healthy_kv unfolding seq_set_anchor_def by blast
  show ?thesis
    using assms fresh_latest [OF assms(1)] s1 s2(1) s3
    by (simp add: seq_bootstrap_def seq_init_def op_bind_def op_result_def op_write_def Let_def del: genesis_simps)
qed

lemmas seq_bootstrap_succeeds = seq_bootstrap_fresh_succeeds [OF fresh_open]

end
