(* ===== verification/SeqAttest.thy ===== *)
theory SeqAttest
  imports SeqInvariant
begin

text \<open>
  Attestations and failures of the sequencer: what posting and watching attestations leaves
  in the store, which anchor a reorganisation makes the sequencer return to, and what
  \<open>produce_block\<close> leaves behind when the database refuses a statement.
\<close>

section \<open>Posting\<close>

lemma healthy_reads: "healthy s \<Longrightarrow> seq_kv_get s k = Inr (fmlookup (sq_kv s) k)"
  by (simp add: healthy_def seq_kv_get_def)

lemma healthy_writes: "healthy s \<Longrightarrow> seq_kv_put s k v = Inr (s\<lparr>sq_kv := fmupd k v (sq_kv s)\<rparr>)"
  by (simp add: healthy_def seq_kv_put_def)

lemma healthy_update [simp]: "healthy (s\<lparr>sq_kv := m\<rparr>) = healthy s"
  by (simp add: healthy_def)

lemmas seq_readers = seq_get_anchor_def seq_last_attested_l1_height_def seq_get_u32_def seq_l1_cursor_def
  pending_attestations_def

lemma attest_head_posts:
  assumes ok: "healthy (sh_store q)" "serde_ok js" "txid_str_ok x"
    and anchor: "seq_get_anchor x (sh_store q) = Inr (Some a)"
    and pending: "pending_attestations js (sh_store q) = Inr ps"
    and post: "post_attestation_chained x c
        (Attestation_new (hd_height (sh_head q)) (hd_block_hash (sh_head q)) (hd_state_root (sh_head q))) a = Inr (t, p)"
  shows "\<exists>s. attest_head x js c tip q = (Inr (), q\<lparr>sh_store := s\<rparr>) \<and> healthy s \<and>
    seq_get_anchor x s = Inr (Some (OutPoint t 1)) \<and> seq_last_attested_l1_height s = Inr (Some tip) \<and>
    pending_attestations js s = Inr (ps @ [pending_of x t a (OutPoint t 1) (hd_height (sh_head q)) tip])"
proof -
  have p: "p = OutPoint t 1" using post by (rule post_attestation_vout)
  define s1 where "s1 = (sh_store q)\<lparr>sq_kv := fmupd ''last_attested_l1_height'' (u32_to_string tip)
      (fmupd ''anchor'' (show_outpoint x (OutPoint t 1)) (sq_kv (sh_store q)))\<rparr>"
  define ps' where "ps' = ps @ [pending_of x t a (OutPoint t 1) (hd_height (sh_head q)) tip]"
  define s2 where "s2 = s1\<lparr>sq_kv := fmupd ''pending_attestations'' (pending_to_json js ps') (sq_kv s1)\<rparr>"
  have h: "healthy s1" "healthy s2" using ok(1) by (simp_all add: s1_def s2_def)
  have ps: "pending_attestations js s1 = Inr ps"
    using pending h(1) ok(1) by (simp add: pending_attestations_def healthy_reads) (simp add: s1_def)
  have "attest_head x js c tip q = (Inr (), q\<lparr>sh_store := s2\<rparr>)"
    using ok(1) h(1)
    by (simp add: attest_head_def op_bind_def store_read_def op_result_def store_write_eq anchor post p
        seq_writers healthy_writes ps s1_def [symmetric] ps'_def [symmetric])
      (simp add: s2_def)
  moreover have "seq_get_anchor x s2 = Inr (Some (OutPoint t 1))" "seq_last_attested_l1_height s2 = Inr (Some tip)"
    "pending_attestations js s2 = Inr ps'"
    using h(2) ok(2) parse_show_outpoint [OF ok(3)]
    by (simp_all add: seq_readers healthy_reads s2_def s1_def serde_ok_def)
  ultimately show ?thesis using h(2) by (auto simp: ps'_def)
qed

section \<open>Watching\<close>

definition pending_status :: "ext \<Rightarrow> SeqRpc \<Rightarrow> PendingAttestation \<Rightarrow> (Anyhow, AttestationStatus) result" where
  "pending_status x c p =
     rbind (ok_or (txid_from_str x (pa_txid p)) (BadTxid (pa_txid p))) (attestation_status x c)"

definition awaiting :: "AttestationStatus \<Rightarrow> bool" where
  "awaiting st = (case st of Confirmed n _ \<Rightarrow> n < REORG_FINALITY_DEPTH | Missing \<Rightarrow> False | _ \<Rightarrow> True)"

definition is_missing :: "ext \<Rightarrow> SeqRpc \<Rightarrow> PendingAttestation \<Rightarrow> bool" where
  "is_missing x c p = (pending_status x c p = Inr Missing)"

definition survives :: "ext \<Rightarrow> SeqRpc \<Rightarrow> PendingAttestation \<Rightarrow> bool" where
  "survives x c p = (case pending_status x c p of Inr st \<Rightarrow> awaiting st | Inl _ \<Rightarrow> False)"

lemma monitor_one_eq:
  "monitor_one x c p (sv, a) =
     rbind (pending_status x c p) (\<lambda>st.
       if st = Missing then rbind (parse_outpoint x (pa_spent_anchor p)) (\<lambda>sp. Inr (sv, Some sp))
       else Inr (if awaiting st then sv @ [p] else sv, a))"
proof (cases "txid_from_str x (pa_txid p)")
  case (Some t)
  then show ?thesis
    by (cases "attestation_status x c t")
      (auto simp: monitor_one_def pending_status_def awaiting_def not_le split: AttestationStatus.splits)
qed (simp add: monitor_one_def pending_status_def)

lemma monitor_loop:
  assumes "rfold (monitor_one x c) ps (sv, a) = Inr (sv', a')"
  shows "sv' = sv @ filter (survives x c) ps \<and>
    (if filter (is_missing x c) ps = [] then a' = a
     else \<exists>sp. parse_outpoint x (pa_spent_anchor (last (filter (is_missing x c) ps))) = Inr sp \<and> a' = Some sp)"
  using assms
proof (induction ps arbitrary: sv a)
  case (Cons p ps)
  then obtain st sv1 a1 where st: "pending_status x c p = Inr st"
    and one: "monitor_one x c p (sv, a) = Inr (sv1, a1)"
    and rest: "rfold (monitor_one x c) ps (sv1, a1) = Inr (sv', a')"
    by (auto simp: rbind_eq_Inr monitor_one_eq)
  note IH = Cons.IH [OF rest]
  show ?case
  proof (cases "st = Missing")
    case True
    then obtain sp where "parse_outpoint x (pa_spent_anchor p) = Inr sp" "sv1 = sv" "a1 = Some sp"
      using one st by (auto simp: monitor_one_eq rbind_eq_Inr)
    moreover have "is_missing x c p" "\<not> survives x c p"
      using True st by (simp_all add: is_missing_def survives_def awaiting_def)
    ultimately show ?thesis using IH by auto
  next
    case False
    then have "sv1 = sv @ (if awaiting st then [p] else [])" "a1 = a"
      using one st by (auto simp: monitor_one_eq)
    moreover have "\<not> is_missing x c p" "survives x c p = awaiting st"
      using False st by (simp_all add: is_missing_def survives_def)
    ultimately show ?thesis using IH by auto
  qed
qed simp

text \<open>Consecutive attestations spend each other's outputs.\<close>

fun linked :: "PendingAttestation list \<Rightarrow> bool" where
  "linked (p # r # ps) \<longleftrightarrow> pa_spent_anchor r = pa_new_anchor p \<and> linked (r # ps)"
| "linked _ \<longleftrightarrow> True"

lemma monitor_pending_state:
  assumes ok: "healthy (sh_store q)" "serde_ok js" "txid_str_ok x"
    and ps: "pending_attestations js (sh_store q) = Inr ps" "ps \<noteq> []"
    and run: "rfold (monitor_one x c) ps ([], None) = Inr (sv, Some a)"
  shows "\<exists>s. monitor_pending x js c q = (Inr (), q\<lparr>sh_store := s\<rparr>) \<and> healthy s \<and>
    pending_attestations js s = Inr (filter (survives x c) ps) \<and> seq_get_anchor x s = Inr (Some a) \<and>
    seq_last_attested_l1_height s =
      rbind (seq_last_attested_l1_height (sh_store q)) (\<lambda>l. Inr (map_option (\<lambda>h. sat_sub h 1) l))"
proof -
  have sv: "sv = filter (survives x c) ps" using monitor_loop [OF run] by simp
  define s1 where "s1 = (sh_store q)\<lparr>sq_kv := fmupd ''anchor'' (show_outpoint x a)
      (fmupd ''pending_attestations'' (pending_to_json js sv) (sq_kv (sh_store q)))\<rparr>"
  define l where "l = Option.bind (fmlookup (sq_kv (sh_store q)) ''last_attested_l1_height'') parse_u32"
  define ah where "ah = (case l of Some h \<Rightarrow> h | None \<Rightarrow> 0)"
  define s2 where "s2 = (if 0 < ah then s1\<lparr>sq_kv := fmupd ''last_attested_l1_height'' (u32_to_string (sat_sub ah 1)) (sq_kv s1)\<rparr> else s1)"
  have h1: "healthy s1" using ok(1) by (simp add: s1_def)
  have "seq_last_attested_l1_height s1 = Inr l"
    using h1 by (simp add: seq_readers healthy_reads s1_def l_def)
  then have "monitor_pending x js c q = (Inr (), q\<lparr>sh_store := s2\<rparr>)"
    using ok ps run
    by (simp add: monitor_pending_def op_bind_def store_read_def op_result_def store_write_eq seq_writers
        healthy_writes s1_def [symmetric] ah_def [symmetric] Let_def)
      (auto simp: s1_def s2_def healthy_writes ok(1))
  moreover have "healthy s2" using h1 by (simp add: s2_def)
  moreover have "pending_attestations js s2 = Inr sv" "seq_get_anchor x s2 = Inr (Some a)"
    using \<open>healthy s2\<close> ok(2) parse_show_outpoint [OF ok(3)]
    by (auto simp: seq_readers healthy_reads s2_def s1_def serde_ok_def)
  moreover have "seq_last_attested_l1_height s2 = Inr (map_option (\<lambda>h. sat_sub h 1) l)"
    using \<open>healthy s2\<close>
    by (cases l) (auto simp: seq_readers healthy_reads s2_def s1_def ah_def sat_sub_def l_def word_gt_0)
  moreover have "seq_last_attested_l1_height (sh_store q) = Inr l"
    using ok(1) by (simp add: seq_readers healthy_reads l_def)
  ultimately show ?thesis by (intro exI [of _ s2]) (simp add: sv)
qed

section \<open>Database failures\<close>

text \<open>When the block is not written, the drained transactions are gone and the ledger in memory
  has moved on without its head.\<close>

lemma produce_write_failure:
  assumes "l1_point x c = Inr (l1h, l1hash)" and "write_produced x c now l1h l1hash q = Inl e"
  shows "produce_block x c now q = (Inl e, (drained q)\<lparr>sh_state := fst (build_of x c q)\<rparr>)"
  using assms by (simp add: produce_block_cases Let_def)

text \<open>The next block then does not extend the stored chain: with an empty mempool it carries no
  transaction, but the root of the advanced ledger.\<close>

lemma build_of_empty: "mints (sh_mempool q) = [] \<Longrightarrow> transfers (sh_mempool q) = [] \<Longrightarrow> build_of x c q = (sh_state q, [])"
  by (simp add: build_of_def build_txs_def)

lemma produce_after_failure:
  assumes fail: "l1_point x c = Inr (l1h, l1hash)" "write_produced x c now l1h l1hash q = Inl e"
    and changed: "state_root x (fst (build_of x c q)) \<noteq> state_root x (sh_state q)"
  shows "\<not> extends x prev (sh_state q)
      (block_of x c' now' l1h' l1hash' (snd (produce_block x c now q))) S'"
proof
  let ?q = "(drained q)\<lparr>sh_state := fst (build_of x c q)\<rparr>"
  have q: "snd (produce_block x c now q) = ?q" using produce_write_failure [OF fail] by simp
  have b: "build_of x c' ?q = (fst (build_of x c q), [])"
    using build_of_empty [of ?q] by (simp add: drained_def Mempool_drain_def)
  assume "extends x prev (sh_state q) (block_of x c' now' l1h' l1hash' (snd (produce_block x c now q))) S'"
  then have "state_root x (fst (build_of x c q)) = state_root x (sh_state q)"
    by (simp add: extends_def q block_of_def new_block_def b)
  then show False using changed by simp
qed

text \<open>When the block is written but the cursor is not, the head stays behind the stored chain, and
  every later production fails on the row that exists.\<close>

lemma produce_cursor_failure:
  assumes "l1_point x c = Inr (l1h, l1hash)" and "write_produced x c now l1h l1hash q = Inr s"
    and "seq_set_l1_cursor s l1h = Inl e"
  shows "\<exists>q'. produce_block x c now q = (Inl e, q') \<and> sh_head q' = sh_head q \<and>
    fmlookup (sq_blocks (sh_store q')) (hd_height (sh_head q') + 1) \<noteq> None"
  using assms
  by (auto simp: produce_block_cases Let_def drained_def write_produced_def seq_write_block_and_state_def
      block_of_def new_block_def split: if_splits)

lemma produce_stuck:
  assumes "fmlookup (sq_blocks (sh_store q)) (hd_height (sh_head q) + 1) \<noteq> None"
  shows "\<exists>q' e. produce_block x c now q = (Inl e, q') \<and> sh_head q' = sh_head q \<and> sh_store q' = sh_store q"
proof (cases "l1_point x c")
  case (Inr p)
  obtain l1h l1hash where p: "p = (l1h, l1hash)" by fastforce
  have "write_produced x c now l1h l1hash q = Inl SqlError"
    using assms by (simp add: write_produced_def seq_write_block_and_state_def Let_def block_of_def new_block_def)
  then show ?thesis using Inr p by (simp add: produce_block_cases Let_def drained_def)
qed (simp add: produce_block_cases)

end
