(* ===== verification/SeqSample.thy ===== *)
theory SeqSample
  imports SeqAttest Sample
begin

text \<open>A concrete sequencer for closed witnesses: a \<open>bitcoind\<close> that shows the deposit of theory
  \<open>Sample\<close>, a text form for the pending list, and the chain created on an empty database.\<close>

section \<open>A text form for pending attestations\<close>

text \<open>Every character is written after a comma, every field ends with a semicolon.\<close>

definition frame :: "string \<Rightarrow> string" where
  "frame s = concat (map (\<lambda>c. [CHR '','', c]) s) @ '';''"

fun unframe :: "string \<Rightarrow> string \<Rightarrow> string list" where
  "unframe acc (d # s) = (if d = CHR '';'' then acc # unframe [] s
     else case s of c # s' \<Rightarrow> unframe (acc @ [c]) s' | [] \<Rightarrow> [])"
| "unframe acc [] = []"

lemma unframe_frame: "unframe acc (frame s @ rest) = (acc @ s) # unframe [] rest"
  by (induction s arbitrary: acc) (auto simp: frame_def)

definition pending_fields :: "PendingAttestation \<Rightarrow> string list" where
  "pending_fields p = [pa_txid p, pa_spent_anchor p, pa_new_anchor p,
     u32_to_string (pa_l2_head_height p), u32_to_string (pa_posted_at_l1_height p)]"

fun read_pending :: "string list \<Rightarrow> PendingAttestation list option" where
  "read_pending (t # s # n # h # p # rest) =
     (case (parse_u32 h, parse_u32 p, read_pending rest) of
        (Some h, Some p, Some l) \<Rightarrow> Some (\<lparr> pa_txid = t, pa_spent_anchor = s, pa_new_anchor = n,
           pa_l2_head_height = h, pa_posted_at_l1_height = p \<rparr> # l)
      | _ \<Rightarrow> None)"
| "read_pending [] = Some []"
| "read_pending _ = None"

definition toy_serde :: serde where
  "toy_serde = \<lparr> pending_to_json = (\<lambda>l. concat (map frame (concat (map pending_fields l)))),
     pending_from_json = (\<lambda>s. read_pending (unframe [] s)) \<rparr>"

lemma unframe_frames: "unframe [] (concat (map frame fs)) = fs"
  by (induction fs) (use unframe_frame [of "[]"] in auto)

lemma serde_ok_toy: "serde_ok toy_serde"
proof -
  have "read_pending (concat (map pending_fields l)) = Some l" for l
    by (induction l) (auto simp: pending_fields_def)
  then show ?thesis by (simp add: serde_ok_def toy_serde_def unframe_frames)
qed

section \<open>A daemon and the chain created on it\<close>

definition sample_rpc :: SeqRpc where
  "sample_rpc = \<lparr>
     get_block_count = Inr 100,
     get_tx_out = (\<lambda>t v. if OutPoint t v = deposit
        then Inr (Some \<lparr> txo_value = 1000, txo_script = deposit_spk, txo_confirmations = 1 \<rparr>) else Inr None),
     get_block_hash = (\<lambda>_. Inr (hex_encode toy_ext (be_bytes 32 (8 :: H256)))),
     listunspent = Inr [\<lparr> us_amount = Some 1, us_txid = Some (txid_to_string toy_ext 6), us_vout = Some 1 \<rparr>],
     gettransaction = (\<lambda>_. Inl ''Invalid or non-wallet transaction id''),
     send_tx = (\<lambda>_ _ _. Inr \<lparr> sd_complete = Some True, sd_txid = Some (txid_to_string toy_ext 9) \<rparr>) \<rparr>"

lemma sample_rpc_view: "seq_l1_view sample_rpc = sample_l1"
  by (simp add: seq_l1_view_def seq_get_output_def [abs_def] seq_tip_height_def sample_rpc_def sample_l1_def
      deposit_output_def fun_eq_iff sat_sub_def sat_add_def)

lemma toy_txid: "txid_from_str toy_ext (txid_to_string toy_ext t) = Some t"
  using txid_str_ok_toy by (simp add: txid_str_ok_def)

lemma sample_rpc_point: "l1_point toy_ext sample_rpc = Inr (100, 8)"
  by (simp add: l1_point_def seq_block_count_def sample_rpc_def block_hash_hex_def
      parse_l1_block_hash_hex [OF hex_ok_toy])

lemma sample_rpc_anchor: "pick_initial_anchor toy_ext sample_rpc = Inr (OutPoint 6 1)"
  by (simp add: pick_initial_anchor_def sample_rpc_def toy_txid)

text \<open>The sequencer's key is the one whose public key is Bob's.\<close>

definition seq_start :: "(Anyhow, LedgerState \<times> HeadInfo) result \<times> SeqStore" where
  "seq_start = seq_bootstrap toy_ext 90 sample_rpc 1700000000 2 seq_open"

definition sample_seq :: Sequencer where
  "sample_seq = (case seq_start of
     (Inr (st, h), s) \<Rightarrow> Shared_new toy_ext st h 2 s
   | (Inl _, s) \<Rightarrow> Shared_new toy_ext ledger0 (head_of toy_ext genesis_block) 2 s)"

lemma seq_start_ok: "\<exists>st h s. seq_start = (Inr (st, h), s)"
  unfolding seq_start_def
  by (rule seq_bootstrap_succeeds [OF _ parse_l1_block_hash_hex [OF hex_ok_toy] sample_rpc_anchor])
    (simp add: block_hash_hex_def sample_rpc_def)

lemma sample_seq_start:
  obtains st h s where "seq_bootstrap toy_ext 90 sample_rpc 1700000000 2 seq_open = (Inr (st, h), s)"
    "sample_seq = Shared_new toy_ext st h 2 s"
  using seq_start_ok by (auto simp: seq_start_def sample_seq_def)

lemma sample_seq_inv: "\<exists>b. seq_inv toy_ext sample_seq [b] \<and> bh_fee_address (header b) = Some bob"
proof -
  obtain st h s where "seq_bootstrap toy_ext 90 sample_rpc 1700000000 2 seq_open = (Inr (st, h), s)"
    "sample_seq = Shared_new toy_ext st h 2 s" by (rule sample_seq_start)
  from seq_bootstrap_genesis [OF this(1)] this(2) show ?thesis
    by (auto simp: bob_def toy_ext_def)
qed

text \<open>It has minted nothing yet, and nothing waits.\<close>

lemma sample_seq_fresh:
  "\<exists>fee. sh_state sample_seq = genesis_ledger fee" "sh_mempool sample_seq = Mempool_default"
proof -
  obtain b where "seq_inv toy_ext sample_seq [b]" using sample_seq_inv by blast
  then have "sh_state sample_seq = genesis_ledger (bh_fee_address (header b))"
    using chain_run [OF seq_inv_chain] by (fastforce simp: chain_txs_def ledger_run_iff)
  then show "\<exists>fee. sh_state sample_seq = genesis_ledger fee" ..
  obtain st h s where s: "sample_seq = Shared_new toy_ext st h 2 s" by (rule sample_seq_start)
  show "sh_mempool sample_seq = Mempool_default" unfolding s by (simp add: Shared_new_def)
qed

end
