(* ===== verification/SeqLiveness.thy ===== *)
theory SeqLiveness
  imports SeqInvariant
begin

text \<open>
  From the mempool into a block: a queued mint stays queued, whatever requests and ticks come, until a
  block is produced, and the block that drains it includes it if its proof still verifies.
\<close>

section \<open>A queued mint stays\<close>

text \<open>The nullifier of a queued event is the one of its proof.\<close>

definition entry_named :: "ext \<Rightarrow> MintEntry \<Rightarrow> bool" where
  "entry_named x e \<longleftrightarrow> nullifier_hex (event e) = hex_encode x (MintProofEnvelope_nullifier (witness e))"

definition all_named :: "ext \<Rightarrow> seq_system \<Rightarrow> bool" where
  "all_named x S \<longleftrightarrow> (\<forall>e\<in>set (mints (sh_mempool (fst S))). entry_named x e) \<and> (\<forall>e\<in>set (snd S). entry_named x e)"

lemma checked_named: "submit_mint_check x l1 req st = Inr e \<Longrightarrow> entry_named x e"
  using envelope.credits_own_nullifier
  by (auto simp: submit_mint_check_def entry_named_def split: sum.splits if_splits)

lemma check_refuses: "submit_mint_check x l1 req st = Inl r \<Longrightarrow> \<not> mint_accepted r"
  by (auto simp: submit_mint_check_def mint_rejected_def split: sum.splits if_splits)

lemma produced_mempool: "mints (sh_mempool (snd (produce_block x c now q))) \<in> {mints (sh_mempool q), []}"
  by (auto simp: produce_block_cases drained_def Mempool_drain_def Let_def split: sum.split)

lemma keeps_queue_write: "keeps (\<lambda>q. P (sh_mempool q)) (store_write f)"
  unfolding store_write_def by (rule keeps_write) (auto simp: rbind_eq_Inr)

lemma monitor_mempool: "sh_mempool (snd (monitor_pending x js c q)) = sh_mempool q"
  using keepsD [OF keeps_monitor [OF keeps_queue_write], of "\<lambda>m. m = sh_mempool q" q x js c] by simp

lemma attest_mempool: "sh_mempool (snd (attest_head x js c tip q)) = sh_mempool q"
  using keepsD [OF keeps_attest_head [OF keeps_queue_write], of "\<lambda>m. m = sh_mempool q" q x js c tip] by simp

lemma l1_tick_mempool: "mints (sh_mempool (l1_tick x js c0 c1 c2 c3 now q)) \<in> {mints (sh_mempool q), []}"
proof -
  let ?q = "snd (monitor_pending x js c0 q)"
  have "mints (sh_mempool (snd (produce_block x c2 now ?q))) \<in> {mints (sh_mempool q), []}"
    using produced_mempool [of x c2 now ?q] by (simp add: monitor_mempool)
  moreover have "produce_block x c2 now ?q = (Inr (), q') \<Longrightarrow> mints (sh_mempool q') \<in> {mints (sh_mempool q), []}" for q'
    using calculation by simp
  ultimately show ?thesis
    using check_and_attest_state [of x js c1 c2 c3 now ?q]
    by (fastforce simp: l1_tick_def monitor_mempool attest_mempool)
qed

lemma named_step: "seq_step x js S S' \<Longrightarrow> all_named x S \<Longrightarrow> all_named x S'"
proof (induction rule: seq_step.induct)
  case (on_block_tick q ts c now)
  then show ?case using produced_mempool [of x c now q] by (auto simp: all_named_def block_tick_def)
next
  case (on_l1_tick q ts c0 c1 c2 c3 now)
  then show ?case using l1_tick_mempool [of x js c0 c1 c2 c3 now q] by (auto simp: all_named_def)
next
  case (mint_checked l1 req q e ts)
  then show ?case using checked_named by (auto simp: all_named_def)
next
  case (mint_enqueued e ts q now)
  then show ?case by (auto simp: all_named_def submit_mint_enqueue_def Let_def dest: notin_set_remove1)
next
  case (transfer_submitted q ts t now)
  then show ?case by (auto simp: all_named_def submit_transfer_def Let_def)
qed

lemma named_run: "(seq_step x js)\<^sup>*\<^sup>* S S' \<Longrightarrow> all_named x S \<Longrightarrow> all_named x S'"
  by (induction rule: rtranclp_induct) (auto intro: named_step)

text \<open>A step that leaves the chain as it was leaves the queue at least as long.\<close>

lemma produce_grows:
  assumes "seq_inv x q bs" and "can_grow q"
  shows "snd (produce_block x c now q) = q \<or> (\<exists>b. seq_inv x (snd (produce_block x c now q)) (bs @ [b]))"
proof (cases "l1_point x c")
  case (Inl e)
  then show ?thesis using produce_inv [OF assms, of c now] by simp
next
  case (Inr p)
  obtain h hh where "p = (h, hh)" by (cases p)
  with Inr produce_inv [OF assms, of c now] show ?thesis by auto
qed

lemma queued_step:
  assumes "seq_step x js S S'" and "seq_inv x (fst S) bs" and "e \<in> set (mints (sh_mempool (fst S)))"
  shows "e \<in> set (mints (sh_mempool (fst S'))) \<or> (\<exists>b. seq_inv x (fst S') (bs @ [b]))"
  using assms
proof (induction rule: seq_step.induct)
  case (on_block_tick q ts c now)
  then show ?case using produce_grows [of x q bs c now] by (auto simp: block_tick_def)
next
  case (on_l1_tick q ts c0 c1 c2 c3 now)
  let ?q = "snd (monitor_pending x js c0 q)"
  have m: "seq_inv x ?q bs"
    by (rule keepsD [OF keeps_monitor]) (use on_l1_tick in \<open>auto intro: keeps_inv_kv\<close>)
  then have g: "can_grow ?q" using on_l1_tick by (simp add: can_grow_def seq_inv_iff)
  have queued: "e \<in> set (mints (sh_mempool ?q))" using on_l1_tick by (simp add: monitor_mempool)
  have att: "seq_inv x (snd (attest_head x js c3 tip q')) (bs @ [b])" if "seq_inv x q' (bs @ [b])" for tip q' b
    by (rule keepsD [OF keeps_attest_head]) (use that in \<open>auto intro: keeps_inv_kv\<close>)
  have made: "produce_block x c2 now ?q = (Inr (), q') \<Longrightarrow> q' = ?q \<or> (\<exists>b. seq_inv x q' (bs @ [b]))" for q'
    using produce_grows [OF m g, of c2 now] by simp
  from check_and_attest_state [of x js c1 c2 c3 now ?q] consider
      "snd (check_and_attest x js c1 c2 c3 now ?q) \<in> {?q, snd (produce_block x c2 now ?q)}"
    | q' tip where "snd (check_and_attest x js c1 c2 c3 now ?q) = snd (attest_head x js c3 tip q')"
        "produce_block x c2 now ?q = (Inr (), q')"
    by blast
  then have "e \<in> set (mints (sh_mempool (l1_tick x js c0 c1 c2 c3 now q))) \<or>
      (\<exists>b. seq_inv x (l1_tick x js c0 c1 c2 c3 now q) (bs @ [b]))"
  proof cases
    case 1
    then show ?thesis using produce_grows [OF m g, of c2 now] queued by (auto simp: l1_tick_def)
  next
    case 2
    then show ?thesis using made [OF 2(2)] queued att by (auto simp: l1_tick_def attest_mempool)
  qed
  then show ?case by simp
next
  case (mint_enqueued e' ts q now)
  then show ?case by (auto simp: submit_mint_enqueue_def Let_def)
next
  case (transfer_submitted q ts t now)
  then show ?case by (auto simp: submit_transfer_def Let_def)
qed auto

lemma same_chain:
  assumes "seq_inv x q bs" and "seq_inv x q (bs @ cs)"
  shows "cs = []"
  using seq_inv_height [OF assms(1)] seq_inv_height [OF assms(2)] seq_inv_length [OF assms(1)]
  by (cases bs) auto

lemma queued_run:
  assumes "(seq_step x js)\<^sup>*\<^sup>* S S'" and "seq_inv x (fst S) bs" and "e \<in> set (mints (sh_mempool (fst S)))"
  shows "seq_inv x (fst S') bs \<and> e \<in> set (mints (sh_mempool (fst S'))) \<or> (\<exists>b bs'. seq_inv x (fst S') (bs @ b # bs'))"
  using assms
proof (induction rule: rtranclp_induct)
  case (step T U)
  from step.IH [OF step.prems] show ?case
  proof
    assume T: "seq_inv x (fst T) bs \<and> e \<in> set (mints (sh_mempool (fst T)))"
    obtain bs' where U: "seq_inv x (fst U) (bs @ bs')" using seq_inv_step [OF step.hyps(2)] T by blast
    from queued_step [OF step.hyps(2)] T consider "e \<in> set (mints (sh_mempool (fst U)))" | b where "seq_inv x (fst U) (bs @ [b])"
      by blast
    then show ?thesis
    proof cases
      case 1
      with U show ?thesis by (cases bs') auto
    qed auto
  next
    assume "\<exists>b bs'. seq_inv x (fst T) (bs @ b # bs')"
    then obtain b bs' where "seq_inv x (fst T) (bs @ b # bs')" by blast
    from seq_inv_step [OF step.hyps(2) this] show ?thesis by fastforce
  qed
qed simp

section \<open>A drained mint is included\<close>

lemma include_tx_appends: "set (snd acc) \<subseteq> set (snd (include_tx x tx acc))"
  by (cases acc) (auto simp: include_tx_def split: sum.split)

lemma include_mint_appends: "set (snd acc) \<subseteq> set (snd (include_mint x l1 e acc))"
  using include_tx_appends by (auto simp: include_mint_def split: sum.split)

lemma fold_appends:
  "(\<And>a acc. set (snd acc) \<subseteq> set (snd (f a acc))) \<Longrightarrow> set (snd acc) \<subseteq> set (snd (fold f as acc))"
proof (induction as arbitrary: acc)
  case (Cons a as)
  show ?case using Cons.IH [OF Cons.prems, of "f a acc"] Cons.prems [of acc a] by simp
qed simp

text \<open>What is not named by an entry is not consumed by it.\<close>

lemma include_mint_consumes_own:
  assumes "entry_named x e" and "n |\<in>| consumed_nullifiers (fst (include_mint x l1 e acc))"
  shows "n |\<in>| consumed_nullifiers (fst acc) \<or> n = nullifier_hex (event e)"
proof (cases "MintProofEnvelope_verify x l1 (witness e) (l2_destination (event e))")
  case (Inl err)
  with assms(2) show ?thesis by (simp add: include_mint_def)
next
  case (Inr c)
  have "nullifier_hex (credit_event c) = nullifier_hex (event e)"
    using envelope.credits_own_nullifier [OF Inr] assms(1) by (simp add: entry_named_def)
  with assms(2) Inr show ?thesis
    by (cases acc) (auto simp: include_mint_def include_tx_def apply_tx_eq split: sum.splits)
qed

lemma fold_mints_consumes_own:
  assumes "\<forall>e\<in>set es. entry_named x e" and "n |\<in>| consumed_nullifiers (fst (fold (include_mint x l1) es acc))"
  shows "n |\<in>| consumed_nullifiers (fst acc) \<or> n \<in> nullifier_hex ` event ` set es"
  using assms
proof (induction es arbitrary: acc)
  case (Cons e es)
  then show ?case using include_mint_consumes_own [of x e n l1 acc] by fastforce
qed simp

lemma include_fresh_mint:
  assumes "MintProofEnvelope_verify x l1 (witness e) (l2_destination (event e)) = Inr c"
    and "nullifier_hex (credit_event c) |\<notin>| consumed_nullifiers (fst acc)"
  shows "Mint \<lparr> event = credit_event c, witness = witness e \<rparr> \<in> set (snd (include_mint x l1 e acc))"
proof -
  have "0 < ev_amount (credit_event c)" using envelope.credits_below_value [OF assms(1)] by simp
  then have "ev_amount (credit_event c) \<noteq> 0" by auto
  with assms show ?thesis
    by (cases acc) (auto simp: include_mint_def include_tx_def apply_tx_def apply_mint_def Let_def)
qed

lemma build_includes:
  assumes e: "e \<in> set ms" and named: "\<forall>e\<in>set ms. entry_named x e" and once: "distinct (map (nullifier_hex \<circ> event) ms)"
    and verifies: "MintProofEnvelope_verify x l1 (witness e) (l2_destination (event e)) = Inr c"
    and fresh: "nullifier_hex (event e) |\<notin>| consumed_nullifiers S"
  shows "Mint \<lparr> event = credit_event c, witness = witness e \<rparr> \<in> set (snd (build_txs x l1 ms ts S))"
proof -
  obtain as bs where ms: "ms = as @ e # bs" using e by (meson split_list)
  let ?a = "fold (include_mint x l1) as (S, [])"
  have name: "nullifier_hex (credit_event c) = nullifier_hex (event e)"
    using envelope.credits_own_nullifier [OF verifies] named e by (simp add: entry_named_def)
  have "nullifier_hex (event e) |\<notin>| consumed_nullifiers (fst ?a)"
    using fold_mints_consumes_own [of as x "nullifier_hex (event e)" l1 "(S, [])"] named once fresh ms by auto
  then have "Mint \<lparr> event = credit_event c, witness = witness e \<rparr> \<in> set (snd (include_mint x l1 e ?a))"
    using include_fresh_mint [OF verifies] name by simp
  also have "\<dots> \<subseteq> set (snd (fold (include_mint x l1) bs (include_mint x l1 e ?a)))"
    by (rule fold_appends) (rule include_mint_appends)
  also have "\<dots> \<subseteq> set (snd (build_txs x l1 ms ts S))"
    unfolding build_txs_def ms fold_append fold_Cons comp_apply
    by (rule fold_appends) (rule include_tx_appends)
  finally show ?thesis .
qed

end
