(* ===== verification/Configs.thy ===== *)
theory Configs
  imports Effect Address
begin

text \<open>
  The configuration files of the two daemons (\<open>hodl-sequencer/src/config.rs\<close>, \<open>hodl-node/src/config.rs\<close>, the
  \<open>bitcoind\<close> part in \<open>hodl-core/src/config.rs\<close>). A file is text, or one of the two JSON forms seen as the
  fields that serde finds in it; addresses to listen on are text. A disk is a map from paths, with the
  paths that cannot be opened for writing as an argument.
\<close>

datatype BitcoindAuth = Cookie string | UserPass string string

record BitcoindConfig =
  bc_url :: string
  bc_auth :: BitcoindAuth

record SequencerConfig =
  sc_network :: NetworkName
  sc_bitcoind :: BitcoindConfig
  sc_l1_genesis_height :: u32
  sc_listen :: string
  sc_db_path :: string
  sc_poll_ms :: "u64 option"
  sc_block_interval_ms :: "u64 option"

record NodeConfig =
  nc_network :: NetworkName
  nc_bitcoind :: BitcoindConfig
  nc_sequencer_url :: string
  nc_l1_genesis_height :: u32
  nc_listen :: string
  nc_db_path :: string
  nc_poll_ms :: "u64 option"

datatype FileText = Text string | SeqConfigJson SequencerConfig | NodeConfigJson NodeConfig

type_synonym Disk = "string \<rightharpoonup> FileText"

datatype ConfigError = ConfigMissing string | ConfigParse | ConfigExists string | ConfigWrite

datatype RpcAuth = RpcCookieFile string | RpcUserPass string string

definition SequencerConfig_load :: "Disk \<Rightarrow> string \<Rightarrow> (ConfigError, SequencerConfig) result" where
  "SequencerConfig_load d f =
     rbind (ok_or (d f) (ConfigMissing f)) (\<lambda>t. case t of SeqConfigJson c \<Rightarrow> Inr c | _ \<Rightarrow> Inl ConfigParse)"

definition NodeConfig_load :: "Disk \<Rightarrow> string \<Rightarrow> (ConfigError, NodeConfig) result" where
  "NodeConfig_load d f =
     rbind (ok_or (d f) (ConfigMissing f)) (\<lambda>t. case t of NodeConfigJson c \<Rightarrow> Inr c | _ \<Rightarrow> Inl ConfigParse)"

text \<open>Durations are in milliseconds.\<close>

definition sc_poll_interval :: "SequencerConfig \<Rightarrow> u64" where
  "sc_poll_interval c = (case sc_poll_ms c of Some ms \<Rightarrow> ms | None \<Rightarrow> 1000)"

definition sc_block_interval :: "SequencerConfig \<Rightarrow> u64" where
  "sc_block_interval c = (case sc_block_interval_ms c of Some ms \<Rightarrow> ms | None \<Rightarrow> 30000)"

definition nc_poll_interval :: "NodeConfig \<Rightarrow> u64" where
  "nc_poll_interval c = (case nc_poll_ms c of Some ms \<Rightarrow> ms | None \<Rightarrow> 1000)"

definition bitcoincore_auth :: "BitcoindAuth \<Rightarrow> RpcAuth" where
  "bitcoincore_auth a = (case a of Cookie f \<Rightarrow> RpcCookieFile f | UserPass u p \<Rightarrow> RpcUserPass u p)"

definition sc_network_name :: "SequencerConfig \<Rightarrow> Network" where
  "sc_network_name c = into_bitcoin (sc_network c)"

definition seq_example :: SequencerConfig where
  "seq_example =
     \<lparr> sc_network = Regtest,
       sc_bitcoind = \<lparr> bc_url = ''http://127.0.0.1:18443/wallet/sequencer'',
         bc_auth = Cookie ''/home/USER/.bitcoin/regtest/.cookie'' \<rparr>,
       sc_l1_genesis_height = 0, sc_listen = ''127.0.0.1:8080'', sc_db_path = ''./hodl-sequencer.db'',
       sc_poll_ms = None, sc_block_interval_ms = None \<rparr>"

definition node_example :: NodeConfig where
  "node_example =
     \<lparr> nc_network = Regtest,
       nc_bitcoind = \<lparr> bc_url = ''http://127.0.0.1:18443'', bc_auth = Cookie ''/home/USER/.bitcoin/regtest/.cookie'' \<rparr>,
       nc_sequencer_url = ''http://127.0.0.1:8080'', nc_l1_genesis_height = 0, nc_listen = ''127.0.0.1:8081'',
       nc_db_path = ''./hodl-node.db'', nc_poll_ms = None \<rparr>"

definition write_new :: "(string \<Rightarrow> bool) \<Rightarrow> string \<Rightarrow> FileText \<Rightarrow> (Disk, ConfigError, unit) act" where
  "write_new refused f t = op_write (\<lambda>d.
     if d f \<noteq> None then Inl (ConfigExists f) else if refused f then Inl ConfigWrite else Inr (d(f \<mapsto> t)))"

definition seq_write_example :: "(string \<Rightarrow> bool) \<Rightarrow> string \<Rightarrow> (Disk, ConfigError, unit) act" where
  "seq_write_example refused f = write_new refused f (SeqConfigJson seq_example)"

definition node_write_example :: "(string \<Rightarrow> bool) \<Rightarrow> string \<Rightarrow> (Disk, ConfigError, unit) act" where
  "node_write_example refused f = write_new refused f (NodeConfigJson node_example)"

section \<open>What is written is read\<close>

lemma write_new_ok: "write_new refused f t d = (Inr u, d') \<longleftrightarrow> d f = None \<and> \<not> refused f \<and> d' = d(f \<mapsto> t)"
  by (auto simp: write_new_def op_write_Inr)

lemma write_new_refused: "write_new refused f t d = (Inl e, d') \<Longrightarrow> d' = d"
  by (auto simp: write_new_def op_write_Inl)

lemma seq_example_loads: "seq_write_example refused f d = (Inr u, d') \<Longrightarrow> SequencerConfig_load d' f = Inr seq_example"
  by (simp add: seq_write_example_def write_new_ok SequencerConfig_load_def ok_or_def)

lemma node_example_loads: "node_write_example refused f d = (Inr u, d') \<Longrightarrow> NodeConfig_load d' f = Inr node_example"
  by (simp add: node_write_example_def write_new_ok NodeConfig_load_def ok_or_def)

end
