(* ===== verification/SeqStartup.thy ===== *)
theory SeqStartup
  imports SeqInvariant Configs
begin

text \<open>
  The start of the sequencer (\<open>run\<close> in \<open>hodl-sequencer/src/main.rs\<close>): identity, chain, shared state, from a configuration
  and an opened store; and what a start leaves that is cut off between the genesis block and the anchor.
\<close>

definition seq_main ::
    "ext \<Rightarrow> (bytes \<Rightarrow> Keypair option) \<Rightarrow> Keypair \<Rightarrow> SequencerConfig \<Rightarrow> SeqRpc \<Rightarrow> u64 \<Rightarrow> (SeqStore, Sequencer) op" where
  "seq_main x seckey fresh cfg c now =
     op_bind (load_or_create_identity x seckey fresh) (\<lambda>identity.
     op_bind (seq_bootstrap x (sc_l1_genesis_height cfg) c now identity) (\<lambda>(st, h).
     op_bind (op_gets id) (\<lambda>s. op_return (Shared_new x st h identity s))))"

section \<open>A store without an anchor\<close>

definition unanchored :: "Sequencer \<Rightarrow> bool" where
  "unanchored q \<longleftrightarrow> healthy (sh_store q) \<and> fmlookup (sq_kv (sh_store q)) ''anchor'' = None \<and>
     fmlookup (sq_kv (sh_store q)) ''pending_attestations'' = None"

lemma unanchored_frame: "sh_store q' = sh_store q \<Longrightarrow> unanchored q \<Longrightarrow> unanchored q'"
  by (simp add: unanchored_def)

lemma unanchored_attest: "unanchored q \<Longrightarrow> attest_head x js c tip q = (Inl NoAnchor, q)"
  by (simp add: attest_head_def unanchored_def healthy_def op_bind_def store_read_def op_result_def seq_get_anchor_def seq_kv_get_def ok_or_def)

lemma unanchored_monitor: "unanchored q \<Longrightarrow> snd (monitor_pending x js c q) = q"
  by (simp add: monitor_pending_def unanchored_def healthy_def op_bind_def store_read_def op_result_def pending_attestations_def seq_kv_get_def)

lemma unanchored_produce: "unanchored q \<Longrightarrow> unanchored (snd (produce_block x c now q))"
  by (auto simp: produce_block_cases Let_def unanchored_def healthy_def write_produced_def seq_write_block_and_state_def
      seq_set_l1_cursor_def seq_kv_put_def drained_def split: sum.splits if_splits)

lemma unanchored_step: "seq_step x js S S' \<Longrightarrow> unanchored (fst S) \<Longrightarrow> unanchored (fst S')"
proof (induction rule: seq_step.induct)
  case (on_l1_tick q ts c0 c1 c2 c3 now)
  let ?q = "snd (monitor_pending x js c0 q)"
  have "unanchored ?q" using on_l1_tick unanchored_monitor [of q] by simp
  then have "unanchored (snd (produce_block x c2 now ?q))" "unanchored ?q" by (simp_all add: unanchored_produce)
  moreover have "unanchored (snd (attest_head x js c3 tip q'))" if "unanchored q'" for tip q'
    using that by (simp add: unanchored_attest)
  ultimately show ?case
    using check_and_attest_state [of x js c1 c2 c3 now ?q] by (auto simp: l1_tick_def)
next
  case (mint_enqueued e ts q now)
  then show ?case by (auto simp: submit_mint_enqueue_def unanchored_def Let_def)
next
  case (transfer_submitted q ts t now)
  then show ?case by (auto simp: submit_transfer_def unanchored_def Let_def)
qed (simp_all add: block_tick_def unanchored_produce)

lemma unanchored_reachable: "(seq_step x js)\<^sup>*\<^sup>* S S' \<Longrightarrow> unanchored (fst S) \<Longrightarrow> unanchored (fst S')"
  by (induction rule: rtranclp_induct) (auto intro: unanchored_step)

section \<open>A start that is cut off\<close>

definition key_only :: "string \<Rightarrow> SeqStore" where
  "key_only hex = seq_open\<lparr>sq_kv := fmupd ''sequencer_seckey'' hex fmempty\<rparr>"

lemma cut_off_start:
  assumes "block_hash_hex c target = Inr h" and "parse_l1_block_hash x h = Inr l1hash" and "pick_initial_anchor x c = Inr p"
  shows "\<exists>s st hd0. seq_bootstrap x target c now identity ((key_only hex)\<lparr>sq_fault := (\<lambda>k. k = UpsertKv)\<rparr>) = (Inl SqlError, s) \<and>
    (let s' = s\<lparr>sq_fault := (\<lambda>_. False)\<rparr>
     in (\<forall>c' now' target'. seq_bootstrap x target' c' now' identity s' = (Inr (st, hd0), s')) \<and>
        unanchored (Shared_new x st hd0 identity s'))"
proof -
  let ?o = "(key_only hex)\<lparr>sq_fault := (\<lambda>k. k = UpsertKv)\<rparr>" and ?pk = "Some (keypair_xonly x identity)"
  let ?b = "genesis x l1hash target now p ?pk ?pk" and ?st = "LedgerState_new\<lparr>sequencer_fee_address := ?pk\<rparr>"
  obtain s where s: "seq_write_block_and_state ?o ?b ?st (BlockWitness_build x ?st (txs ?b) 0) = Inr s"
    by (simp add: seq_write_block_and_state_def key_only_def seq_open_def Let_def del: genesis_simps)
  then have f: "sq_blocks s = fmupd 0 (?b, None) fmempty" "sq_snapshots s = fmupd 0 ?st fmempty" "sq_fault s = (\<lambda>k. k = UpsertKv)"
    "sq_kv s = fmupd ''l2_head_height'' (u32_to_string 0) (fmupd ''sequencer_seckey'' hex fmempty)"
    by (auto simp: seq_write_block_and_state_def key_only_def seq_open_def Let_def)
  have "seq_load_latest_state ?o = Inr None" by (simp add: seq_load_latest_state_def key_only_def seq_open_def)
  then have one: "seq_bootstrap x target c now identity ?o = (Inl SqlError, s)"
    using assms s f(3)
    by (simp add: seq_bootstrap_def seq_init_def op_bind_def op_result_def op_write_def Let_def seq_set_l1_cursor_def seq_kv_put_def
        del: genesis_simps)
  let ?s = "s\<lparr>sq_fault := (\<lambda>_. False)\<rparr>"
  have "seq_load_latest_state ?s = Inr (Some (0, ?st))"
    using f(2) by (simp add: seq_load_latest_state_def latest_row_def)
  moreover have "seq_resume x 0 ?st ?s = Inr (?st, head_of x ?b)"
    using f(1,4) by (simp add: seq_resume_def seq_get_block_def seq_l1_cursor_def seq_get_u32_def seq_kv_get_def)
  ultimately have "seq_bootstrap x target' c' now' identity ?s = (Inr (?st, head_of x ?b), ?s)" for target' c' now'
    by (simp add: seq_bootstrap_def op_bind_def op_result_def)
  moreover have "unanchored (Shared_new x ?st (head_of x ?b) identity ?s)"
    using f(4) by (simp add: unanchored_def Shared_new_def healthy_def)
  ultimately show ?thesis using one unfolding Let_def by blast
qed

section \<open>A first start\<close>

lemma identity_found:
  assumes "\<not> sq_fault s SelectKv" and "fmlookup (sq_kv s) ''sequencer_seckey'' = Some hex"
    and "hex_decode x hex = Some bs" and "seckey bs = Some k"
  shows "load_or_create_identity x seckey fresh s = (Inr k, s)"
  using assms by (simp add: load_or_create_identity_def op_bind_def op_result_def sequencer_seckey_hex_def seq_kv_get_def ok_or_def)

lemma identity_created:
  assumes "load_or_create_identity x seckey fresh s = (Inr k, s')" and "fmlookup (sq_kv s) ''sequencer_seckey'' = None"
  shows "k = fresh \<and> s' = s\<lparr>sq_kv := fmupd ''sequencer_seckey'' (hex_encode x (be_bytes 32 fresh)) (sq_kv s)\<rparr>"
  using assms by (auto simp: load_or_create_identity_def op_success sequencer_seckey_hex_def set_sequencer_seckey_hex_def
      seq_kv_get_def seq_kv_put_def split: if_splits)

lemma seq_main_genesis:
  assumes "seq_main x seckey fresh cfg c now seq_open = (Inr q, s)"
  shows "\<exists>b. seq_inv x q [b] \<and> L2BlockHeader.l1_height (header b) = sc_l1_genesis_height cfg \<and>
    bh_fee_address (header b) = Some (keypair_xonly x fresh) \<and> anchor_outpoint (header b) \<noteq> None \<and> sh_store q = s \<and>
    sh_identity q = fresh"
proof -
  from assms obtain k s1 st hd0 where i: "load_or_create_identity x seckey fresh seq_open = (Inr k, s1)"
    and b: "seq_bootstrap x (sc_l1_genesis_height cfg) c now k s1 = (Inr (st, hd0), s)" "q = Shared_new x st hd0 k s"
    by (auto simp: seq_main_def op_success op_gets_def op_return_def)
  have k: "k = fresh" "s1 = key_only (hex_encode x (be_bytes 32 fresh))"
    using identity_created [OF i] by (simp_all add: seq_open_def key_only_def)
  have "fresh_store s1" by (simp add: k fresh_store_def key_only_def seq_open_def healthy_def)
  from seq_bootstrap_fresh [OF this b(1)] show ?thesis using b(2) k(1) by (auto simp: Shared_new_def)
qed

section \<open>The identity is kept\<close>

definition identified :: "ext \<Rightarrow> Keypair \<Rightarrow> Sequencer \<Rightarrow> bool" where
  "identified x k q \<longleftrightarrow> sh_identity q = k \<and> sh_identity_pubkey q = keypair_xonly x k \<and>
     fmlookup (sq_kv (sh_store q)) ''sequencer_seckey'' = Some (hex_encode x (be_bytes 32 k))"

lemma identified_write: "key \<in> attestation_keys \<Longrightarrow> keeps (identified x k) (store_write (\<lambda>s. seq_kv_put s key v))"
  unfolding store_write_def
  by (rule keeps_write) (auto simp: rbind_eq_Inr identified_def seq_kv_put_def attestation_keys_def split: if_splits)

lemma identified_produce: "identified x k q \<Longrightarrow> identified x k (snd (produce_block x c now q))"
  by (auto simp: produce_block_cases Let_def identified_def write_produced_def seq_write_block_and_state_def
      seq_set_l1_cursor_def seq_kv_put_def drained_def split: sum.splits if_splits)

lemma identified_step: "seq_step x js S S' \<Longrightarrow> identified x k (fst S) \<Longrightarrow> identified x k (fst S')"
proof (induction rule: seq_step.induct)
  case (on_l1_tick q ts c0 c1 c2 c3 now)
  let ?q = "snd (monitor_pending x js c0 q)"
  have "identified x k ?q"
    by (rule keepsD [OF keeps_monitor [OF identified_write]]) (use on_l1_tick in simp_all)
  then have "identified x k (snd (produce_block x c2 now ?q))" "identified x k ?q" by (simp_all add: identified_produce)
  moreover have "identified x k (snd (attest_head x js c3 tip q'))" if "identified x k q'" for tip q'
    by (rule keepsD [OF keeps_attest_head [OF identified_write]]) (use that in simp_all)
  ultimately show ?case
    using check_and_attest_state [of x js c1 c2 c3 now ?q] by (auto simp: l1_tick_def)
next
  case (mint_enqueued e ts q now)
  then show ?case by (auto simp: submit_mint_enqueue_def identified_def Let_def)
next
  case (transfer_submitted q ts t now)
  then show ?case by (auto simp: submit_transfer_def identified_def Let_def)
qed (simp_all add: block_tick_def identified_produce)

lemma identified_reachable: "(seq_step x js)\<^sup>*\<^sup>* S S' \<Longrightarrow> identified x k (fst S) \<Longrightarrow> identified x k (fst S')"
  by (induction rule: rtranclp_induct) (auto intro: identified_step)

lemma seq_main_identified:
  assumes "seq_main x seckey fresh cfg c now seq_open = (Inr q, s)"
  shows "identified x fresh q"
proof -
  from assms obtain k s1 st hd0 where i: "load_or_create_identity x seckey fresh seq_open = (Inr k, s1)"
    and b: "seq_bootstrap x (sc_l1_genesis_height cfg) c now k s1 = (Inr (st, hd0), s)" "q = Shared_new x st hd0 k s"
    by (auto simp: seq_main_def op_success op_gets_def op_return_def)
  have k: "k = fresh" "s1 = key_only (hex_encode x (be_bytes 32 fresh))"
    using identity_created [OF i] by (simp_all add: seq_open_def key_only_def)
  have "seq_load_latest_state s1 = Inr None" using k by (intro fresh_latest) (simp add: fresh_store_def key_only_def seq_open_def healthy_def)
  then have "fmlookup (sq_kv s) ''sequencer_seckey'' = fmlookup (sq_kv s1) ''sequencer_seckey''"
    using b(1) by (auto simp: seq_bootstrap_def seq_init_def op_success Let_def seq_write_block_and_state_def seq_set_l1_cursor_def
        seq_set_anchor_def seq_kv_put_def split: if_splits)
  then show ?thesis by (simp add: identified_def b(2) k Shared_new_def key_only_def)
qed

text \<open>A later start of the program on the store of a running sequencer is that sequencer, with an empty mempool.\<close>

lemma seq_main_resumes:
  assumes "seq_inv x q bs" and "identified x k q" and "hex_ok x" and "seckey (be_bytes 32 k) = Some k"
  shows "seq_main x seckey fresh cfg c now (sh_store q) = (Inr (q\<lparr>sh_mempool := Mempool_default\<rparr>), sh_store q)"
proof -
  have "load_or_create_identity x seckey fresh (sh_store q) = (Inr k, sh_store q)"
    using assms by (intro identity_found) (auto simp: identified_def seq_inv_iff healthy_def hex_ok_decode)
  moreover have "seq_bootstrap x (sc_l1_genesis_height cfg) c now k (sh_store q) = (Inr (sh_state q, sh_head q), sh_store q)"
    using seq_resume_inv [OF assms(1)] by (simp add: prod_eq_iff)
  ultimately show ?thesis
    using assms(2) by (simp add: seq_main_def op_bind_def op_gets_def op_return_def Shared_new_def identified_def)
qed

lemma seq_main_succeeds:
  assumes "block_hash_hex c (sc_l1_genesis_height cfg) = Inr h" and "parse_l1_block_hash x h = Inr l1hash"
    and "pick_initial_anchor x c = Inr p"
  shows "\<exists>q s. seq_main x seckey fresh cfg c now seq_open = (Inr q, s)"
proof -
  let ?s = "key_only (hex_encode x (be_bytes 32 fresh))"
  have i: "load_or_create_identity x seckey fresh seq_open = (Inr fresh, ?s)"
    by (simp add: load_or_create_identity_def op_bind_def op_result_def op_write_def sequencer_seckey_hex_def seq_kv_get_def
        set_sequencer_seckey_hex_def seq_kv_put_def seq_open_def key_only_def)
  have "fresh_store ?s" by (simp add: fresh_store_def key_only_def seq_open_def healthy_def)
  from seq_bootstrap_fresh_succeeds [OF this assms] obtain st hd0 s where
    "seq_bootstrap x (sc_l1_genesis_height cfg) c now fresh ?s = (Inr (st, hd0), s)" by blast
  with i show ?thesis by (simp add: seq_main_def op_bind_def op_gets_def op_return_def)
qed

lemma seq_main_cut_off:
  assumes "block_hash_hex c (sc_l1_genesis_height cfg) = Inr h" and "parse_l1_block_hash x h = Inr l1hash"
    and "pick_initial_anchor x c = Inr p" and "hex_decode x hex = Some bs" and "seckey bs = Some k"
  shows "\<exists>s q. seq_main x seckey fresh cfg c now ((key_only hex)\<lparr>sq_fault := (\<lambda>f. f = UpsertKv)\<rparr>) = (Inl SqlError, s) \<and>
    (let s' = s\<lparr>sq_fault := (\<lambda>_. False)\<rparr>
     in (\<forall>fresh' cfg' c' now'. seq_main x seckey fresh' cfg' c' now' s' = (Inr q, s')) \<and> unanchored q)"
proof -
  let ?o = "(key_only hex)\<lparr>sq_fault := (\<lambda>f. f = UpsertKv)\<rparr>"
  from cut_off_start [OF assms(1-3), of now k hex] obtain s st hd0 where
    one: "seq_bootstrap x (sc_l1_genesis_height cfg) c now k ?o = (Inl SqlError, s)"
    and two: "\<And>c' now' target'. seq_bootstrap x target' c' now' k (s\<lparr>sq_fault := (\<lambda>_. False)\<rparr>) = (Inr (st, hd0), s\<lparr>sq_fault := (\<lambda>_. False)\<rparr>)"
    and un: "unanchored (Shared_new x st hd0 k (s\<lparr>sq_fault := (\<lambda>_. False)\<rparr>))"
    unfolding Let_def by blast
  have "load_or_create_identity x seckey fresh ?o = (Inr k, ?o)"
    by (rule identity_found [where hex = hex]) (use assms(4,5) in \<open>simp_all add: key_only_def\<close>)
  then have first: "seq_main x seckey fresh cfg c now ?o = (Inl SqlError, s)"
    using one by (simp add: seq_main_def op_bind_def)
  have key: "fmlookup (sq_kv s) ''sequencer_seckey'' = Some hex"
    using one by (auto simp: seq_bootstrap_def seq_init_def op_failure op_success Let_def seq_write_block_and_state_def seq_set_l1_cursor_def
        seq_set_anchor_def seq_kv_put_def key_only_def seq_open_def seq_load_latest_state_def seq_resume_def split: if_splits option.splits)
  have "load_or_create_identity x seckey fresh' (s\<lparr>sq_fault := (\<lambda>_. False)\<rparr>) = (Inr k, s\<lparr>sq_fault := (\<lambda>_. False)\<rparr>)" for fresh'
    by (rule identity_found [where hex = hex]) (use assms(4,5) key in simp_all)
  then have "seq_main x seckey fresh' cfg' c' now' (s\<lparr>sq_fault := (\<lambda>_. False)\<rparr>) =
      (Inr (Shared_new x st hd0 k (s\<lparr>sq_fault := (\<lambda>_. False)\<rparr>)), s\<lparr>sq_fault := (\<lambda>_. False)\<rparr>)" for fresh' cfg' c' now'
    using two by (simp add: seq_main_def op_bind_def op_gets_def op_return_def)
  with first un show ?thesis unfolding Let_def by blast
qed

end
