(* ===== verification/SeqTyped.thy ===== *)
theory SeqTyped
  imports SeqStartup SeqAttest
begin

text \<open>
  The sequencer keeps its anchor, its cursors and its pending attestations as texts of one
  table of strings (\<open>kv\<close> in \<open>store.rs\<close>), and every reader parses what it finds. Each key has
  a type; every step writes texts of the type of their key, so no reader ever meets a text it
  cannot parse, and the only errors that reach the producer's loop are those of \<open>bitcoind\<close>.
\<close>

definition entry_typed :: "ext \<Rightarrow> PendingAttestation \<Rightarrow> bool" where
  "entry_typed x p \<longleftrightarrow> (\<exists>t a n. pa_txid p = txid_to_string x t \<and> pa_spent_anchor p = show_outpoint x a \<and>
     pa_new_anchor p = show_outpoint x n)"

definition text_typed :: "ext \<Rightarrow> serde \<Rightarrow> string \<Rightarrow> string \<Rightarrow> bool" where
  "text_typed x js k v \<longleftrightarrow>
     (k \<in> {''l1_cursor'', ''last_attested_l1_height'', ''l2_head_height''} \<longrightarrow> (\<exists>n. v = u32_to_string n)) \<and>
     (k = ''anchor'' \<longrightarrow> (\<exists>p. v = show_outpoint x p)) \<and>
     (k = ''pending_attestations'' \<longrightarrow> (\<exists>l. v = pending_to_json js l \<and> (\<forall>p\<in>set l. entry_typed x p)))"

lemma text_typed_simps [simp]:
  "text_typed x js ''anchor'' v \<longleftrightarrow> (\<exists>p. v = show_outpoint x p)"
  "text_typed x js ''l1_cursor'' v \<longleftrightarrow> (\<exists>n. v = u32_to_string n)"
  "text_typed x js ''last_attested_l1_height'' v \<longleftrightarrow> (\<exists>n. v = u32_to_string n)"
  "text_typed x js ''l2_head_height'' v \<longleftrightarrow> (\<exists>n. v = u32_to_string n)"
  "text_typed x js ''pending_attestations'' v \<longleftrightarrow> (\<exists>l. v = pending_to_json js l \<and> (\<forall>p\<in>set l. entry_typed x p))"
  "text_typed x js ''sequencer_seckey'' v"
  by (simp_all add: text_typed_def)

definition store_typed :: "ext \<Rightarrow> serde \<Rightarrow> Sequencer \<Rightarrow> bool" where
  "store_typed x js q \<longleftrightarrow> healthy (sh_store q) \<and>
     (\<forall>k v. fmlookup (sq_kv (sh_store q)) k = Some v \<longrightarrow> text_typed x js k v) \<and>
     fmlookup (sq_kv (sh_store q)) ''anchor'' \<noteq> None \<and> fmlookup (sq_kv (sh_store q)) ''l1_cursor'' \<noteq> None \<and>
     fmlookup (sq_kv (sh_store q)) ''l2_head_height'' = Some (u32_to_string (hd_height (sh_head q)))"

lemma store_typed_frame:
  "sh_store q' = sh_store q \<Longrightarrow> sh_head q' = sh_head q \<Longrightarrow> store_typed x js q \<Longrightarrow> store_typed x js q'"
  by (simp add: store_typed_def)

section \<open>Reading\<close>

lemma typed_get:
  "store_typed x js q \<Longrightarrow> seq_kv_get (sh_store q) k = Inr (fmlookup (sq_kv (sh_store q)) k)"
  by (simp add: store_typed_def healthy_reads)

lemma typed_row:
  "store_typed x js q \<Longrightarrow> fmlookup (sq_kv (sh_store q)) k = Some v \<Longrightarrow> text_typed x js k v"
  by (simp add: store_typed_def)

lemma typed_number:
  assumes "store_typed x js q" and "k \<in> {''l1_cursor'', ''last_attested_l1_height'', ''l2_head_height''}"
  shows "\<exists>l. seq_get_u32 (sh_store q) k = Inr l \<and> (l = None \<longleftrightarrow> fmlookup (sq_kv (sh_store q)) k = None)"
proof (cases "fmlookup (sq_kv (sh_store q)) k")
  case (Some v)
  then obtain n where "v = u32_to_string n"
    using typed_row [OF assms(1) Some] assms(2) by auto
  then show ?thesis using Some by (simp add: seq_get_u32_def typed_get [OF assms(1)])
qed (simp add: seq_get_u32_def typed_get [OF assms(1)])

lemma typed_anchor:
  assumes "store_typed x js q" and "txid_str_ok x"
  shows "\<exists>p. seq_get_anchor x (sh_store q) = Inr (Some p)"
proof -
  obtain v where v: "fmlookup (sq_kv (sh_store q)) ''anchor'' = Some v"
    using assms(1) by (auto simp: store_typed_def)
  then obtain p where "v = show_outpoint x p"
    using typed_row [OF assms(1) v] by auto
  then show ?thesis
    using v by (simp add: seq_get_anchor_def typed_get [OF assms(1)] parse_show_outpoint [OF assms(2)])
qed

lemma typed_pending:
  assumes "store_typed x js q" and "serde_ok js"
  shows "\<exists>l. pending_attestations js (sh_store q) = Inr l \<and> (\<forall>p\<in>set l. entry_typed x p)"
proof (cases "fmlookup (sq_kv (sh_store q)) ''pending_attestations''")
  case None
  then show ?thesis by (simp add: pending_attestations_def typed_get [OF assms(1)])
next
  case (Some v)
  then obtain l where "v = pending_to_json js l" "\<forall>p\<in>set l. entry_typed x p"
    using typed_row [OF assms(1) Some] by auto
  then show ?thesis
    using Some assms(2) by (simp add: pending_attestations_def typed_get [OF assms(1)] serde_ok_def)
qed

lemma typed_cursor: "store_typed x js q \<Longrightarrow> \<exists>n. seq_l1_cursor (sh_store q) = Inr (Some n)"
  using typed_number [of x js q "''l1_cursor''"] by (auto simp: seq_l1_cursor_def store_typed_def)

lemma typed_attested:
  "store_typed x js q \<Longrightarrow> \<exists>l. seq_last_attested_l1_height (sh_store q) = Inr l \<and>
     (l = None \<longleftrightarrow> fmlookup (sq_kv (sh_store q)) ''last_attested_l1_height'' = None)"
  unfolding seq_last_attested_l1_height_def by (rule typed_number) simp_all

lemma typed_head: "store_typed x js q \<Longrightarrow> seq_head_height (sh_store q) = Inr (Some (hd_height (sh_head q)))"
  by (simp add: seq_head_height_def seq_get_u32_def typed_get) (simp add: store_typed_def)

section \<open>Writing\<close>

definition put_text :: "string \<Rightarrow> string \<Rightarrow> Sequencer \<Rightarrow> Sequencer" where
  "put_text k v q = q\<lparr>sh_store := (sh_store q)\<lparr>sq_kv := fmupd k v (sq_kv (sh_store q))\<rparr>\<rparr>"

lemma typed_write:
  "store_typed x js q \<Longrightarrow> store_write (\<lambda>s. seq_kv_put s k v) q = (Inr (), put_text k v q)"
  by (simp add: store_write_eq store_typed_def healthy_writes put_text_def)

lemma typed_put:
  "store_typed x js q \<Longrightarrow> text_typed x js k v \<Longrightarrow> k \<noteq> ''l2_head_height'' \<Longrightarrow> store_typed x js (put_text k v q)"
  by (auto simp: store_typed_def put_text_def)

lemma typed_anchor_write:
  assumes "store_typed x js q"
  shows "\<exists>q'. store_write (\<lambda>s. seq_set_anchor x s p) q = (Inr (), q') \<and> store_typed x js q'"
  by (simp add: seq_writers typed_write [OF assms]) (rule typed_put [OF assms]; auto)

lemma typed_attested_write:
  assumes "store_typed x js q"
  shows "\<exists>q'. store_write (\<lambda>s. seq_set_last_attested_l1_height s h) q = (Inr (), q') \<and> store_typed x js q'"
  by (simp add: seq_writers typed_write [OF assms]) (rule typed_put [OF assms]; auto)

lemma typed_pending_write:
  assumes "store_typed x js q" and "\<forall>p\<in>set l. entry_typed x p"
  shows "\<exists>q'. store_write (\<lambda>s. set_pending_attestations js s l) q = (Inr (), q') \<and> store_typed x js q'"
  by (simp add: seq_writers typed_write [OF assms(1)]) (rule typed_put [OF assms(1)]; use assms(2) in auto)

section \<open>The producer's loop\<close>

lemma entry_typed_of: "entry_typed x (pending_of x t a n h tip)"
  by (auto simp: entry_typed_def pending_of_def)

text \<open>Attesting the head never fails: a refused post is logged and dropped.\<close>

lemma typed_attest:
  assumes typed: "store_typed x js q" and ok: "txid_str_ok x" "serde_ok js"
  shows "\<exists>q'. attest_head x js c tip q = (Inr (), q') \<and> store_typed x js q'"
proof -
  obtain a where a: "seq_get_anchor x (sh_store q) = Inr (Some a)" using typed_anchor [OF typed ok(1)] by blast
  show ?thesis
  proof (cases "post_attestation_chained x c
      (Attestation_new (hd_height (sh_head q)) (hd_block_hash (sh_head q)) (hd_state_root (sh_head q))) a")
    case (Inl e)
    then show ?thesis
      using typed by (simp add: attest_head_def op_bind_def store_read_def op_result_def ok_or_def a)
  next
    case (Inr r)
    obtain t p where r: "r = (t, p)" by fastforce
    obtain q1 where q1: "store_write (\<lambda>s. seq_set_anchor x s p) q = (Inr (), q1)" "store_typed x js q1"
      using typed_anchor_write [OF typed] by blast
    obtain q2 where q2: "store_write (\<lambda>s. seq_set_last_attested_l1_height s tip) q1 = (Inr (), q2)" "store_typed x js q2"
      using typed_attested_write [OF q1(2)] by blast
    obtain l where l: "pending_attestations js (sh_store q2) = Inr l" "\<forall>p\<in>set l. entry_typed x p"
      using typed_pending [OF q2(2) ok(2)] by blast
    have "\<forall>p\<in>set (l @ [pending_of x t a p (hd_height (sh_head q)) tip]). entry_typed x p"
      using l(2) by (simp add: entry_typed_of)
    from typed_pending_write [OF q2(2) this] obtain q3 where
      "store_write (\<lambda>s. set_pending_attestations js s (l @ [pending_of x t a p (hd_height (sh_head q)) tip])) q2 = (Inr (), q3)"
      "store_typed x js q3" by blast
    then show ?thesis
      using Inr r q1(1) q2(1) l(1)
      by (simp add: attest_head_def op_bind_def store_read_def op_result_def ok_or_def a)
  qed
qed

text \<open>Watching fails only where \<open>bitcoind\<close> does.\<close>

lemma entry_reads:
  assumes "entry_typed x p" and "txid_str_ok x"
  shows "\<exists>t. txid_from_str x (pa_txid p) = Some t" and "\<exists>a. parse_outpoint x (pa_spent_anchor p) = Inr a"
    and "\<exists>n. parse_outpoint x (pa_new_anchor p) = Inr n"
  using assms parse_show_outpoint [OF assms(2)] by (auto simp: entry_typed_def txid_str_ok_def)

lemma monitor_loop_error:
  assumes "rfold (monitor_one x c) ps acc = Inl e" and "\<forall>p\<in>set ps. entry_typed x p" and "txid_str_ok x"
  shows "\<exists>t. attestation_status x c t = Inl e"
  using assms(1,2)
proof (induction ps arbitrary: acc)
  case (Cons p ps)
  obtain sv a where acc: "acc = (sv, a)" by fastforce
  obtain t sp where p: "txid_from_str x (pa_txid p) = Some t" "parse_outpoint x (pa_spent_anchor p) = Inr sp"
    using entry_reads [OF _ assms(3)] Cons.prems(2) by (meson list.set_intros(1))
  show ?case
  proof (cases "attestation_status x c t")
    case (Inl e')
    then have "monitor_one x c p acc = Inl e'" by (simp add: acc monitor_one_eq pending_status_def p)
    then show ?thesis using Cons.prems(1) Inl by auto
  next
    case (Inr st)
    then have "\<exists>acc'. monitor_one x c p acc = Inr acc'"
      by (simp add: acc monitor_one_eq pending_status_def p)
    then show ?thesis using Cons by auto
  qed
qed simp

lemma typed_monitor:
  assumes typed: "store_typed x js q" and ok: "txid_str_ok x" "serde_ok js"
  shows "store_typed x js (snd (monitor_pending x js c q)) \<and>
    (\<forall>e. fst (monitor_pending x js c q) = Inl e \<longrightarrow> (\<exists>t. attestation_status x c t = Inl e))"
proof -
  obtain l where l: "pending_attestations js (sh_store q) = Inr l" "\<forall>p\<in>set l. entry_typed x p"
    using typed_pending [OF typed ok(2)] by blast
  note step = monitor_pending_def op_bind_def store_read_def op_result_def
  show ?thesis
  proof (cases "l = []")
    case True
    then show ?thesis using typed l(1) by (simp add: step)
  next
    case ne: False
    show ?thesis
    proof (cases "rfold (monitor_one x c) l ([], None)")
      case (Inl e)
      then show ?thesis using typed l ne monitor_loop_error [OF Inl l(2) ok(1)] by (auto simp: step)
    next
      case (Inr r)
      obtain sv a where r: "r = (sv, a)" by fastforce
      have "\<forall>p\<in>set sv. entry_typed x p" using monitor_loop [OF Inr [unfolded r]] l(2) by simp
      from typed_pending_write [OF typed this] obtain q1 where
        q1: "store_write (\<lambda>s. set_pending_attestations js s sv) q = (Inr (), q1)" "store_typed x js q1" by blast
      show ?thesis
      proof (cases a)
        case None
        then show ?thesis using l(1) ne Inr r q1 by (simp add: step)
      next
        case (Some p)
        obtain q2 where q2: "store_write (\<lambda>s. seq_set_anchor x s p) q1 = (Inr (), q2)" "store_typed x js q2"
          using typed_anchor_write [OF q1(2)] by blast
        obtain h where h: "seq_last_attested_l1_height (sh_store q2) = Inr h" using typed_attested [OF q2(2)] by blast
        define ah where "ah = (case h of Some h \<Rightarrow> h | None \<Rightarrow> 0)"
        obtain q3 where q3: "store_write (\<lambda>s. seq_set_last_attested_l1_height s (sat_sub ah 1)) q2 = (Inr (), q3)"
          "store_typed x js q3" using typed_attested_write [OF q2(2)] by blast
        have "monitor_pending x js c q = (if 0 < ah then (Inr (), q3) else (Inr (), q2))"
          using l(1) ne Inr r Some q1(1) q2(1) h q3(1) by (simp add: step Let_def ah_def [symmetric])
        then show ?thesis using q2(2) q3(2) by simp
      qed
    qed
  qed
qed

lemma typed_produce: "store_typed x js q \<Longrightarrow> store_typed x js (snd (produce_block x c now q))"
  by (auto simp: produce_block_cases Let_def store_typed_def text_typed_def healthy_def write_produced_def
      seq_write_block_and_state_def seq_set_l1_cursor_def seq_kv_put_def drained_def block_of_def new_block_def
      split: sum.splits if_splits)

section \<open>Every step\<close>

lemma typed_step:
  assumes "seq_step x js S S'" and "store_typed x js (fst S)" and ok: "txid_str_ok x" "serde_ok js"
  shows "store_typed x js (fst S')"
  using assms(1,2)
proof (induction rule: seq_step.induct)
  case (on_l1_tick q ts c0 c1 c2 c3 now)
  let ?q = "snd (monitor_pending x js c0 q)"
  have "store_typed x js ?q" using on_l1_tick typed_monitor [OF _ ok] by simp
  then have "store_typed x js (snd (produce_block x c2 now ?q))" "store_typed x js ?q" by (simp_all add: typed_produce)
  moreover have "store_typed x js (snd (attest_head x js c3 tip q'))" if "store_typed x js q'" for tip q'
    using typed_attest [OF that ok, of c3 tip] by auto
  ultimately show ?case
    using check_and_attest_state [of x js c1 c2 c3 now ?q] by (auto simp: l1_tick_def)
next
  case (mint_enqueued e ts q now)
  then show ?case by (auto simp: submit_mint_enqueue_def Let_def elim!: store_typed_frame [rotated 2])
next
  case (transfer_submitted q ts t now)
  then show ?case by (auto simp: submit_transfer_def Let_def elim!: store_typed_frame [rotated 2])
qed (simp_all add: block_tick_def typed_produce)

lemma typed_reachable:
  assumes "(seq_step x js)\<^sup>*\<^sup>* S S'" and "store_typed x js (fst S)" and "txid_str_ok x" "serde_ok js"
  shows "store_typed x js (fst S')"
  using assms(1,2) by (induction rule: rtranclp_induct) (auto intro: typed_step [OF _ _ assms(3,4)])

text \<open>A first start writes the rows the invariant asks for.\<close>

lemma seq_main_typed:
  assumes "seq_main x seckey fresh cfg c now seq_open = (Inr q, s)"
  shows "store_typed x js q"
proof -
  obtain b where inv: "seq_inv x q [b]" "sh_store q = s" using seq_main_genesis [OF assms] by blast
  from assms obtain k s1 st hd0 where i: "load_or_create_identity x seckey fresh seq_open = (Inr k, s1)"
    and b: "seq_bootstrap x (sc_l1_genesis_height cfg) c now k s1 = (Inr (st, hd0), s)" "q = Shared_new x st hd0 k s"
    by (auto simp: seq_main_def op_success op_gets_def op_return_def)
  have k: "s1 = key_only (hex_encode x (be_bytes 32 fresh))"
    using identity_created [OF i] by (simp add: seq_open_def key_only_def)
  have "seq_load_latest_state s1 = Inr None"
    by (intro fresh_latest) (simp add: k fresh_store_def key_only_def seq_open_def healthy_def)
  then obtain p where kv: "sq_kv s = fmupd ''anchor'' (show_outpoint x p)
      (fmupd ''l1_cursor'' (u32_to_string (sc_l1_genesis_height cfg))
        (fmupd ''l2_head_height'' (u32_to_string 0) (sq_kv s1)))" and hd0: "hd_height hd0 = 0"
    using b(1) by (auto simp: seq_bootstrap_def seq_init_def op_success Let_def seq_write_block_and_state_def seq_set_l1_cursor_def
        seq_set_anchor_def seq_kv_put_def split: if_splits)
  have "text_typed x js key v" if "fmlookup (sq_kv s) key = Some v" for key v
  proof -
    from that consider "key = ''anchor''" "v = show_outpoint x p"
      | "key = ''l1_cursor''" "v = u32_to_string (sc_l1_genesis_height cfg)"
      | "key = ''l2_head_height''" "v = u32_to_string 0" | "key = ''sequencer_seckey''"
      unfolding kv k key_only_def by (simp split: if_splits)
    then show ?thesis by cases (simp_all only: text_typed_simps, blast+)
  qed
  moreover have "healthy s" using inv by (simp add: seq_inv_iff)
  ultimately show ?thesis
    by (simp add: store_typed_def inv(2)) (simp add: kv hd0 b(2) Shared_new_def)
qed

text \<open>What can go wrong in an L1 tick is L1 alone.\<close>

lemma typed_check:
  assumes typed: "store_typed x js q" and inv: "seq_inv x q bs" "can_grow q" and ok: "txid_str_ok x" "serde_ok js"
    and err: "fst (check_and_attest x js c1 c2 c3 now q) = Inl e"
  shows "seq_block_count c1 = Inl e \<or> l1_point x c2 = Inl e"
proof (cases "seq_block_count c1")
  case (Inl e')
  then show ?thesis using err by (simp add: check_and_attest_def op_bind_def op_result_def)
next
  case (Inr tip)
  obtain h where h: "last_attested (sh_store q) = Inr h"
    using typed_attested [OF typed] by (auto simp: last_attested_def)
  show ?thesis
  proof (cases "l1_point x c2")
    case (Inl e')
    then have "produce_block x c2 now q = (Inl e', q)" using produce_inv [OF inv, of c2 now] by simp
    then show ?thesis
      using err Inr h Inl by (auto simp: check_and_attest_def op_bind_def op_result_def store_read_def split: if_splits)
  next
    case p: (Inr lp)
    obtain q' where q': "produce_block x c2 now q = (Inr (), q')"
      using p produce_inv [OF inv, of c2 now] by (cases lp) auto
    then have "store_typed x js q'" using typed_produce [OF typed, of c2 now] by simp
    then obtain q'' where "attest_head x js c3 tip q' = (Inr (), q'')" using typed_attest [OF _ ok] by blast
    then show ?thesis
      using err Inr h q' by (auto simp: check_and_attest_def op_bind_def op_result_def store_read_def split: if_splits)
  qed
qed

end
