(* ===== verification/SequencerProperties.thy ===== *)
theory SequencerProperties
  imports SeqSample SeqLiveness SeqTyped
begin

text \<open>The properties of the sequencer.\<close>

section \<open>The chain\<close>


lemma sample_can_grow: "can_grow sample_seq"
  using sample_seq_inv seq_inv_height [of toy_ext sample_seq "[b]" for b] by (auto simp: can_grow_def)



text \<open>C4: block production. While the database answers and L1 can be read, \<open>produce_block\<close> succeeds: the
  new block extends the chain, every mint in it verifies against the L1 view it was built on, every
  queued mint that verifies ends up consumed, the mempool is empty, and the store holds the block
  and the witness a light client needs for it.\<close>

theorem produce_block_extends:
  assumes "seq_inv x q bs" and "can_grow q" and "l1_point x c = Inr (l1h, l1hash)"
  shows "\<exists>q' b. produce_block x c now q = (Inr (), q') \<and> seq_inv x q' (bs @ [b]) \<and>
    extends x (last bs) (sh_state q) b (sh_state q') \<and> txs_root (header b) = compute_txs_root x (txs b) \<and>
    mints_ok x (seq_l1_view c) (txs b) \<and>
    (\<forall>e\<in>set (mints (sh_mempool q)). \<forall>cr.
       MintProofEnvelope_verify x (seq_l1_view c) (witness e) (l2_destination (event e)) = Inr cr \<longrightarrow>
       nullifier_hex (credit_event cr) |\<in>| consumed_nullifiers (sh_state q')) \<and>
    seq_get_witness (sh_store q') (bh_height (header b)) =
      Inr (Some (BlockWitness_build x (sh_state q) (txs b) (bh_height (header b))))"
proof -
  let ?b = "block_of x c now l1h l1hash q"
  obtain q' where q': "produce_block x c now q = (Inr (), q')" "seq_inv x q' (bs @ [?b])"
    "sh_state q' = fst (build_of x c q)"
    "seq_get_witness (sh_store q') (hd_height (sh_head q')) =
      Inr (Some (BlockWitness_build x (sh_state q) (snd (build_of x c q)) (hd_height (sh_head q'))))"
    using produce_inv [OF assms(1,2), of c now] assms(3) by auto
  have h: "hd_height (sh_head q') = bh_height (header ?b)" using q'(2) by (simp add: seq_inv_def)
  have txs: "txs ?b = snd (build_of x c q)" "txs_root (header ?b) = compute_txs_root x (txs ?b)"
    by (simp_all add: block_of_def new_block_def)
  have ok: "mints_ok x (seq_l1_view c) (txs ?b)"
    unfolding txs by (rule build_txs_sound(2)) (simp add: build_of_def prod_eq_iff)
  have "extends x (last bs) (sh_state q) ?b (sh_state q')"
    unfolding q'(3) using assms(1) by (intro new_block_extends) (simp add: seq_inv_def)
  moreover have "\<forall>e\<in>set (mints (sh_mempool q)). \<forall>cr.
       MintProofEnvelope_verify x (seq_l1_view c) (witness e) (l2_destination (event e)) = Inr cr \<longrightarrow>
       nullifier_hex (credit_event cr) |\<in>| consumed_nullifiers (sh_state q')"
    unfolding q'(3) build_of_def using build_txs_consumes by blast
  ultimately show ?thesis using q' txs ok h by (intro exI [of _ q'] exI [of _ ?b]) simp
qed

theorem produce_block_extends_witness:
  "\<exists>bs q' b. produce_block toy_ext sample_rpc 1700000600 sample_seq = (Inr (), q') \<and> seq_inv toy_ext q' (bs @ [b]) \<and>
    extends toy_ext (last bs) (sh_state sample_seq) b (sh_state q')"
  using sample_seq_inv produce_block_extends [OF _ sample_can_grow sample_rpc_point] by meson






definition sample_config :: SequencerConfig where
  "sample_config = seq_example\<lparr>sc_l1_genesis_height := 90\<rparr>"

definition toy_seckey :: "bytes \<Rightarrow> Keypair option" where
  "toy_seckey bs = (if length bs = 32 then Some (from_be bs) else None)"

lemma toy_seckey_be: "toy_seckey (be_bytes 32 k) = Some k"
  by (simp add: toy_seckey_def)

lemma sample_genesis_hash: "block_hash_hex sample_rpc 90 = Inr (hex_encode toy_ext (be_bytes 32 (8 :: H256)))"
  by (simp add: block_hash_hex_def sample_rpc_def)





text \<open>C37: a first start that is cut off between the genesis block and the anchor is never made good. If the database
  takes the genesis block and refuses the statements after it, the program stops with an error; every later start
  succeeds, but whatever ticks and requests follow, every attempt to attest the head fails for want of an anchor,
  so no block of that chain is ever attested on L1.\<close>

theorem interrupted_start_never_attests:
  assumes "block_hash_hex c (sc_l1_genesis_height cfg) = Inr h" and "parse_l1_block_hash x h = Inr l1hash"
    and "pick_initial_anchor x c = Inr p" and "hex_decode x hex = Some bs" and "seckey bs = Some k"
  shows "\<exists>s q. seq_main x seckey fresh cfg c now ((key_only hex)\<lparr>sq_fault := (\<lambda>f. f = UpsertKv)\<rparr>) = (Inl SqlError, s) \<and>
    (let s' = s\<lparr>sq_fault := (\<lambda>_. False)\<rparr>
     in (\<forall>fresh' cfg' c' now'. seq_main x seckey fresh' cfg' c' now' s' = (Inr q, s')) \<and>
        (\<forall>q' tasks c' tip. (seq_step x js)\<^sup>*\<^sup>* (q, []) (q', tasks) \<longrightarrow> attest_head x js c' tip q' = (Inl Anyhow.NoAnchor, q')))"
proof -
  from seq_main_cut_off [where seckey = seckey and bs = bs and fresh = fresh and now = now, OF assms] obtain s q where
    "seq_main x seckey fresh cfg c now ((key_only hex)\<lparr>sq_fault := (\<lambda>f. f = UpsertKv)\<rparr>) = (Inl SqlError, s)"
    "\<forall>fresh' cfg' c' now'. seq_main x seckey fresh' cfg' c' now' (s\<lparr>sq_fault := (\<lambda>_. False)\<rparr>) = (Inr q, s\<lparr>sq_fault := (\<lambda>_. False)\<rparr>)"
    and un: "unanchored q" unfolding Let_def by blast
  moreover have "attest_head x js c' tip q' = (Inl Anyhow.NoAnchor, q')" if "(seq_step x js)\<^sup>*\<^sup>* (q, []) (q', tasks)" for q' tasks c' tip
    using unanchored_reachable [OF that] un by (simp add: unanchored_attest)
  ultimately show ?thesis unfolding Let_def by blast
qed

theorem interrupted_start_never_attests_witness:
  "\<exists>s q. seq_main toy_ext toy_seckey 3 sample_config sample_rpc 1700000000
      ((key_only (hex_encode toy_ext (be_bytes 32 (2 :: Keypair))))\<lparr>sq_fault := (\<lambda>f. f = UpsertKv)\<rparr>) = (Inl SqlError, s) \<and>
    seq_main toy_ext toy_seckey 3 sample_config sample_rpc 1700000100 (s\<lparr>sq_fault := (\<lambda>_. False)\<rparr>) =
      (Inr q, s\<lparr>sq_fault := (\<lambda>_. False)\<rparr>) \<and>
    attest_head toy_ext toy_serde sample_rpc 101 q = (Inl Anyhow.NoAnchor, q)"
proof -
  have "block_hash_hex sample_rpc (sc_l1_genesis_height sample_config) = Inr (hex_encode toy_ext (be_bytes 32 (8 :: H256)))"
    by (simp add: sample_config_def sample_genesis_hash)
  from interrupted_start_never_attests [where seckey = toy_seckey and bs = "be_bytes 32 (2 :: Keypair)" and fresh = 3 and
      now = 1700000000 and js = toy_serde, OF this parse_l1_block_hash_hex [OF hex_ok_toy] sample_rpc_anchor
      hex_ok_decode [OF hex_ok_toy] toy_seckey_be]
  show ?thesis unfolding Let_def by (blast intro: rtranclp.rtrancl_refl)
qed

section \<open>Requests\<close>

text \<open>Mint submission. A request is accepted exactly when its proof verifies for the destination and the
  deposit's nullifier is neither consumed in the ledger nor pending; then the entry is queued last
  with the amount of its event, and the returned soft confirmation names the transaction's hash
  and the next height under the sequencer's own signature. Otherwise nothing changes.\<close>

theorem submit_mint_accepts_iff:
  "case submit_mint x l1 req now q of (r, q') \<Rightarrow>
     (mint_accepted r \<longleftrightarrow> (\<exists>cr. MintProofEnvelope_verify x l1 (smr_proof req) (smr_destination req) = Inr cr \<and>
        nullifier_hex (credit_event cr) |\<notin>| consumed_nullifiers (sh_state q) \<and>
        nullifier_hex (credit_event cr) |\<notin>| pending_nullifiers (sh_mempool q))) \<and>
     (if mint_accepted r
      then \<exists>e. mints (sh_mempool q') = mints (sh_mempool q) @ [e] \<and> witness e = smr_proof req \<and>
        mint_amount r = Some (ev_amount (event e)) \<and>
        mint_soft_conf r = Some (sign_soft_conf x q (tx_hash x (Mint e)) now) \<and>
        q' = q\<lparr>sh_mempool := sh_mempool q'\<rparr>
      else q' = q \<and> mint_soft_conf r = None \<and> mint_error r \<noteq> None)"
  by (cases "MintProofEnvelope_verify x l1 (smr_proof req) (smr_destination req)")
    (auto simp: submit_mint_def submit_mint_check_def submit_mint_enqueue_def mint_rejected_def Let_def
      sign_soft_conf_def)

text \<open>A transfer accepted a moment ago blocks the next. After \<open>/transfer\<close> has accepted a transfer,
  \<open>/balance\<close> advertises the committed nonce plus the queued transfers as the effective nonce, and
  \<open>/transfer\<close> refuses every transfer that carries it, because it compares with the committed nonce.\<close>

theorem effective_nonce_rejected:
  assumes "submit_transfer x t now q = (r, q')" and "transfer_accepted r"
    and "length (transfers (sh_mempool q')) < 2 ^ 64 - unat (nonce_of (sh_state q) (tb_from (body t)))"
    and "tb_from (body t') = tb_from (body t)"
    and "tb_nonce (body t') = br_effective_nonce (seq_balance x (tb_from (body t)) q')"
  shows "\<not> transfer_accepted (fst (submit_transfer x t' now' q'))"
proof -
  let ?a = "tb_from (body t)" and ?q = "transfers (sh_mempool q')"
  let ?k = "length (filter (\<lambda>t. tb_from (body t) = ?a) ?q)"
  have q': "sh_state q' = sh_state q" "?q = transfers (sh_mempool q) @ [t]"
    using assms(1,2) by (auto simp: submit_transfer_def transfer_rejected_def Let_def split: if_splits)
  then have k: "0 < ?k" "?k \<le> length ?q" by auto
  then have "?k < 2 ^ 64" using assms(3) by linarith
  then have "unat (of_nat ?k :: u64) = ?k" by (simp only: unat_of_nat) (simp add: take_bit_nat_eq_self)
  moreover have "unat (nonce_of (sh_state q) ?a) + ?k \<le> 2 ^ 64 - 1" using k assms(3) by linarith
  ultimately have "unat (sat_add (nonce_of (sh_state q) ?a) (of_nat ?k)) = unat (nonce_of (sh_state q) ?a) + ?k"
    by (simp add: rust_arith min_absorb1)
  then have "br_effective_nonce (seq_balance x ?a q') \<noteq> nonce_of (sh_state q') ?a"
    using k(1) q'(1) by (auto simp: seq_balance_def Let_def)
  then show ?thesis
    using assms(4,5) by (auto simp: submit_transfer_def transfer_rejected_def Let_def)
qed

definition signed_by_alice :: "u64 \<Rightarrow> SignedTransfer" where
  "signed_by_alice n = \<lparr> body = sample_body\<lparr>tb_nonce := n\<rparr>,
     signature = word_cat (transfer_sighash toy_ext (sample_body\<lparr>tb_nonce := n\<rparr>)) (xonly_word alice) \<rparr>"

lemma sample_submit:
  assumes "nonce_of (sh_state q) alice = 0"
  shows "\<exists>r. submit_transfer toy_ext (signed_by_alice 0) 0 q =
      (r, q\<lparr>sh_mempool := (sh_mempool q)\<lparr>transfers := transfers (sh_mempool q) @ [signed_by_alice 0]\<rparr>\<rparr>) \<and> transfer_accepted r"
  using assms by (simp add: submit_transfer_def signed_by_alice_def sample_body_def Let_def)
    (simp add: toy_ext_def)

theorem effective_nonce_rejected_witness:
  "\<exists>r q'. submit_transfer toy_ext (signed_by_alice 0) 0 sample_seq = (r, q') \<and> transfer_accepted r \<and>
     br_effective_nonce (seq_balance toy_ext alice q') = 1 \<and>
     \<not> transfer_accepted (fst (submit_transfer toy_ext (signed_by_alice 1) 0 q'))"
proof -
  have n: "nonce_of (sh_state sample_seq) alice = 0"
    using sample_seq_fresh(1) by (auto simp: nonce_of_def genesis_ledger_def LedgerState_new_def)
  note m = sample_seq_fresh(2)
  obtain r where r: "submit_transfer toy_ext (signed_by_alice 0) 0 sample_seq =
      (r, sample_seq\<lparr>sh_mempool := Mempool_default\<lparr>transfers := [signed_by_alice 0]\<rparr>\<rparr>)" "transfer_accepted r"
    using sample_submit [OF n] m by (auto simp: Mempool_default_def)
  have e: "br_effective_nonce (seq_balance toy_ext alice
      (sample_seq\<lparr>sh_mempool := Mempool_default\<lparr>transfers := [signed_by_alice 0]\<rparr>\<rparr>)) = 1"
    using n by (simp add: seq_balance_def Let_def signed_by_alice_def sample_body_def)
  have "\<not> transfer_accepted (fst (submit_transfer toy_ext (signed_by_alice 1) 0
      (sample_seq\<lparr>sh_mempool := Mempool_default\<lparr>transfers := [signed_by_alice 0]\<rparr>\<rparr>)))"
    by (rule effective_nonce_rejected [OF r])
      (use n e in \<open>simp_all add: signed_by_alice_def sample_body_def\<close>)
  with r e show ?thesis by blast
qed

section \<open>Attestations\<close>

text \<open>Posting an attestation. When L1 accepts the transaction, the store ends with the new anchor
  (output 1 of the posted transaction), the L1 height just attested and the attestation appended to
  the pending list with the anchor it spent; ledger, mempool and head are untouched.\<close>

theorem attestation_posted:
  assumes "healthy (sh_store q)" and "serde_ok js" and "txid_str_ok x"
    and "seq_get_anchor x (sh_store q) = Inr (Some a)" and "pending_attestations js (sh_store q) = Inr ps"
    and "post_attestation_chained x c
        (Attestation_new (hd_height (sh_head q)) (hd_block_hash (sh_head q)) (hd_state_root (sh_head q))) a = Inr (t, p)"
  shows "\<exists>s. attest_head x js c tip q = (Inr (), q\<lparr>sh_store := s\<rparr>) \<and> healthy s \<and>
    seq_get_anchor x s = Inr (Some (OutPoint t 1)) \<and> seq_last_attested_l1_height s = Inr (Some tip) \<and>
    pending_attestations js s = Inr (ps @ [pending_of x t a (OutPoint t 1) (hd_height (sh_head q)) tip])"
  using assms by (rule attest_head_posts)

lemma sample_seq_anchor:
  "healthy (sh_store sample_seq)" "seq_get_anchor toy_ext (sh_store sample_seq) = Inr (Some (OutPoint 6 1))"
proof -
  obtain st h s where s: "seq_bootstrap toy_ext 90 sample_rpc 1700000000 2 seq_open = (Inr (st, h), s)"
    "sample_seq = Shared_new toy_ext st h 2 s" by (rule sample_seq_start)
  from seq_bootstrap_genesis [OF s(1)] show "healthy (sh_store sample_seq)"
    "seq_get_anchor toy_ext (sh_store sample_seq) = Inr (Some (OutPoint 6 1))"
    unfolding s(2) using parse_show_outpoint [OF txid_str_ok_toy]
    by (auto simp: Shared_new_def seq_inv_iff sample_rpc_anchor seq_get_anchor_def)
qed

lemma sample_post:
  "post_attestation_chained toy_ext sample_rpc att a = Inr (9, OutPoint 9 1)"
  by (simp add: post_attestation_chained_def Let_def sample_rpc_def toy_txid)

text \<open>The sample sequencer with a given pending list.\<close>

definition with_pending :: "PendingAttestation list \<Rightarrow> Sequencer" where
  "with_pending ps = sample_seq\<lparr>sh_store := (sh_store sample_seq)\<lparr>sq_kv :=
     fmupd ''pending_attestations'' (pending_to_json toy_serde ps) (sq_kv (sh_store sample_seq))\<rparr>\<rparr>"

lemma with_pending:
  "healthy (sh_store (with_pending ps))" "pending_attestations toy_serde (sh_store (with_pending ps)) = Inr ps"
  "seq_get_anchor toy_ext (sh_store (with_pending ps)) = Inr (Some (OutPoint 6 1))"
  using sample_seq_anchor serde_ok_toy
  by (simp_all add: with_pending_def pending_attestations_def healthy_reads serde_ok_def seq_get_anchor_def)

theorem attestation_posted_witness:
  "\<exists>s. attest_head toy_ext toy_serde sample_rpc 101 (with_pending []) = (Inr (), (with_pending [])\<lparr>sh_store := s\<rparr>) \<and>
    healthy s \<and> seq_get_anchor toy_ext s = Inr (Some (OutPoint 9 1)) \<and>
    seq_last_attested_l1_height s = Inr (Some 101) \<and>
    pending_attestations toy_serde s =
      Inr ([] @ [pending_of toy_ext 9 (OutPoint 6 1) (OutPoint 9 1) (hd_height (sh_head (with_pending []))) 101])"
  by (rule attestation_posted [OF with_pending(1) serde_ok_toy txid_str_ok_toy with_pending(3,2) sample_post])

text \<open>The watch over posted attestations. One round drops the final and the missing attestations from the
  pending list and keeps the others; when some are missing it moves the anchor back to what the
  last missing one had spent and rewinds the attested height by one.\<close>

theorem monitor_recovers:
  assumes "healthy (sh_store q)" and "serde_ok js" and "txid_str_ok x"
    and "pending_attestations js (sh_store q) = Inr ps" and "filter (is_missing x c) ps \<noteq> []"
    and "rfold (monitor_one x c) ps ([], None) = Inr (sv, a)"
  shows "\<exists>s sp. monitor_pending x js c q = (Inr (), q\<lparr>sh_store := s\<rparr>) \<and>
    pending_attestations js s = Inr (filter (survives x c) ps) \<and>
    parse_outpoint x (pa_spent_anchor (last (filter (is_missing x c) ps))) = Inr sp \<and>
    seq_get_anchor x s = Inr (Some sp) \<and>
    seq_last_attested_l1_height s =
      rbind (seq_last_attested_l1_height (sh_store q)) (\<lambda>l. Inr (map_option (\<lambda>h. sat_sub h 1) l))"
proof -
  obtain sp where sp: "parse_outpoint x (pa_spent_anchor (last (filter (is_missing x c) ps))) = Inr sp" "a = Some sp"
    using monitor_loop [OF assms(6)] assms(5) by auto
  have "ps \<noteq> []" using assms(5) by auto
  from monitor_pending_state [OF assms(1-4) this assms(6) [unfolded sp(2)]] sp(1) show ?thesis by blast
qed

definition lost :: "Txid \<Rightarrow> Txid \<Rightarrow> PendingAttestation" where
  "lost a t = pending_of toy_ext t (OutPoint a 1) (OutPoint t 1) 1 100"

lemma lost_missing: "pending_status toy_ext sample_rpc (lost a t) = Inr Missing"
  by (simp add: pending_status_def lost_def pending_of_def toy_txid attestation_status_Missing sample_rpc_def)

lemma lost_spent: "parse_outpoint toy_ext (pa_spent_anchor (lost a t)) = Inr (OutPoint a 1)"
  by (simp add: lost_def pending_of_def parse_show_outpoint [OF txid_str_ok_toy])

lemma monitor_lost:
  "rfold (monitor_one toy_ext sample_rpc) [lost 6 9, lost 9 11] ([], None) = Inr ([], Some (OutPoint 9 1))"
  by (simp add: monitor_one_eq lost_missing lost_spent)

theorem monitor_recovers_witness:
  "\<exists>s. monitor_pending toy_ext toy_serde sample_rpc (with_pending [lost 6 9, lost 9 11]) =
      (Inr (), (with_pending [lost 6 9, lost 9 11])\<lparr>sh_store := s\<rparr>) \<and> seq_get_anchor toy_ext s = Inr (Some (OutPoint 9 1))"
proof -
  have "filter (is_missing toy_ext sample_rpc) [lost 6 9, lost 9 11] \<noteq> []"
    by (simp add: is_missing_def lost_missing)
  moreover have "parse_outpoint toy_ext (pa_spent_anchor (last (filter (is_missing toy_ext sample_rpc) [lost 6 9, lost 9 11]))) =
      Inr (OutPoint 9 1)"
    by (simp add: is_missing_def lost_missing lost_spent)
  ultimately show ?thesis
    using monitor_recovers [OF with_pending(1) serde_ok_toy txid_str_ok_toy with_pending(2) _ monitor_lost] by fastforce
qed

text \<open>So when two linked attestations are lost together, the anchor the sequencer returns to is an output
  of the first lost transaction, which no longer exists either.\<close>

theorem monitor_reverts_to_lost_output:
  assumes "healthy (sh_store q)" and "serde_ok js" and "txid_str_ok x"
    and "pending_attestations js (sh_store q) = Inr [p, r]" and "linked [p, r]"
    and "is_missing x c p" and "is_missing x c r"
    and "pa_new_anchor p = show_outpoint x (OutPoint t 1)" and "is_ok (parse_outpoint x (pa_spent_anchor p))"
  shows "\<exists>s. monitor_pending x js c q = (Inr (), q\<lparr>sh_store := s\<rparr>) \<and> seq_get_anchor x s = Inr (Some (OutPoint t 1))"
proof -
  have r: "parse_outpoint x (pa_spent_anchor r) = Inr (OutPoint t 1)"
    using assms(5,8) parse_show_outpoint [OF assms(3)] by simp
  obtain sp where "parse_outpoint x (pa_spent_anchor p) = Inr sp" using assms(9) by (auto simp: is_ok_iff)
  then have "rfold (monitor_one x c) [p, r] ([], None) = Inr ([], Some (OutPoint t 1))"
    using assms(6,7) r by (simp add: monitor_one_eq is_missing_def)
  from monitor_pending_state [OF assms(1-4) _ this] show ?thesis by fastforce
qed

section \<open>Database failures\<close>




text \<open>A refused cursor write stops production for good. The block is then stored but the head has not
  moved, so the row for the next height exists: that production fails, and so does every later one,
  each emptying the mempool, until the process is restarted.\<close>

theorem cursor_failure_wedges:
  assumes "l1_point x c = Inr (l1h, l1hash)" and "write_produced x c now l1h l1hash q = Inr s"
    and "seq_set_l1_cursor s l1h = Inl e"
  shows "\<exists>q'. produce_block x c now q = (Inl e, q') \<and> sh_head q' = sh_head q \<and>
    (\<forall>c' now'. \<exists>e' q''. produce_block x c' now' q' = (Inl e', q'') \<and> sh_head q'' = sh_head q' \<and>
       sh_store q'' = sh_store q')"
  using produce_cursor_failure [OF assms] produce_stuck by blast

definition full_kv :: Sequencer where
  "full_kv = sample_seq\<lparr>sh_store := (sh_store sample_seq)\<lparr>sq_fault := (\<lambda>k. k = UpsertKv)\<rparr>\<rparr>"

theorem cursor_failure_wedges_witness:
  "\<exists>q'. produce_block toy_ext sample_rpc 1 full_kv = (Inl SqlError, q') \<and> sh_head q' = sh_head full_kv \<and>
    (\<forall>c' now'. \<exists>e' q''. produce_block toy_ext c' now' q' = (Inl e', q'') \<and> sh_head q'' = sh_head q' \<and>
       sh_store q'' = sh_store q')"
proof -
  obtain b where inv: "seq_inv toy_ext sample_seq [b]" using sample_seq_inv by blast
  have h: "unat (hd_height (sh_head sample_seq) + 1) = length [b]" by (rule can_grow_height [OF inv sample_can_grow])
  have "\<exists>s. write_produced toy_ext sample_rpc 1 100 8 full_kv = Inr s \<and> sq_fault s UpsertKv"
    using rows_above_head [OF inv h]
    by (simp add: write_produced_def seq_write_block_and_state_def full_kv_def block_of_def new_block_def Let_def)
  then obtain s where s: "write_produced toy_ext sample_rpc 1 100 8 full_kv = Inr s" "sq_fault s UpsertKv" by blast
  then have "seq_set_l1_cursor s 100 = Inl SqlError" by (simp add: seq_set_l1_cursor_def seq_kv_put_def)
  from cursor_failure_wedges [OF sample_rpc_point s(1) this] show ?thesis .
qed

end
