(* ===== verification/NodeStore.thy ===== *)
theory NodeStore
  imports StoreLaws
begin

text \<open>\<open>hodl-node/src/store.rs\<close>: the node's store. It has the sequencer's tables, without the
  attestation column, and the table of anchor spends that serves the Esplora lookups.\<close>

record NodeStore =
  nd_kv :: "(string, string) fmap"
  nd_blocks :: "(u32, L2Block) fmap"
  nd_snapshots :: "(u32, LedgerState) fmap"
  nd_witnesses :: "(u32, BlockWitness) fmap"
  nd_spends :: "(string \<times> u32, string \<times> u32) fmap"
  nd_fault :: "Sql \<Rightarrow> bool"

definition node_open :: NodeStore where
  "node_open = \<lparr> nd_kv = fmempty, nd_blocks = fmempty, nd_snapshots = fmempty, nd_witnesses = fmempty,
     nd_spends = fmempty, nd_fault = (\<lambda>_. False) \<rparr>"

definition node_kv_get :: "NodeStore \<Rightarrow> string \<Rightarrow> (Anyhow, string option) result" where
  "node_kv_get s key = (if nd_fault s SelectKv then Inl SqlError else Inr (fmlookup (nd_kv s) key))"

definition node_kv_put :: "NodeStore \<Rightarrow> string \<Rightarrow> string \<Rightarrow> (Anyhow, NodeStore) result" where
  "node_kv_put s key value =
     (if nd_fault s UpsertKv then Inl SqlError else Inr (s\<lparr>nd_kv := fmupd key value (nd_kv s)\<rparr>))"

definition node_get_block :: "NodeStore \<Rightarrow> u32 \<Rightarrow> (Anyhow, L2Block option) result" where
  "node_get_block s height =
     (if nd_fault s SelectBlocks then Inl SqlError else Inr (fmlookup (nd_blocks s) height))"

definition node_write_block_and_state ::
    "NodeStore \<Rightarrow> L2Block \<Rightarrow> LedgerState \<Rightarrow> BlockWitness \<Rightarrow> (Anyhow, NodeStore) result" where
  "node_write_block_and_state s block st w =
     (let height = bh_height (header block)
      in if nd_fault s CommitBlock then Inl SqlError
         else if fmlookup (nd_blocks s) height \<noteq> None then Inl SqlError
         else if fmlookup (nd_snapshots s) height \<noteq> None then Inl SqlError
         else if fmlookup (nd_witnesses s) height \<noteq> None then Inl SqlError
         else Inr (s\<lparr> nd_blocks := fmupd height block (nd_blocks s),
                      nd_snapshots := fmupd height st (nd_snapshots s),
                      nd_witnesses := fmupd height w (nd_witnesses s),
                      nd_kv := fmupd ''l2_head_height'' (u32_to_string height) (nd_kv s) \<rparr>))"

definition node_get_witness :: "NodeStore \<Rightarrow> u32 \<Rightarrow> (Anyhow, BlockWitness option) result" where
  "node_get_witness s height =
     (if nd_fault s SelectWitnesses then Inl SqlError else Inr (fmlookup (nd_witnesses s) height))"

definition node_load_latest_state :: "NodeStore \<Rightarrow> (Anyhow, (u32 \<times> LedgerState) option) result" where
  "node_load_latest_state s =
     (if nd_fault s SelectSnapshots then Inl SqlError else Inr (latest_row (nd_snapshots s)))"

definition node_set_l1_cursor :: "NodeStore \<Rightarrow> u32 \<Rightarrow> (Anyhow, NodeStore) result" where
  "node_set_l1_cursor s h = node_kv_put s ''l1_cursor'' (u32_to_string h)"

definition node_l1_cursor :: "NodeStore \<Rightarrow> (Anyhow, u32 option) result" where
  "node_l1_cursor s = rbind (node_kv_get s ''l1_cursor'') (\<lambda>v. Inr (Option.bind v parse_u32))"

definition node_get_anchor :: "ext \<Rightarrow> NodeStore \<Rightarrow> (Anyhow, OutPoint option) result" where
  "node_get_anchor x s =
     rbind (node_kv_get s ''anchor'') (\<lambda>v. case v of
       None \<Rightarrow> Inr None
     | Some t \<Rightarrow> rbind (parse_outpoint x t) (\<lambda>p. Inr (Some p)))"

definition node_set_anchor :: "ext \<Rightarrow> NodeStore \<Rightarrow> OutPoint \<Rightarrow> (Anyhow, NodeStore) result" where
  "node_set_anchor x s p = node_kv_put s ''anchor'' (show_outpoint x p)"

definition record_anchor_spend ::
    "ext \<Rightarrow> NodeStore \<Rightarrow> OutPoint \<Rightarrow> Txid \<Rightarrow> u32 \<Rightarrow> (Anyhow, NodeStore) result" where
  "record_anchor_spend x s p spender spender_l1_height =
     (if nd_fault s UpsertSpend then Inl SqlError
      else Inr (s\<lparr>nd_spends := fmupd (txid_to_string x (txid p), vout p)
                  (txid_to_string x spender, spender_l1_height) (nd_spends s)\<rparr>))"

definition get_anchor_spender ::
    "ext \<Rightarrow> NodeStore \<Rightarrow> string \<Rightarrow> u32 \<Rightarrow> (Anyhow, (Txid \<times> u32) option) result" where
  "get_anchor_spender x s spent_txid spent_vout =
     (if nd_fault s SelectSpends then Inl SqlError
      else (case fmlookup (nd_spends s) (spent_txid, spent_vout) of
              None \<Rightarrow> Inr None
            | Some (t, h) \<Rightarrow> rbind (ok_or (txid_from_str x t) (BadTxid t)) (\<lambda>t. Inr (Some (t, h)))))"

section \<open>The store keeps the contract\<close>

lemmas node_store_defs =
  node_kv_get_def node_kv_put_def node_get_block_def node_get_witness_def node_load_latest_state_def
  node_write_block_and_state_def

interpretation node_kv: key_value node_kv_get node_kv_put
  by unfold_locales (auto simp: node_kv_get_def node_kv_put_def split: if_splits)

interpretation node_db: block_store node_kv_get node_kv_put node_get_block node_get_witness
    node_load_latest_state node_write_block_and_state
  by unfold_locales
    (auto simp: node_store_defs Let_def latest_row_insert simp del: not_None_eq split: if_splits)

text \<open>While the database answers and the tables have the same rows, the store is ready.\<close>

definition node_healthy :: "NodeStore \<Rightarrow> bool" where
  "node_healthy s \<longleftrightarrow> (\<forall>k. \<not> nd_fault s k) \<and>
     fmdom (nd_snapshots s) = fmdom (nd_blocks s) \<and> fmdom (nd_witnesses s) = fmdom (nd_blocks s)"

lemma node_write_ready:
  assumes "node_healthy s" and "node_get_block s (bh_height (header b)) = Inr None"
  shows "\<exists>s'. node_write_block_and_state s b S w = Inr s' \<and> node_healthy s'"
proof -
  have "fmlookup (nd_blocks s) (bh_height (header b)) = None"
    using assms by (simp add: node_get_block_def split: if_splits)
  moreover from this have "fmlookup (nd_snapshots s) (bh_height (header b)) = None"
      "fmlookup (nd_witnesses s) (bh_height (header b)) = None"
    using assms(1) by (auto simp: node_healthy_def fmdom_notD fmdom_notI)
  ultimately show ?thesis
    using assms(1) by (simp add: node_write_block_and_state_def Let_def node_healthy_def)
qed

interpretation node_ready: ready_store node_kv_get node_kv_put node_get_block node_get_witness
    node_load_latest_state node_write_block_and_state node_healthy
proof unfold_locales
  show "\<exists>s'. node_write_block_and_state s b S w = Inr s' \<and> node_healthy s'"
    if "node_healthy s" "node_get_block s (bh_height (header b)) = Inr None" for s b S w
    using that by (rule node_write_ready)
qed (auto simp: node_kv_put_def node_kv_get_def node_get_witness_def node_healthy_def)

lemma node_anchor_roundtrip:
  "txid_str_ok x \<Longrightarrow> node_set_anchor x s p = Inr s' \<Longrightarrow> node_kv_get s ''anchor'' = Inr w \<Longrightarrow>
     node_get_anchor x s' = Inr (Some p)"
  unfolding node_set_anchor_def node_get_anchor_def by (rule node_kv.outpoint_roundtrip)

lemma node_cursor_roundtrip:
  "node_set_l1_cursor s h = Inr s' \<Longrightarrow> node_kv_get s ''l1_cursor'' = Inr w \<Longrightarrow> node_l1_cursor s' = Inr (Some h)"
  unfolding node_set_l1_cursor_def node_l1_cursor_def by (rule node_kv.u32_roundtrip)

text \<open>A recorded spend is found under the outpoint's text form; the others are unchanged.\<close>

lemma anchor_spend_roundtrip:
  assumes "txid_str_ok x" and "record_anchor_spend x s p t h = Inr s'" and "\<not> nd_fault s SelectSpends"
  shows "get_anchor_spender x s' (txid_to_string x (txid q)) (vout q) =
    (if q = p then Inr (Some (t, h)) else get_anchor_spender x s (txid_to_string x (txid q)) (vout q))"
proof -
  have inj: "txid_to_string x a = txid_to_string x b \<longleftrightarrow> a = b" for a b
    using assms(1) unfolding txid_str_ok_def by (metis option.inject)
  show ?thesis
    using assms by (auto simp: record_anchor_spend_def get_anchor_spender_def inj txid_str_ok_def OutPoint.expand
        split: if_splits)
qed

end
