(* ===== verification/NodeL1.thy ===== *)
theory NodeL1
  imports NodeStore Bitcoind
begin

text \<open>\<open>hodl-node/src/bitcoind.rs\<close> and \<open>seq_client.rs\<close>: what the node asks of \<open>bitcoind\<close> and of
  the sequencer. A transaction of the \<open>bitcoin\<close> crate is its id, the outpoints it spends and
  its outputs.\<close>

record Transaction =
  tx_id :: Txid
  tx_inputs :: "OutPoint list"
  tx_outputs :: "(Script \<times> u64) list"

record RawTxInfo =
  ri_transaction :: "Transaction option"
  ri_confirmations :: "u32 option"

record UnspentEntry =
  ue_txid :: "string option"
  ue_vout :: "u64 option"
  ue_amount :: "rat option"
  ue_height :: "u64 option"

record ScanReply =
  sr_success :: "bool option"
  sr_unspents :: "UnspentEntry list option"

record NodeRpc = BitcoindRpc +
  node_block_hash :: "u64 \<Rightarrow> (string, H256) result"
  node_block :: "H256 \<Rightarrow> (string, Transaction list) result"
  get_raw_transaction_info :: "Txid \<Rightarrow> (string, RawTxInfo) result"
  scantxoutset :: "string \<Rightarrow> (string, ScanReply) result"
  send_raw_transaction :: "bytes \<Rightarrow> (string, Txid) result"

record NodeUtxo =
  nu_txid :: string
  nu_vout :: u32
  nu_value_sat :: u64
  nu_block_height :: "u32 option"

record ChainAdvance =
  ca_attestation :: Attestation
  ca_l1_height :: u32
  ca_txid :: Txid
  ca_spent_anchor :: OutPoint
  ca_new_anchor :: OutPoint

definition node_block_count :: "NodeRpc \<Rightarrow> (Anyhow, u32) result" where
  "node_block_count c =
     rbind (rpc (get_block_count c)) (\<lambda>n.
     if unat n < 2 ^ 32 then Inr (ucast n) else Inl (BlockCountOverflow n))"

definition get_tx_with_height :: "NodeRpc \<Rightarrow> Txid \<Rightarrow> (Anyhow, Transaction \<times> u32 option) result" where
  "get_tx_with_height c t =
     rbind (rpc (get_raw_transaction_info c t)) (\<lambda>info.
     rbind (ok_or (ri_transaction info) RpcError) (\<lambda>tx.
     Inr (tx, case (ri_confirmations info, get_block_count c) of
                (Some confs, Inr n) \<Rightarrow>
                  if confs > 0 then Some (sat_add (sat_sub (ucast n) confs) 1) else None
              | _ \<Rightarrow> None)))"

text \<open>\<open>f64::round\<close> on a non-negative number: half away from zero.\<close>

definition f64_round :: "rat \<Rightarrow> rat" where
  "f64_round r = of_int \<lfloor>r + 1 / 2\<rfloor>"

definition scan_entry :: "UnspentEntry \<Rightarrow> (Anyhow, NodeUtxo) result" where
  "scan_entry u =
     rbind (ok_or (ue_txid u) MissingTxid) (\<lambda>t.
     rbind (ok_or (ue_vout u) MissingVout) (\<lambda>v.
     rbind (ok_or (ue_amount u) ScanFailed) (\<lambda>amount_btc.
     Inr \<lparr> nu_txid = t, nu_vout = ucast v,
           nu_value_sat = f64_as_u64 (f64_round (fl (amount_btc * 100000000))),
           nu_block_height = map_option ucast (ue_height u) \<rparr>)))"

definition scan_address_utxos :: "NodeRpc \<Rightarrow> string \<Rightarrow> (Anyhow, NodeUtxo list) result" where
  "scan_address_utxos c addr =
     rbind (rpc (scantxoutset c (''addr('' @ addr @ '')''))) (\<lambda>result.
     if sr_success result \<noteq> Some True then Inl ScanFailed
     else rbind (ok_or (sr_unspents result) ScanFailed) (\<lambda>unspents.
       rfold (\<lambda>u out. rbind (scan_entry u) (\<lambda>e. Inr (out @ [e]))) unspents []))"

definition advance_of :: "ext \<Rightarrow> u32 \<Rightarrow> OutPoint \<Rightarrow> Transaction \<Rightarrow> (Anyhow, ChainAdvance) result" where
  "advance_of x h current_anchor tx =
     (if length (tx_outputs tx) < 2 then Inl (TooFewOutputs (tx_id tx) (length (tx_outputs tx)))
      else
        rbind (map_err (BadOpReturn (tx_id tx)) (try_from_script x (fst (tx_outputs tx ! 0)))) (\<lambda>a.
        rbind (ok_or a (NotAttestation (tx_id tx))) (\<lambda>att.
        Inr \<lparr> ca_attestation = att, ca_l1_height = h, ca_txid = tx_id tx,
              ca_spent_anchor = current_anchor, ca_new_anchor = OutPoint (tx_id tx) 1 \<rparr>)))"

definition scan_block_for_chain_advance ::
    "ext \<Rightarrow> NodeRpc \<Rightarrow> u32 \<Rightarrow> OutPoint \<Rightarrow> (Anyhow, ChainAdvance option) result" where
  "scan_block_for_chain_advance x c h current_anchor =
     rbind (rpc (node_block_hash c (ucast h))) (\<lambda>hash.
     rbind (rpc (node_block c hash)) (\<lambda>txdata.
     (case find (\<lambda>tx. current_anchor \<in> set (tx_inputs tx)) txdata of
        None \<Rightarrow> Inr None
      | Some tx \<Rightarrow> rbind (advance_of x h current_anchor tx) (\<lambda>adv. Inr (Some adv)))))"

section \<open>The L1 view\<close>

definition node_get_output :: "NodeRpc \<Rightarrow> OutPoint \<Rightarrow> L1Output option" where
  "node_get_output c p =
     (case get_tx_out c (txid p) (vout p) of
        Inr (Some result) \<Rightarrow>
          (case get_block_count c of
             Inr n \<Rightarrow>
               let tip = ucast n; confs = txo_confirmations result
               in Some \<lparr> value_sat = txo_value result, script_pubkey = txo_script result,
                         confirmed_height = sat_add (sat_sub tip confs) 1, confirmations = confs \<rparr>
           | Inl _ \<Rightarrow> None)
      | _ \<Rightarrow> None)"

definition node_tip_height :: "NodeRpc \<Rightarrow> u32" where
  "node_tip_height c = (case get_block_count c of Inr n \<Rightarrow> ucast n | Inl _ \<Rightarrow> 0)"

definition node_l1_view :: "NodeRpc \<Rightarrow> L1View" where
  "node_l1_view c = \<lparr> get_output = node_get_output c, tip_height = node_tip_height c \<rparr>"

text \<open>The two daemons read L1 the same way.\<close>

lemma same_view:
  assumes "get_block_count c = get_block_count d" and "get_tx_out c = get_tx_out d"
  shows "node_l1_view c = seq_l1_view d"
proof -
  have "node_get_output c p = seq_get_output d p" for p
    unfolding node_get_output_def seq_get_output_def assms ..
  moreover have "node_tip_height c = seq_tip_height d"
    unfolding node_tip_height_def seq_tip_height_def assms ..
  ultimately show ?thesis unfolding node_l1_view_def seq_l1_view_def by (simp add: fun_eq_iff)
qed

section \<open>The sequencer's blocks\<close>

definition seq_client_get_block :: "Service \<Rightarrow> u32 \<Rightarrow> (Anyhow, L2Block) result" where
  "seq_client_get_block srv height = map_err SeqHttp (srv_block srv height)"

definition seq_client_get_head :: "Service \<Rightarrow> (Anyhow, HeadResponse) result" where
  "seq_client_get_head srv = map_err SeqHttp (srv_head srv)"

lemma seq_client_get_block_ok [simp]: "seq_client_get_block srv h = Inr b \<longleftrightarrow> srv_block srv h = Inr b"
  by (simp add: seq_client_get_block_def)

section \<open>What a scan finds\<close>

lemma advance_of_Inr:
  "advance_of x h a tx = Inr adv \<longleftrightarrow>
     2 \<le> length (tx_outputs tx) \<and>
     (\<exists>att. try_from_script x (fst (tx_outputs tx ! 0)) = Inr (Some att) \<and>
        adv = \<lparr> ca_attestation = att, ca_l1_height = h, ca_txid = tx_id tx,
          ca_spent_anchor = a, ca_new_anchor = OutPoint (tx_id tx) 1 \<rparr>)"
  by (auto simp: advance_of_def rbind_eq_Inr not_less)

lemma scan_block_some:
  "scan_block_for_chain_advance x c h a = Inr (Some adv) \<longleftrightarrow>
     (\<exists>hash txdata tx. node_block_hash c (ucast h) = Inr hash \<and> node_block c hash = Inr txdata \<and>
        find (\<lambda>tx. a \<in> set (tx_inputs tx)) txdata = Some tx \<and> advance_of x h a tx = Inr adv)"
  by (auto simp: scan_block_for_chain_advance_def rbind_eq_Inr split: option.splits)
    (metis option.inject rbind_simps(2))+

lemma scan_block_none:
  "scan_block_for_chain_advance x c h a = Inr None \<longleftrightarrow>
     (\<exists>hash txs. node_block_hash c (ucast h) = Inr hash \<and> node_block c hash = Inr txs \<and>
        (\<forall>tx\<in>set txs. a \<notin> set (tx_inputs tx)))"
  by (auto simp: scan_block_for_chain_advance_def rbind_eq_Inr find_None_iff split: option.splits)

end
