(* ===== verification/Follower.thy ===== *)
theory Follower
  imports NodeL1
begin

text \<open>
  \<open>hodl-node/src/shared.rs\<close>, \<open>follower.rs\<close> and the start-up code of \<open>main.rs\<close>: the node's
  ledger and head, the replay of L2 blocks behind an attestation, the scan of L1 for chain
  advances, and the adoption or resumption of the chain.

  A method of \<open>Follower\<close> is an operation on \<open>FullNode\<close>, the shared state together with the
  store. \<open>bitcoind\<close> and the sequencer are arguments of every operation; within one call they are
  those of that moment (\<open>NodeSystem\<close> lets them change between any two calls). The inner loop of
  \<open>tick\<close> need not end, so it is a partial function and a tick that never returns is \<open>None\<close>.
\<close>

record NodeHead =
  nh_height :: u32
  nh_block_hash :: H256
  nh_state_root :: H256
  nh_l1_height :: u32

record FullNode =
  fn_state :: LedgerState
  fn_head :: NodeHead
  fn_store :: NodeStore

definition node_new :: "LedgerState \<Rightarrow> NodeHead \<Rightarrow> NodeStore \<Rightarrow> FullNode" where
  "node_new st h s = \<lparr> fn_state = st, fn_head = h, fn_store = s \<rparr>"

definition node_write :: "(NodeStore \<Rightarrow> (Anyhow, NodeStore) result) \<Rightarrow> (FullNode, unit) op" where
  "node_write f = op_write (\<lambda>q. rbind (f (fn_store q)) (\<lambda>s. Inr (q\<lparr>fn_store := s\<rparr>)))"

definition node_read :: "(NodeStore \<Rightarrow> (Anyhow, 'a) result) \<Rightarrow> (FullNode, 'a) op" where
  "node_read f = op_result (\<lambda>q. f (fn_store q))"

definition node_head_of :: "ext \<Rightarrow> L2Block \<Rightarrow> NodeHead" where
  "node_head_of x block = \<lparr> nh_height = bh_height (header block), nh_block_hash = L2Block_hash x block,
     nh_state_root = bh_state_root (header block), nh_l1_height = L2BlockHeader.l1_height (header block) \<rparr>"

section \<open>One block\<close>

definition validate_block :: "ext \<Rightarrow> L2Block \<Rightarrow> Attestation \<Rightarrow> (Anyhow, unit) result" where
  "validate_block x block att =
     (if bh_height (header block) \<noteq> att_height att
      then Inl (AttestationHeight (bh_height (header block)) (att_height att))
      else let computed_hash = L2Block_hash x block
      in if computed_hash \<noteq> att_block_hash att then Inl (AttestationHash computed_hash (att_block_hash att))
      else if bh_state_root (header block) \<noteq> att_state_root att
      then Inl (AttestationRoot (bh_state_root (header block)) (att_state_root att))
      else let computed_txs_root = compute_txs_root x (txs block)
      in if computed_txs_root \<noteq> txs_root (header block)
         then Inl (TxsRootMismatch (bh_height (header block)) computed_txs_root (txs_root (header block)))
         else Inr ())"

text \<open>The two loops over the block's transactions: every mint against L1, then the replay.\<close>

definition verify_entries :: "ext \<Rightarrow> L1View \<Rightarrow> u32 \<Rightarrow> L2Tx list \<Rightarrow> (Anyhow, unit) result" where
  "verify_entries x l1 height ts =
     rall (\<lambda>(i, tx). case tx of
       Mint entry \<Rightarrow> map_err (InvalidEntry i height) (verify_mint_entry x l1 entry)
     | Transfer _ \<Rightarrow> Inr ()) (enumerate 0 ts)"

definition replay_block :: "ext \<Rightarrow> u32 \<Rightarrow> L2Tx list \<Rightarrow> LedgerState \<Rightarrow> (Anyhow, LedgerState) result" where
  "replay_block x height ts prior_state =
     rfold (\<lambda>tx next_state. map_err (InvalidTx height) (apply_tx x tx next_state)) ts prior_state"

definition apply_one_l2_block ::
    "ext \<Rightarrow> NodeRpc \<Rightarrow> Service \<Rightarrow> u32 \<Rightarrow> Attestation option \<Rightarrow> (FullNode, unit) op" where
  "apply_one_l2_block x c srv height end_attestation =
     op_bind (op_result (\<lambda>_. seq_client_get_block srv height)) (\<lambda>block.
     if bh_height (header block) \<noteq> height
     then op_result (\<lambda>_. Inl (WrongHeight (bh_height (header block)) height))
     else
       op_bind (op_result (\<lambda>_. case end_attestation of
           Some att \<Rightarrow> validate_block x block att | None \<Rightarrow> Inr ())) (\<lambda>_.
       op_bind (op_result (\<lambda>_. verify_entries x (node_l1_view c) height (txs block))) (\<lambda>_.
       op_bind (op_gets fn_state) (\<lambda>prior_state.
       op_bind (op_result (\<lambda>_. replay_block x height (txs block) prior_state)) (\<lambda>next_state.
       let computed_state_root = state_root x next_state
       in if computed_state_root \<noteq> bh_state_root (header block)
          then op_result (\<lambda>_. Inl (StateRootMismatch height computed_state_root (bh_state_root (header block))))
          else
            op_bind (op_gets (\<lambda>q. nh_block_hash (fn_head q))) (\<lambda>prev.
            if prev_hash (header block) \<noteq> prev
            then op_result (\<lambda>_. Inl (PrevHashMismatch height (prev_hash (header block)) prev))
            else
              let new_head = \<lparr> nh_height = height, nh_block_hash = L2Block_hash x block,
                    nh_state_root = bh_state_root (header block),
                    nh_l1_height = L2BlockHeader.l1_height (header block) \<rparr>;
                  w = BlockWitness_build x prior_state (txs block) height
              in op_bind (op_modify (\<lambda>q. q\<lparr>fn_state := next_state\<rparr>)) (\<lambda>_.
                 op_bind (op_gets fn_state) (\<lambda>st.
                 op_bind (node_write (\<lambda>s. node_write_block_and_state s block st w)) (\<lambda>_.
                 op_modify (\<lambda>q. q\<lparr>fn_head := new_head\<rparr>))))))))))"

section \<open>One attestation\<close>

definition process_advance :: "ext \<Rightarrow> NodeRpc \<Rightarrow> Service \<Rightarrow> ChainAdvance \<Rightarrow> (FullNode, unit) op" where
  "process_advance x c srv adv =
     (let att = ca_attestation adv
      in op_bind (op_gets (\<lambda>q. nh_height (fn_head q))) (\<lambda>head_height.
         if att_height att \<le> head_height then op_return ()
         else
           op_bind (op_iter (\<lambda>h. apply_one_l2_block x c srv h (if h = att_height att then Some att else None))
             (heights (head_height + 1) (att_height att))) (\<lambda>_.
           op_bind (node_write (\<lambda>s. node_set_anchor x s (ca_new_anchor adv))) (\<lambda>_.
           node_write (\<lambda>s. record_anchor_spend x s (ca_spent_anchor adv) (ca_txid adv) (ca_l1_height adv))))))"

section \<open>The scan of L1\<close>

text \<open>One round of the inner loop: whether the block had an advance.\<close>

definition scan_round :: "ext \<Rightarrow> NodeRpc \<Rightarrow> Service \<Rightarrow> u32 \<Rightarrow> (FullNode, bool) op" where
  "scan_round x c srv h =
     op_bind (node_read (\<lambda>s. rbind (node_get_anchor x s) (\<lambda>a. ok_or a NoAnchor))) (\<lambda>current_anchor.
     op_bind (op_result (\<lambda>_. scan_block_for_chain_advance x c h current_anchor)) (\<lambda>advance.
     case advance of
       Some adv \<Rightarrow> op_bind (process_advance x c srv adv) (\<lambda>_. op_return True)
     | None \<Rightarrow> op_return False))"

partial_function (option) scan_block ::
    "ext \<Rightarrow> NodeRpc \<Rightarrow> Service \<Rightarrow> u32 \<Rightarrow> FullNode \<Rightarrow> ((Anyhow, unit) result \<times> FullNode) option" where
  "scan_block x c srv h q =
     (case scan_round x c srv h q of
        (Inl e, q') \<Rightarrow> Some (Inl e, q')
      | (Inr again, q') \<Rightarrow> if again then scan_block x c srv h q' else Some (Inr (), q'))"

fun scan_range ::
    "ext \<Rightarrow> NodeRpc \<Rightarrow> Service \<Rightarrow> u32 list \<Rightarrow> FullNode \<Rightarrow> ((Anyhow, unit) result \<times> FullNode) option" where
  "scan_range x c srv [] q = Some (Inr (), q)"
| "scan_range x c srv (h # hs) q =
     (case scan_block x c srv h q of
        None \<Rightarrow> None
      | Some (Inl e, q') \<Rightarrow> Some (Inl e, q')
      | Some (Inr _, q') \<Rightarrow>
          (case node_write (\<lambda>s. node_set_l1_cursor s h) q' of
             (Inl e, q'') \<Rightarrow> Some (Inl e, q'')
           | (Inr _, q'') \<Rightarrow> scan_range x c srv hs q''))"

definition follower_tick ::
    "ext \<Rightarrow> NodeRpc \<Rightarrow> Service \<Rightarrow> FullNode \<Rightarrow> ((Anyhow, unit) result \<times> FullNode) option" where
  "follower_tick x c srv q =
     (case node_block_count c of
        Inl e \<Rightarrow> Some (Inl e, q)
      | Inr tip \<Rightarrow>
          (case node_l1_cursor (fn_store q) of
             Inl e \<Rightarrow> Some (Inl e, q)
           | Inr cur \<Rightarrow>
               let cursor = (case cur of Some h \<Rightarrow> h | None \<Rightarrow> 0)
               in if tip \<le> cursor then Some (Inr (), q)
                  else scan_range x c srv (heights (cursor + 1) tip) q))"

section \<open>Start-up\<close>

definition node_resume :: "ext \<Rightarrow> u32 \<Rightarrow> LedgerState \<Rightarrow> NodeStore \<Rightarrow> (Anyhow, LedgerState \<times> NodeHead) result" where
  "node_resume x height st s =
     rbind (node_get_block s height) (\<lambda>b.
     rbind (ok_or b (InconsistentSnapshot height)) (\<lambda>block.
     rbind (node_l1_cursor s) (\<lambda>_.
     Inr (st, node_head_of x block))))"

text \<open>The checks on the genesis block that the sequencer serves.\<close>

definition check_genesis :: "ext \<Rightarrow> u32 \<Rightarrow> L2Block \<Rightarrow> (Anyhow, LedgerState \<times> OutPoint) result" where
  "check_genesis x l1_genesis_height gen =
     (let h = header gen
      in if bh_height h \<noteq> 0 then Inl NotGenesis
         else if L2BlockHeader.l1_height h \<noteq> l1_genesis_height
         then Inl (GenesisHeight (L2BlockHeader.l1_height h) l1_genesis_height)
         else
           let st = LedgerState_new\<lparr>sequencer_fee_address := bh_fee_address h\<rparr>
           in if state_root x st \<noteq> bh_state_root h
              then Inl (GenesisRoot (state_root x st) (bh_state_root h))
              else rbind (ok_or (anchor_outpoint h) GenesisAnchor) (\<lambda>a. Inr (st, a)))"

definition node_cold_start ::
    "ext \<Rightarrow> u32 \<Rightarrow> Service \<Rightarrow> (NodeStore, LedgerState \<times> NodeHead) op" where
  "node_cold_start x l1_genesis_height srv =
     op_bind (op_result (\<lambda>_. seq_client_get_block srv 0)) (\<lambda>gen.
     op_bind (op_result (\<lambda>_. check_genesis x l1_genesis_height gen)) (\<lambda>(st, anchor_0).
     let w = BlockWitness_build x st (txs gen) 0
     in op_bind (op_write (\<lambda>s. node_write_block_and_state s gen st w)) (\<lambda>_.
        op_bind (op_write (\<lambda>s. node_set_l1_cursor s l1_genesis_height)) (\<lambda>_.
        op_bind (op_write (\<lambda>s. node_set_anchor x s anchor_0)) (\<lambda>_.
        op_return (st, \<lparr> nh_height = 0, nh_block_hash = L2Block_hash x gen,
          nh_state_root = bh_state_root (header gen),
          nh_l1_height = L2BlockHeader.l1_height (header gen) \<rparr>))))))"

definition node_bootstrap ::
    "ext \<Rightarrow> u32 \<Rightarrow> Service \<Rightarrow> (NodeStore, LedgerState \<times> NodeHead) op" where
  "node_bootstrap x l1_genesis_height srv =
     op_bind (op_result node_load_latest_state) (\<lambda>snapshot. case snapshot of
       Some (height, st) \<Rightarrow> op_result (node_resume x height st)
     | None \<Rightarrow> node_cold_start x l1_genesis_height srv)"

end
