(* ===== verification/FollowerCorrect.thy ===== *)
theory FollowerCorrect
  imports Follower
begin

text \<open>
  What the follower guarantees. \<open>accepts\<close> collects the checks of \<open>apply_one_l2_block\<close>; a block
  that passes them extends the chain, so the store keeps mirroring an L2 chain whose ledger
  and head are in memory (\<open>node_inv\<close>), whatever the sequencer serves. Conversely an honest
  chain behind a valid attestation is followed to its end.
\<close>

section \<open>The checks of one block\<close>

lemma verify_entries_ok: "verify_entries x l1 h ts = Inr () \<longleftrightarrow> mints_ok x l1 ts"
proof -
  have "rall (\<lambda>(i, tx). case tx of Mint entry \<Rightarrow> map_err (InvalidEntry i h) (verify_mint_entry x l1 entry)
      | Transfer _ \<Rightarrow> Inr ()) (enumerate n ts) = Inr () \<longleftrightarrow> mints_ok x l1 ts" for n
    by (induction ts arbitrary: n) (auto simp: rbind_eq_Inr split: L2Tx.split)
  then show ?thesis by (simp add: verify_entries_def)
qed

lemma replay_block_ok: "replay_block x h ts S = Inr S' \<longleftrightarrow> apply_txs x ts S = Inr S'"
  by (induction ts arbitrary: S) (auto simp: replay_block_def rbind_eq_Inr)

definition accepts ::
    "ext \<Rightarrow> NodeRpc \<Rightarrow> Service \<Rightarrow> u32 \<Rightarrow> Attestation option \<Rightarrow> FullNode \<Rightarrow> L2Block \<Rightarrow> LedgerState \<Rightarrow> bool" where
  "accepts x c srv h a q b S' \<longleftrightarrow> srv_block srv h = Inr b \<and> bh_height (header b) = h \<and>
     (\<forall>att. a = Some att \<longrightarrow> validate_block x b att = Inr ()) \<and> mints_ok x (node_l1_view c) (txs b) \<and>
     apply_txs x (txs b) (fn_state q) = Inr S' \<and> bh_state_root (header b) = state_root x S' \<and>
     Block.prev_hash (header b) = nh_block_hash (fn_head q)"

lemma node_write_eq:
  "node_write f q = (case f (fn_store q) of Inl e \<Rightarrow> (Inl e, q) | Inr s \<Rightarrow> (Inr (), q\<lparr>fn_store := s\<rparr>))"
  by (auto simp: node_write_def op_write_def split: sum.split)

lemma node_read_eq: "node_read f q = (f (fn_store q), q)"
  by (simp add: node_read_def op_result_def)

lemma apply_one_accepted:
  assumes "accepts x c srv h a q b S'"
  shows "apply_one_l2_block x c srv h a q =
    (case node_write_block_and_state (fn_store q) b S' (BlockWitness_build x (fn_state q) (txs b) h) of
       Inl e \<Rightarrow> (Inl e, q\<lparr>fn_state := S'\<rparr>)
     | Inr s \<Rightarrow> (Inr (), q\<lparr>fn_state := S', fn_store := s, fn_head := node_head_of x b\<rparr>))"
proof -
  have "(case a of None \<Rightarrow> Inr () | Some att \<Rightarrow> validate_block x b att) = Inr ()"
    using assms by (auto simp: accepts_def split: option.split)
  moreover have "verify_entries x (node_l1_view c) h (txs b) = Inr ()" "replay_block x h (txs b) (fn_state q) = Inr S'"
    using assms by (simp_all add: accepts_def verify_entries_ok replay_block_ok)
  ultimately show ?thesis
    using assms unfolding apply_one_l2_block_def
    by (auto simp: accepts_def op_bind_def op_result_def seq_client_get_block_def node_write_eq Let_def
        node_head_of_def split: sum.split)
qed

lemma apply_one_refused:
  assumes "\<nexists>b S'. accepts x c srv h a q b S'"
  shows "\<exists>e. apply_one_l2_block x c srv h a q = (Inl e, q)"
proof (rule ccontr)
  assume no: "\<nexists>e. apply_one_l2_block x c srv h a q = (Inl e, q)"
  note b = apply_one_l2_block_def op_bind_def op_result_def
  obtain b where b1: "seq_client_get_block srv h = Inr b"
    using no by (cases "seq_client_get_block srv h") (auto simp: b)
  have b2: "bh_height (header b) = h" using no by (rule_tac ccontr) (auto simp: b b1)
  have b3: "(case a of None \<Rightarrow> Inr () | Some att \<Rightarrow> validate_block x b att) = Inr ()"
    using no by (cases "case a of None \<Rightarrow> Inr () | Some att \<Rightarrow> validate_block x b att") (auto simp: b b1 b2)
  have b4: "verify_entries x (node_l1_view c) h (txs b) = Inr ()"
    using no by (cases "verify_entries x (node_l1_view c) h (txs b)") (auto simp: b b1 b2 b3)
  obtain S' where b5: "replay_block x h (txs b) (fn_state q) = Inr S'"
    using no by (cases "replay_block x h (txs b) (fn_state q)") (auto simp: b b1 b2 b3 b4)
  have b6: "state_root x S' = bh_state_root (header b)"
    using no by (rule_tac ccontr) (auto simp: b b1 b2 b3 b4 b5 Let_def)
  have b7: "Block.prev_hash (header b) = nh_block_hash (fn_head q)"
    using no by (rule_tac ccontr) (auto simp: b b1 b2 b3 b4 b5 b6 Let_def)
  have "accepts x c srv h a q b S'"
    using b1 b2 b3 b4 b5 b6 b7 by (auto simp: accepts_def verify_entries_ok replay_block_ok)
  with assms show False by blast
qed

lemma node_head_of_simps [simp]:
  "nh_height (node_head_of x b) = bh_height (header b)" "nh_block_hash (node_head_of x b) = L2Block_hash x b"
  "nh_state_root (node_head_of x b) = bh_state_root (header b)"
  "nh_l1_height (node_head_of x b) = L2BlockHeader.l1_height (header b)"
  by (simp_all add: node_head_of_def)

section \<open>The invariant\<close>

definition node_inv :: "ext \<Rightarrow> FullNode \<Rightarrow> L2Block list \<Rightarrow> bool" where
  "node_inv x q bs \<longleftrightarrow>
     node_ready.holds x (fn_store q) bs (fn_state q) \<and> fn_head q = node_head_of x (last bs)"

text \<open>Every block after genesis was checked against L1 when it came in.\<close>

definition backed :: "ext \<Rightarrow> L2Block list \<Rightarrow> bool" where
  "backed x bs \<longleftrightarrow> (\<forall>b\<in>set (tl bs). \<exists>c. mints_ok x (node_l1_view c) (txs b))"

lemma backed_snoc: "backed x bs \<Longrightarrow> mints_ok x (node_l1_view c) (txs b) \<Longrightarrow> backed x (bs @ [b])"
  by (cases bs) (auto simp: backed_def)

lemma node_inv_chain: "node_inv x q bs \<Longrightarrow> l2_chain x bs (fn_state q)"
  by (simp add: node_inv_def node_ready.holds_def)

lemma node_inv_mirrors: "node_inv x q bs \<Longrightarrow> node_db.mirrors (fn_store q) bs (fn_state q)"
  by (simp add: node_inv_def node_ready.holds_def)

lemma node_inv_length: "node_inv x q bs \<Longrightarrow> bs \<noteq> [] \<and> length bs \<le> 2 ^ 32"
  using node_inv_mirrors by (simp add: node_db.mirrors_def)

lemma node_inv_height:
  assumes "node_inv x q bs"
  shows "unat (nh_height (fn_head q)) = length bs - 1"
proof -
  have bs: "bs \<noteq> []" "length bs \<le> 2 ^ 32" using node_inv_length [OF assms] by simp_all
  then have "unat (bh_height (header (bs ! (length bs - 1)))) = length bs - 1"
    by (intro chain_heights [OF node_inv_chain [OF assms]]) simp_all
  then show ?thesis using assms bs(1) by (simp add: node_inv_def last_conv_nth)
qed

lemma apply_one_extends:
  assumes inv: "node_inv x q bs" and h: "unat h = length bs" and acc: "accepts x c srv h a q b S'"
  shows "\<exists>q'. apply_one_l2_block x c srv h a q = (Inr (), q') \<and> node_inv x q' (bs @ [b])"
proof -
  have len: "length bs < 2 ^ 32" using h unat_less_2p [of h] by simp
  have ne: "bs \<noteq> []" using node_inv_length [OF inv] by simp
  have "unat (nh_height (fn_head q) + 1) = length bs"
    using node_inv_height [OF inv] ne len unat_add_small [of "nh_height (fn_head q)" 1] by (cases bs) auto
  then have "h = nh_height (fn_head q) + 1" using h by (metis word_unat_eq_iff)
  then have "extends x (last bs) (fn_state q) b S'"
    using acc inv by (simp add: accepts_def extends_def node_inv_def)
  from node_ready.holds_extend [OF _ this len] inv obtain s where
    "node_write_block_and_state (fn_store q) b S' (BlockWitness_build x (fn_state q) (txs b) h) = Inr s"
    "node_ready.holds x s (bs @ [b]) S'"
    using acc by (auto simp: node_inv_def accepts_def)
  then show ?thesis
    using apply_one_accepted [OF acc] by (auto simp: node_inv_def)
qed

lemma apply_one_step:
  assumes "node_inv x q bs" and "unat h = length bs"
  shows "(\<exists>e. apply_one_l2_block x c srv h a q = (Inl e, q)) \<or>
    (\<exists>q' b S'. apply_one_l2_block x c srv h a q = (Inr (), q') \<and> node_inv x q' (bs @ [b]) \<and>
       accepts x c srv h a q b S')"
  using apply_one_extends [OF assms] apply_one_refused by meson

lemma node_inv_write:
  assumes "node_inv x q bs"
  shows "\<exists>s. node_write (\<lambda>s. node_kv_put s k v) q = (Inr (), q\<lparr>fn_store := s\<rparr>) \<and>
    node_kv_put (fn_store q) k v = Inr s \<and> node_inv x (q\<lparr>fn_store := s\<rparr>) bs"
  using assms node_ready.holds_put [of x "fn_store q" bs "fn_state q" k v]
  by (auto simp: node_inv_def node_write_eq)

lemma node_inv_spend:
  assumes "node_inv x q bs"
  shows "\<exists>s. node_write (\<lambda>s. record_anchor_spend x s p t h) q = (Inr (), q\<lparr>fn_store := s\<rparr>) \<and>
    record_anchor_spend x (fn_store q) p t h = Inr s \<and> node_inv x (q\<lparr>fn_store := s\<rparr>) bs"
proof -
  define s where "s = (fn_store q)\<lparr>nd_spends := fmupd (txid_to_string x (txid p), vout p)
      (txid_to_string x t, h) (nd_spends (fn_store q))\<rparr>"
  have r: "record_anchor_spend x (fn_store q) p t h = Inr s"
    using assms by (simp add: s_def record_anchor_spend_def node_inv_def node_ready.holds_def node_healthy_def)
  have "node_ready.holds x s bs (fn_state q)"
    using assms by (simp add: node_inv_def node_ready.holds_def node_ready.witnessed_def node_db.mirrors_def
        node_healthy_def s_def node_get_block_def node_load_latest_state_def node_get_witness_def)
  then show ?thesis using r assms by (auto simp: node_inv_def node_write_eq)
qed

section \<open>A range of blocks\<close>

definition follow_one :: "ext \<Rightarrow> NodeRpc \<Rightarrow> Service \<Rightarrow> Attestation \<Rightarrow> u32 \<Rightarrow> (FullNode, unit) op" where
  "follow_one x c srv att h = apply_one_l2_block x c srv h (if h = att_height att then Some att else None)"

lemma process_advance_eq:
  "process_advance x c srv adv =
     op_bind (op_gets (\<lambda>q. nh_height (fn_head q))) (\<lambda>a.
     if att_height (ca_attestation adv) \<le> a then op_return ()
     else
       op_bind (op_iter (follow_one x c srv (ca_attestation adv)) (blocks_above a (att_height (ca_attestation adv)))) (\<lambda>_.
       op_bind (node_write (\<lambda>s. node_set_anchor x s (ca_new_anchor adv))) (\<lambda>_.
       node_write (\<lambda>s. record_anchor_spend x s (ca_spent_anchor adv) (ca_txid adv) (ca_l1_height adv)))))"
  unfolding process_advance_def Let_def
  by (rule arg_cong2 [of _ _ _ _ op_bind, OF refl])
    (auto simp: fun_eq_iff heights_above not_le follow_one_def [abs_def])

lemma blocks_above_Nil: "a \<le> t \<Longrightarrow> blocks_above a t = [] \<Longrightarrow> a = t"
  using length_blocks_above [of a t] by (simp add: word_le_nat_alt word_unat_eq_iff)

text \<open>Blocks do not touch the anchor or the recorded spends.\<close>

definition same_anchor :: "ext \<Rightarrow> FullNode \<Rightarrow> FullNode \<Rightarrow> bool" where
  "same_anchor x q q' \<longleftrightarrow> node_get_anchor x (fn_store q') = node_get_anchor x (fn_store q) \<and>
     node_l1_cursor (fn_store q') = node_l1_cursor (fn_store q) \<and>
     nd_spends (fn_store q') = nd_spends (fn_store q) \<and> nd_fault (fn_store q') = nd_fault (fn_store q)"

lemma same_anchor_refl [simp]: "same_anchor x q q"
  and same_anchor_trans: "same_anchor x q r \<Longrightarrow> same_anchor x r s \<Longrightarrow> same_anchor x q s"
  by (simp_all add: same_anchor_def)

lemma same_anchor_apply: "same_anchor x q (snd (apply_one_l2_block x c srv h a q))"
proof (cases "\<exists>b S'. accepts x c srv h a q b S'")
  case False
  from apply_one_refused [OF this] show ?thesis by auto
next
  case True
  then obtain b S' where "accepts x c srv h a q b S'" by blast
  from apply_one_accepted [OF this] show ?thesis
    by (auto simp: same_anchor_def node_get_anchor_def node_l1_cursor_def node_kv_get_def
        node_write_block_and_state_def Let_def split: sum.splits if_splits)
qed

lemma same_anchor_iter: "same_anchor x q (snd (op_iter (follow_one x c srv att) hs q))"
proof (induction hs arbitrary: q)
  case (Cons h hs)
  obtain r q1 where q1: "follow_one x c srv att h q = (r, q1)" by fastforce
  then have "same_anchor x q q1"
    using same_anchor_apply [of x q c srv h] unfolding follow_one_def by (metis snd_conv)
  moreover have "same_anchor x q1 (snd (op_iter (follow_one x c srv att) hs q1))" by (rule Cons.IH)
  ultimately show ?case using q1 by (cases r) (auto simp: op_bind_def intro: same_anchor_trans)
qed simp

text \<open>A successful range ends at its last height, in any database.\<close>

lemma apply_one_height: "apply_one_l2_block x c srv h a q = (Inr (), q') \<Longrightarrow> nh_height (fn_head q') = h"
proof -
  assume ok: "apply_one_l2_block x c srv h a q = (Inr (), q')"
  then obtain b S' where acc: "accepts x c srv h a q b S'"
    using apply_one_refused [of x c srv h a q] by fastforce
  from ok show ?thesis unfolding apply_one_accepted [OF acc]
    using acc by (auto simp: accepts_def split: sum.splits)
qed

lemma follow_iter_height:
  "op_iter (follow_one x c srv att) hs q = (Inr (), q') \<Longrightarrow> hs \<noteq> [] \<Longrightarrow> nh_height (fn_head q') = last hs"
proof (induction hs arbitrary: q)
  case (Cons h hs)
  then obtain q1 where q1: "follow_one x c srv att h q = (Inr (), q1)"
    "op_iter (follow_one x c srv att) hs q1 = (Inr (), q')"
    by (auto simp: op_bind_Inr)
  then have "nh_height (fn_head q1) = h" unfolding follow_one_def by (intro apply_one_height)
  then show ?case using Cons.IH [OF q1(2)] q1(2) by auto
qed simp

text \<open>Whatever the sequencer serves, the loop leaves a node that holds a longer chain or the same,
  and when it gets to its end the last block is the attested one.\<close>

lemma follow_range:
  assumes "node_inv x q bs" and "backed x bs" and "nh_height (fn_head q) \<le> t"
    and "op_iter (follow_one x c srv att) (blocks_above (nh_height (fn_head q)) t) q = (r, q')"
  shows "\<exists>bs'. node_inv x q' (bs @ bs') \<and> backed x (bs @ bs') \<and> same_anchor x q q' \<and>
    (r = Inr () \<longrightarrow> nh_height (fn_head q') = t \<and>
      (t = att_height att \<longrightarrow> nh_height (fn_head q) < t \<longrightarrow> validate_block x (last (bs @ bs')) att = Inr ()))"
  using assms
proof (induction "blocks_above (nh_height (fn_head q)) t" arbitrary: q bs)
  case Nil
  then have "q' = q" "r = Inr ()" "nh_height (fn_head q) = t" using blocks_above_Nil by auto
  then show ?case using Nil by (intro exI [of _ "[]"]) simp
next
  case (Cons h hs)
  let ?a = "nh_height (fn_head q)"
  have less: "?a < t" using Cons.hyps(2) Cons.prems(3) by (cases "?a = t") auto
  then have hs: "h = ?a + 1" "hs = blocks_above (?a + 1) t" using Cons.hyps(2) blocks_above_Cons by auto
  have u: "unat h = length bs"
    using node_inv_height [OF Cons.prems(1)] node_inv_length [OF Cons.prems(1)] unat_plus_1 [OF less] hs(1)
    by (cases bs) auto
  have run: "op_bind (follow_one x c srv att h) (\<lambda>_. op_iter (follow_one x c srv att) hs) q = (r, q')"
    using Cons.prems(4) Cons.hyps(2) [symmetric] by simp
  have anchor: "same_anchor x q (snd (follow_one x c srv att h q))"
    unfolding follow_one_def by (rule same_anchor_apply)
  from apply_one_step [OF Cons.prems(1) u, of c srv "if h = att_height att then Some att else None"]
  consider e where "follow_one x c srv att h q = (Inl e, q)"
    | q1 b S' where "follow_one x c srv att h q = (Inr (), q1)" "node_inv x q1 (bs @ [b])"
      "accepts x c srv h (if h = att_height att then Some att else None) q b S'"
    unfolding follow_one_def by blast
  then show ?case
  proof cases
    case 1
    then show ?thesis using run Cons.prems by (intro exI [of _ "[]"]) (auto simp: op_bind_def)
  next
    case 2
    have head: "nh_height (fn_head q1) = ?a + 1" using 2(2,3) hs(1) by (simp add: node_inv_def accepts_def)
    have le: "nh_height (fn_head q1) \<le> t" unfolding head
      using less unat_plus_1 [OF less] by (simp add: word_le_nat_alt word_less_nat_alt)
    have rest: "op_iter (follow_one x c srv att) (blocks_above (nh_height (fn_head q1)) t) q1 = (r, q')"
      using run 2(1) hs(2) head by (simp add: op_bind_def)
    have bk: "backed x (bs @ [b])" using Cons.prems(2) 2(3) backed_snoc by (auto simp: accepts_def)
    obtain bs' where bs': "node_inv x q' ((bs @ [b]) @ bs')" "backed x ((bs @ [b]) @ bs')" "same_anchor x q1 q'"
      "r = Inr () \<longrightarrow> nh_height (fn_head q') = t \<and> (t = att_height att \<longrightarrow> nh_height (fn_head q1) < t \<longrightarrow>
         validate_block x (last ((bs @ [b]) @ bs')) att = Inr ())"
      using Cons.hyps(1) [OF _ 2(2) bk le rest] hs(2) head by auto
    have last: "validate_block x (last ((bs @ [b]) @ bs')) att = Inr ()"
      if "r = Inr ()" "t = att_height att"
    proof (cases "nh_height (fn_head q1) < t")
      case False
      then have eq: "nh_height (fn_head q1) = t" using le by simp
      then have "blocks_above (nh_height (fn_head q1)) t = []" by simp
      then have "q' = q1" using rest by simp
      then have "length ((bs @ [b]) @ bs') = length (bs @ [b])"
        using node_inv_height [OF bs'(1)] node_inv_height [OF 2(2)] by simp
      moreover have "h = att_height att" using eq head hs(1) that(2) by simp
      ultimately show ?thesis using 2(3) by (simp add: accepts_def)
    qed (use bs'(4) that in auto)
    have "same_anchor x q q'" using anchor 2(1) bs'(3) by (auto intro: same_anchor_trans)
    then show ?thesis using bs' last by (intro exI [of _ "b # bs'"]) auto
  qed
qed

lemma unat_u32: "k < 2 ^ 32 \<Longrightarrow> unat (of_nat k :: u32) = k"
  by (simp add: unat_of_nat take_bit_nat_eq_self)

text \<open>And an honest range is followed to its end.\<close>

lemma follow_honest:
  assumes "l2_chain x cs T" and "length cs \<le> 2 ^ 32" and "k \<le> n" and "0 < k" and "n \<le> length cs"
    and "node_inv x q (take k cs)" and "t = of_nat (n - 1)"
    and "\<And>i. k \<le> i \<Longrightarrow> i < n \<Longrightarrow> srv_block srv (of_nat i) = Inr (cs ! i) \<and> mints_ok x (node_l1_view c) (txs (cs ! i))"
    and "t = att_height att" and "k < n \<Longrightarrow> validate_block x (cs ! (n - 1)) att = Inr ()"
  shows "\<exists>q'. op_iter (follow_one x c srv att) (blocks_above (nh_height (fn_head q)) t) q = (Inr (), q') \<and>
    node_inv x q' (take n cs) \<and> same_anchor x q q'"
  using assms
proof (induction "n - k" arbitrary: k q)
  case 0
  then have kn: "k = n" by simp
  have "unat (nh_height (fn_head q)) = n - 1" using node_inv_height [OF "0.prems"(6)] 0 kn by simp
  moreover have "unat t = n - 1" unfolding \<open>t = of_nat (n - 1)\<close>
    by (rule unat_u32) (use 0 in simp)
  ultimately have "blocks_above (nh_height (fn_head q)) t = []" by (simp add: blocks_above_def)
  then show ?case using "0.prems" kn by simp
next
  case (Suc m)
  let ?a = "nh_height (fn_head q)" and ?b = "cs ! k"
  have kn: "k < n" "k < length cs" "n \<le> 2 ^ 32" using Suc by simp_all
  have ua: "unat ?a = k - 1" using node_inv_height [OF Suc.prems(6)] kn by simp
  have ut: "unat t = n - 1" unfolding \<open>t = of_nat (n - 1)\<close>
    by (rule unat_u32) (use kn in simp)
  have less: "?a < t" using ua ut kn Suc.prems(4) by (simp add: word_less_nat_alt)
  have uk: "unat (of_nat k :: u32) = k" by (rule unat_u32) (use kn in simp)
  have ak: "?a + 1 = of_nat k" using unat_plus_1 [OF less] ua uk Suc.prems(4) by (simp add: word_unat_eq_iff)
  obtain S S' where S: "l2_chain x (take k cs) S" "extends x (cs ! (k - 1)) S ?b S'" "l2_chain x (take (Suc k) cs) S'"
    using chain_step [OF Suc.prems(1,4) kn(2)] by blast
  have st: "fn_state q = S" using chain_fun [OF node_inv_chain [OF Suc.prems(6)] S(1)] .
  have last: "last (take k cs) = cs ! (k - 1)" using kn Suc.prems(4) by (subst last_conv_nth) auto
  let ?att = "if of_nat k = att_height att then Some att else None"
  have end_ok: "validate_block x ?b att = Inr ()" if "of_nat k = att_height att"
  proof -
    have "k = n - 1" using that \<open>t = att_height att\<close> uk ut by simp
    then show ?thesis using Suc.prems(10) kn by simp
  qed
  have served: "srv_block srv (of_nat k) = Inr ?b" "mints_ok x (node_l1_view c) (txs ?b)"
    using Suc.prems(8) [of k] kn by simp_all
  have bh: "bh_height (header ?b) = of_nat k"
    using chain_heights [OF Suc.prems(1,2) kn(2)] uk by (simp add: word_unat_eq_iff)
  have acc: "accepts x c srv (of_nat k) ?att q ?b S'"
    using S(2) st served bh end_ok Suc.prems(6) last by (simp add: accepts_def extends_def node_inv_def)
  have take: "take k cs @ [?b] = take (Suc k) cs" using kn by (simp add: take_Suc_conv_app_nth)
  obtain q1 where q1: "follow_one x c srv att (of_nat k) q = (Inr (), q1)" "node_inv x q1 (take (Suc k) cs)"
    using apply_one_extends [OF Suc.prems(6) _ acc] uk kn unfolding take follow_one_def by auto
  have head: "nh_height (fn_head q1) = of_nat k"
    using node_inv_height [OF q1(2)] uk kn by (simp add: word_unat_eq_iff)
  have anchor: "same_anchor x q q1"
    using same_anchor_apply [of x q c srv "of_nat k" ?att] q1(1) by (simp add: follow_one_def)
  have "m = n - Suc k" "Suc k \<le> n" "0 < Suc k" using Suc.hyps(2) kn by simp_all
  from Suc.hyps(1) [OF this(1) Suc.prems(1,2) this(2,3) Suc.prems(5) q1(2) Suc.prems(7) _ Suc.prems(9)]
  obtain q' where q': "op_iter (follow_one x c srv att) (blocks_above (nh_height (fn_head q1)) t) q1 = (Inr (), q')"
    "node_inv x q' (take n cs)" "same_anchor x q1 q'"
    using Suc.prems(8,10) by auto
  have "blocks_above ?a t = of_nat k # blocks_above (nh_height (fn_head q1)) t"
    using blocks_above_Cons [OF less] ak head by simp
  then show ?case using q1(1) q' anchor same_anchor_trans by (auto simp: op_bind_def)
qed

end
