(* ===== verification/NodeSystem.thy ===== *)
theory NodeSystem
  imports FollowerCorrect
begin

text \<open>
  The node as a whole: its start-up, then rounds of the scan and cursor writes in any order, each
  with whatever \<open>bitcoind\<close> and the sequencer answer at that moment. A tick is such a run. The
  HTTP handlers only read, so they are no steps. \<open>node_inv\<close> holds from the start and every step keeps
  it; the scan of a block that carries an attestation the node has passed already never ends.
\<close>

section \<open>One attestation\<close>

lemma process_advance_skips:
  "att_height (ca_attestation adv) \<le> nh_height (fn_head q) \<Longrightarrow> process_advance x c srv adv q = (Inr (), q)"
  by (simp add: process_advance_eq op_bind_def)

lemma process_advance_inv:
  assumes "node_inv x q bs" and "backed x bs" and "process_advance x c srv adv q = (r, q')"
  shows "\<exists>bs'. node_inv x q' (bs @ bs') \<and> backed x (bs @ bs') \<and>
    (r = Inr () \<longrightarrow> nh_height (fn_head q) < att_height (ca_attestation adv) \<longrightarrow>
       nh_height (fn_head q') = att_height (ca_attestation adv) \<and>
       validate_block x (last (bs @ bs')) (ca_attestation adv) = Inr ())"
proof (cases "att_height (ca_attestation adv) \<le> nh_height (fn_head q)")
  case True
  then show ?thesis using assms process_advance_skips [OF True, of x c srv] by (intro exI [of _ "[]"]) auto
next
  case False
  let ?att = "ca_attestation adv" and ?a = "nh_height (fn_head q)"
  obtain r1 q1 where run: "op_iter (follow_one x c srv ?att) (blocks_above ?a (att_height ?att)) q = (r1, q1)"
    by fastforce
  obtain bs' where bs': "node_inv x q1 (bs @ bs')" "backed x (bs @ bs')"
    "r1 = Inr () \<longrightarrow> nh_height (fn_head q1) = att_height ?att \<and> validate_block x (last (bs @ bs')) ?att = Inr ()"
    using follow_range [OF assms(1,2) _ run] False by (meson not_le order_less_imp_le)
  show ?thesis
  proof (cases r1)
    case (Inl e)
    then have "q' = q1" "r = Inl e" using assms(3) run False by (simp_all add: process_advance_eq op_bind_def)
    then show ?thesis using bs' by blast
  next
    case (Inr u)
    obtain s2 where s2: "node_write (\<lambda>s. node_set_anchor x s (ca_new_anchor adv)) q1 = (Inr (), q1\<lparr>fn_store := s2\<rparr>)"
      "node_inv x (q1\<lparr>fn_store := s2\<rparr>) (bs @ bs')"
      using node_inv_write [OF bs'(1)] unfolding node_set_anchor_def by blast
    obtain s3 where "node_write (\<lambda>s. record_anchor_spend x s (ca_spent_anchor adv) (ca_txid adv) (ca_l1_height adv))
        (q1\<lparr>fn_store := s2\<rparr>) = (Inr (), q1\<lparr>fn_store := s3\<rparr>)" "node_inv x (q1\<lparr>fn_store := s3\<rparr>) (bs @ bs')"
      using node_inv_spend [OF s2(2)] by fastforce
    then show ?thesis using assms(3) run False Inr s2(1) bs'
      by (intro exI [of _ bs']) (auto simp: process_advance_eq op_bind_def)
  qed
qed

lemma process_advance_honest:
  assumes "l2_chain x cs T" and "length cs \<le> 2 ^ 32" and "0 < k" and "k < n" and "n \<le> length cs"
    and "node_inv x q (take k cs)" and "att_height (ca_attestation adv) = of_nat (n - 1)"
    and "\<And>i. k \<le> i \<Longrightarrow> i < n \<Longrightarrow> srv_block srv (of_nat i) = Inr (cs ! i) \<and> mints_ok x (node_l1_view c) (txs (cs ! i))"
    and "validate_block x (cs ! (n - 1)) (ca_attestation adv) = Inr ()"
  shows "\<exists>q'. process_advance x c srv adv q = (Inr (), q') \<and> node_inv x q' (take n cs) \<and>
    node_kv_get (fn_store q') ''anchor'' = Inr (Some (show_outpoint x (ca_new_anchor adv))) \<and>
    nd_spends (fn_store q') = fmupd (txid_to_string x (txid (ca_spent_anchor adv)), vout (ca_spent_anchor adv))
      (txid_to_string x (ca_txid adv), ca_l1_height adv) (nd_spends (fn_store q))"
proof -
  let ?att = "ca_attestation adv" and ?a = "nh_height (fn_head q)"
  have "k \<le> n" using assms(4) by simp
  from follow_honest [OF assms(1,2) this assms(3,5,6) assms(7) assms(8) refl assms(9)]
  obtain q1 where q1: "op_iter (follow_one x c srv ?att) (blocks_above ?a (att_height ?att)) q = (Inr (), q1)"
    "node_inv x q1 (take n cs)" "same_anchor x q q1" by blast
  have "unat ?a = k - 1" using node_inv_height [OF assms(6)] assms(4,5) by simp
  moreover have "unat (att_height ?att) = n - 1" unfolding assms(7) by (rule unat_u32) (use assms(2-5) in simp)
  ultimately have less: "\<not> att_height ?att \<le> ?a" using assms(3,4) by (simp add: word_le_nat_alt)
  obtain s2 where s2: "node_write (\<lambda>s. node_set_anchor x s (ca_new_anchor adv)) q1 = (Inr (), q1\<lparr>fn_store := s2\<rparr>)"
    "node_kv_put (fn_store q1) ''anchor'' (show_outpoint x (ca_new_anchor adv)) = Inr s2"
    "node_inv x (q1\<lparr>fn_store := s2\<rparr>) (take n cs)"
    using node_inv_write [OF q1(2)] unfolding node_set_anchor_def by blast
  obtain s3 where s3: "node_write (\<lambda>s. record_anchor_spend x s (ca_spent_anchor adv) (ca_txid adv) (ca_l1_height adv))
      (q1\<lparr>fn_store := s2\<rparr>) = (Inr (), q1\<lparr>fn_store := s3\<rparr>)" "node_inv x (q1\<lparr>fn_store := s3\<rparr>) (take n cs)"
    "record_anchor_spend x s2 (ca_spent_anchor adv) (ca_txid adv) (ca_l1_height adv) = Inr s3"
    using node_inv_spend [OF s2(3)] by fastforce
  have "nd_spends s2 = nd_spends (fn_store q)" "node_kv_get s3 ''anchor'' = node_kv_get s2 ''anchor''"
    using s2(2) s3(3) q1(3)
    by (auto simp: node_kv_put_def node_kv_get_def record_anchor_spend_def same_anchor_def split: if_splits)
  moreover have "\<exists>v. node_kv_get (fn_store q1) ''anchor'' = Inr v"
    using q1(2) node_ready.ready_get by (simp add: node_inv_def node_ready.holds_def)
  then have "node_kv_get s2 ''anchor'' = Inr (Some (show_outpoint x (ca_new_anchor adv)))"
    using node_kv.put_get [OF s2(2)] by blast
  ultimately show ?thesis
    using q1(1) less s2(1) s3
    by (intro exI [of _ "q1\<lparr>fn_store := s3\<rparr>"])
      (auto simp: process_advance_eq op_bind_def record_anchor_spend_def split: if_splits)
qed

lemma scan_round_inv:
  assumes "node_inv x q bs" and "backed x bs"
  shows "\<exists>bs'. node_inv x (snd (scan_round x c srv h q)) (bs @ bs') \<and> backed x (bs @ bs')"
proof -
  have same: ?thesis if "snd (scan_round x c srv h q) = q"
    using assms that by (intro exI [of _ "[]"]) simp
  show ?thesis
  proof (cases "rbind (node_get_anchor x (fn_store q)) (\<lambda>a. ok_or a Anyhow.NoAnchor)")
    case (Inl e)
    then show ?thesis by (intro same) (simp add: scan_round_def op_bind_def node_read_eq)
  next
    case (Inr a)
    note anchor = this
    show ?thesis
    proof (cases "scan_block_for_chain_advance x c h a")
      case (Inl e)
      then show ?thesis using anchor
        by (intro same) (simp add: scan_round_def op_bind_def node_read_eq op_result_def)
    next
      case (Inr o')
      show ?thesis
      proof (cases o')
        case None
        then show ?thesis using anchor Inr
          by (intro same) (simp add: scan_round_def op_bind_def node_read_eq op_result_def)
      next
        case (Some adv)
        obtain r q' where p: "process_advance x c srv adv q = (r, q')" by fastforce
        then have "snd (scan_round x c srv h q) = q'"
          using anchor Inr Some
          by (cases r) (simp_all add: scan_round_def op_bind_def node_read_eq op_result_def)
        then show ?thesis using process_advance_inv [OF assms p] by blast
      qed
    qed
  qed
qed

section \<open>Runs\<close>

inductive node_step :: "ext \<Rightarrow> FullNode \<Rightarrow> FullNode \<Rightarrow> bool" for x where
  on_round: "node_step x q (snd (scan_round x c srv h q))"
| on_cursor: "node_step x q (snd (node_write (\<lambda>s. node_set_l1_cursor s h) q))"

lemma node_step_inv:
  assumes "node_step x q q'" and "node_inv x q bs" and "backed x bs"
  shows "\<exists>bs'. node_inv x q' (bs @ bs') \<and> backed x (bs @ bs')"
  using assms
proof (induction rule: node_step.induct)
  case (on_round q c srv h)
  then show ?case by (rule scan_round_inv)
next
  case (on_cursor q h)
  obtain s where "node_write (\<lambda>s. node_set_l1_cursor s h) q = (Inr (), q\<lparr>fn_store := s\<rparr>)"
    "node_inv x (q\<lparr>fn_store := s\<rparr>) bs"
    using node_inv_write [OF on_cursor(1)] unfolding node_set_l1_cursor_def by blast
  then show ?case using on_cursor(2) by (intro exI [of _ "[]"]) simp
qed

lemma node_reachable_inv:
  "(node_step x)\<^sup>*\<^sup>* q q' \<Longrightarrow> node_inv x q bs \<Longrightarrow> backed x bs \<Longrightarrow> \<exists>bs'. node_inv x q' (bs @ bs') \<and> backed x (bs @ bs')"
proof (induction rule: rtranclp_induct)
  case base
  then show ?case by (intro exI [of _ "[]"]) simp
next
  case (step r s)
  then obtain bs' where "node_inv x r (bs @ bs')" "backed x (bs @ bs')" by blast
  from node_step_inv [OF step.hyps(2) this] show ?case by (metis append.assoc)
qed

text \<open>A tick that returns is such a run.\<close>

lemma scan_block_steps:
  assumes "scan_block x c srv h q = Some (r, q')"
  shows "(node_step x)\<^sup>*\<^sup>* q q'"
proof -
  define P where "P x c srv h q rq \<longleftrightarrow> (node_step x)\<^sup>*\<^sup>* q (snd rq)"
    for x and c :: NodeRpc and srv :: Service and h :: u32 and q and rq :: "(Anyhow, unit) result \<times> FullNode"
  have "P x c srv h q (r, q')"
  proof (rule scan_block.raw_induct [where P = P and xa = "((((x, c), srv), h), q)", unfolded prod.case])
    fix scan and x c srv h q rq
    assume IH: "\<And>x c srv h q rq. scan x c srv h q = Some rq \<Longrightarrow> P x c srv h q rq"
      and body: "(case scan_round x c srv h q of (Inl e, q') \<Rightarrow> Some (Inl e, q')
        | (Inr again, q') \<Rightarrow> if again then scan x c srv h q' else Some (Inr (), q')) = Some rq"
    obtain r1 q1 where sr: "scan_round x c srv h q = (r1, q1)" by fastforce
    have one: "node_step x q q1" using on_round [of x q c srv h] sr by simp
    show "P x c srv h q rq"
    proof (cases "r1 = Inr True")
      case True
      then have "P x c srv h q1 rq" using body sr by (intro IH) simp
      then show ?thesis using one by (simp add: P_def converse_rtranclp_into_rtranclp)
    next
      case False
      then have "snd rq = q1" using body sr by (auto split: sum.splits if_splits)
      then show ?thesis using one by (simp add: P_def r_into_rtranclp)
    qed
  qed (rule assms)
  then show ?thesis by (simp add: P_def)
qed

lemma scan_range_steps: "scan_range x c srv hs q = Some (r, q') \<Longrightarrow> (node_step x)\<^sup>*\<^sup>* q q'"
proof (induction hs arbitrary: q)
  case (Cons h hs)
  obtain r1 q1 where b: "scan_block x c srv h q = Some (r1, q1)"
    using Cons.prems by (cases "scan_block x c srv h q") auto
  then have r1: "(node_step x)\<^sup>*\<^sup>* q q1" by (rule scan_block_steps)
  obtain r2 q2 where w: "node_write (\<lambda>s. node_set_l1_cursor s h) q1 = (r2, q2)" by fastforce
  have "(node_step x)\<^sup>*\<^sup>* q q2" using r1 on_cursor [of x q1 h] w by (simp add: rtranclp.rtrancl_into_rtrancl)
  then show ?case
    using Cons b r1 w by (auto split: sum.splits) (meson rtranclp_trans)+
qed simp

lemma follower_tick_steps: "follower_tick x c srv q = Some (r, q') \<Longrightarrow> (node_step x)\<^sup>*\<^sup>* q q'"
  by (auto simp: follower_tick_def Let_def split: sum.splits if_splits intro: scan_range_steps)

section \<open>Start-up\<close>

lemma check_genesis_ok:
  "check_genesis x g b = Inr (st, a) \<longleftrightarrow> genesis_ok x b \<and> L2BlockHeader.l1_height (header b) = g \<and>
     st = genesis_ledger (bh_fee_address (header b)) \<and> anchor_outpoint (header b) = Some a"
  by (auto simp: check_genesis_def genesis_ok_def genesis_ledger_def Let_def rbind_eq_Inr)

lemma node_write_genesis:
  assumes "genesis_ok x b" and "S = genesis_ledger (bh_fee_address (header b))"
  shows "\<exists>s. node_write_block_and_state node_open b S w = Inr s \<and> node_ready.holds x s [b] S"
proof -
  obtain s where s: "node_write_block_and_state node_open b S w = Inr s"
    by (simp add: node_write_block_and_state_def node_open_def Let_def)
  then have "node_healthy s" "node_db.mirrors s [b] S"
    using assms(1) by (auto simp: node_write_block_and_state_def node_open_def node_db.mirrors_def node_get_block_def
        node_load_latest_state_def latest_row_def node_healthy_def genesis_ok_def unat_eq_0)
  then show ?thesis
    using s node_ready.holds_genesis l2_chain.root [OF assms(1)] assms(2) by blast
qed

lemma node_cold_start_succeeds:
  assumes "srv_block srv 0 = Inr b" and "genesis_ok x b" and "L2BlockHeader.l1_height (header b) = g"
    and "anchor_outpoint (header b) = Some a"
  shows "\<exists>st s. node_bootstrap x g srv node_open = (Inr (st, node_head_of x b), s) \<and>
    node_inv x (node_new st (node_head_of x b) s) [b] \<and> node_kv_get s ''anchor'' = Inr (Some (show_outpoint x a)) \<and>
    node_l1_cursor s = Inr (Some g)"
proof -
  let ?st = "genesis_ledger (bh_fee_address (header b))"
  have g: "check_genesis x g b = Inr (?st, a)" using assms by (simp add: check_genesis_ok)
  obtain s1 where s1: "node_write_block_and_state node_open b ?st (BlockWitness_build x ?st (txs b) 0) = Inr s1"
    "node_ready.holds x s1 [b] ?st" using node_write_genesis [OF assms(2) refl] by blast
  obtain s2 where s2: "node_set_l1_cursor s1 g = Inr s2" "node_ready.holds x s2 [b] ?st"
    using node_ready.holds_put [OF s1(2)] unfolding node_set_l1_cursor_def by blast
  obtain s3 where s3: "node_set_anchor x s2 a = Inr s3" "node_ready.holds x s3 [b] ?st"
    using node_ready.holds_put [OF s2(2)] unfolding node_set_anchor_def by blast
  have get: "\<exists>v. node_kv_get s k = Inr v" if "node_ready.holds x s [b] ?st" for s k
    using that node_ready.ready_get by (simp add: node_ready.holds_def)
  have anchor: "node_kv_get s3 ''anchor'' = Inr (Some (show_outpoint x a))"
    using get [OF s2(2)] node_kv.put_get s3(1) unfolding node_set_anchor_def by blast
  have "node_l1_cursor s2 = Inr (Some g)" using get [OF s1(2)] node_cursor_roundtrip [OF s2(1)] by blast
  moreover have "node_kv_get s3 ''l1_cursor'' = node_kv_get s2 ''l1_cursor''"
    using s3(1) unfolding node_set_anchor_def by (rule node_kv.put_get_other) simp
  ultimately have cursor: "node_l1_cursor s3 = Inr (Some g)" by (simp add: node_l1_cursor_def)
  have "node_load_latest_state node_open = Inr None" by (simp add: node_load_latest_state_def node_open_def)
  moreover have "bh_height (header b) = 0" using assms(2) by (simp add: genesis_ok_def)
  ultimately have "node_bootstrap x g srv node_open = (Inr (?st, node_head_of x b), s3)"
    using assms(1) g s1(1) s2(1) s3(1)
    by (simp add: node_bootstrap_def node_cold_start_def op_bind_def op_result_def op_write_def
        seq_client_get_block_def Let_def node_head_of_def)
  then show ?thesis using s3(2) anchor cursor by (simp add: node_inv_def node_new_def)
qed

lemma node_cold_start_genesis:
  assumes "node_bootstrap x g srv node_open = (Inr (st, hd0), s)"
  shows "\<exists>b a. srv_block srv 0 = Inr b \<and> check_genesis x g b = Inr (st, a) \<and> hd0 = node_head_of x b \<and>
    node_inv x (node_new st hd0 s) [b] \<and> node_kv_get s ''anchor'' = Inr (Some (show_outpoint x a))"
proof -
  have "node_load_latest_state node_open = Inr None" by (simp add: node_load_latest_state_def node_open_def)
  then have "node_cold_start x g srv node_open = (Inr (st, hd0), s)"
    using assms by (simp add: node_bootstrap_def op_bind_def op_result_def)
  then obtain b a where b: "srv_block srv 0 = Inr b" "check_genesis x g b = Inr (st, a)"
    by (auto simp: node_cold_start_def op_success Let_def)
  then have ok: "genesis_ok x b" "L2BlockHeader.l1_height (header b) = g" "anchor_outpoint (header b) = Some a"
    by (simp_all add: check_genesis_ok)
  from node_cold_start_succeeds [OF b(1) ok] assms b show ?thesis by auto
qed

text \<open>A restart finds the ledger and the head again.\<close>

lemma node_restart:
  assumes "node_inv x q bs"
  shows "node_bootstrap x g srv (fn_store q) = (Inr (fn_state q, fn_head q), fn_store q)"
proof -
  obtain h where h: "node_load_latest_state (fn_store q) = Inr (Some (h, fn_state q))"
    "node_get_block (fn_store q) h = Inr (Some (last bs))"
    using node_db.mirrors_resume [OF node_inv_mirrors [OF assms]] by blast
  have "\<exists>v. node_kv_get (fn_store q) ''l1_cursor'' = Inr v"
    using assms node_ready.ready_get by (simp add: node_inv_def node_ready.holds_def)
  then have "\<exists>v. node_l1_cursor (fn_store q) = Inr v" by (auto simp: node_l1_cursor_def)
  then have "node_resume x h (fn_state q) (fn_store q) = Inr (fn_state q, fn_head q)"
    using h(2) assms by (auto simp: node_resume_def node_inv_def)
  then show ?thesis using h(1) by (simp add: node_bootstrap_def op_bind_def op_result_def)
qed

section \<open>The scan that does not end\<close>

text \<open>The anchor moves only behind the head check: an advance whose attestation the node has passed
  already leaves the node as it is, so the next round finds the same advance.\<close>

lemma scan_round_repeats:
  assumes "node_get_anchor x (fn_store q) = Inr (Some a)"
    and "scan_block_for_chain_advance x c h a = Inr (Some adv)"
    and "att_height (ca_attestation adv) \<le> nh_height (fn_head q)"
  shows "scan_round x c srv h q = (Inr True, q)"
  using assms process_advance_skips [OF assms(3), of x c srv]
  by (simp add: scan_round_def op_bind_def node_read_eq op_result_def)

lemma scan_block_livelock:
  assumes "scan_round x c srv h q = (Inr True, q)"
  shows "scan_block x c srv h q = None"
proof (rule ccontr)
  assume "scan_block x c srv h q \<noteq> None"
  then obtain rq where r: "scan_block x c srv h q = Some rq" by auto
  define P where "P x c srv h q rq \<longleftrightarrow> scan_round x c srv h q \<noteq> (Inr True, q)"
    for x and c :: NodeRpc and srv :: Service and h :: u32 and q and rq :: "(Anyhow, unit) result \<times> FullNode"
  have "P x c srv h q rq"
  proof (rule scan_block.raw_induct [where P = P and xa = "((((x, c), srv), h), q)", unfolded prod.case])
    fix scan and x c srv h q rq
    assume IH: "\<And>x c srv h q rq. scan x c srv h q = Some rq \<Longrightarrow> P x c srv h q rq"
      and body: "(case scan_round x c srv h q of (Inl e, q') \<Rightarrow> Some (Inl e, q')
        | (Inr again, q') \<Rightarrow> if again then scan x c srv h q' else Some (Inr (), q')) = Some rq"
    show "P x c srv h q rq"
    proof (unfold P_def, rule notI)
      assume loop: "scan_round x c srv h q = (Inr True, q)"
      then have "scan x c srv h q = Some rq" using body by simp
      from IH [OF this] loop show False by (simp add: P_def)
    qed
  qed (rule r)
  then show False using assms by (simp add: P_def)
qed

lemma follower_tick_livelock:
  assumes "scan_round x c srv (cursor + 1) q = (Inr True, q)"
    and "node_block_count c = Inr tip" and "node_l1_cursor (fn_store q) = Inr (Some cursor)" and "cursor < tip"
  shows "follower_tick x c srv q = None"
proof -
  have "heights (cursor + 1) tip = (cursor + 1) # blocks_above (cursor + 1) tip"
    using heights_above [OF assms(4)] blocks_above_Cons [OF assms(4)] by simp
  then show ?thesis using assms scan_block_livelock [OF assms(1)] by (simp add: follower_tick_def)
qed

end
