(* ===== verification/NodeApi.thy ===== *)
theory NodeApi
  imports NodeSystem Esplora
begin

text \<open>
  \<open>hodl-node/src/api.rs\<close>: the node's HTTP handlers, and the two services they present: the L2
  endpoints to a wallet's API client and the slim Esplora to its light client. A handler's
  answer is a body, a status with a message, or an \<open>ApiError\<close> (status 500). JSON fields are
  the record fields; a 32-byte id travels as its text.
\<close>

datatype 'a Response = RespOk 'a | RespNotFound string | RespBadRequest string

record TxStatus =
  ts_confirmed :: bool
  ts_block_height :: "u32 option"

record NodeVin =
  nvi_txid :: string
  nvi_vout :: u32

record NodeVout =
  nvo_scriptpubkey :: string
  nvo_value :: u64

record NodeTx =
  nt_txid :: string
  nt_vin :: "NodeVin list"
  nt_vout :: "NodeVout list"
  nt_status :: TxStatus

record NodeOutspend =
  no_spent :: bool
  no_txid :: "string option"
  no_block_height :: "u32 option"

record NodeAddressUtxo =
  na_txid :: string
  na_vout :: u32
  na_value :: u64
  na_status :: TxStatus

section \<open>The L2 endpoints\<close>

definition node_get_head :: "FullNode \<Rightarrow> HeadResponse" where
  "node_get_head q =
     \<lparr> hr_height = nh_height (fn_head q), hr_block_hash = nh_block_hash (fn_head q),
       hr_state_root = nh_state_root (fn_head q), hr_l1_height = nh_l1_height (fn_head q) \<rparr>"

definition node_parse_xonly :: "ext \<Rightarrow> string \<Rightarrow> (Anyhow, XOnlyPublicKey) result" where
  "node_parse_xonly x s =
     rbind (ok_or (hex_decode x s) BadHex) (\<lambda>bs. ok_or (xonly_from_slice x bs) BadKey)"

definition node_balance :: "ext \<Rightarrow> L2Address \<Rightarrow> FullNode \<Rightarrow> BalanceResponse" where
  "node_balance x addr q =
     (let st = fn_state q; comps = components x st
      in \<lparr> br_address = addr, br_balance = balance_of st addr, br_nonce = nonce_of st addr,
           br_effective_nonce = nonce_of st addr, br_l2_height = nh_height (fn_head q),
           br_state_root = components_state_root x comps, br_components = comps,
           br_proof = account_inclusion_proof x st addr, br_total_minted = total_minted_atoms st \<rparr>)"

definition node_get_balance :: "ext \<Rightarrow> string \<Rightarrow> FullNode \<Rightarrow> (Anyhow, BalanceResponse) result" where
  "node_get_balance x addr_hex q = rbind (node_parse_xonly x addr_hex) (\<lambda>addr. Inr (node_balance x addr q))"

definition found :: "'a option \<Rightarrow> string \<Rightarrow> 'a Response" where
  "found v msg = (case v of Some b \<Rightarrow> RespOk b | None \<Rightarrow> RespNotFound msg)"

definition node_get_block_handler :: "FullNode \<Rightarrow> u32 \<Rightarrow> (Anyhow, L2Block Response) result" where
  "node_get_block_handler q height =
     rbind (node_get_block (fn_store q) height) (\<lambda>b. Inr (found b ''no such block''))"

definition node_get_witness_handler :: "FullNode \<Rightarrow> u32 \<Rightarrow> (Anyhow, BlockWitness Response) result" where
  "node_get_witness_handler q height =
     rbind (node_get_witness (fn_store q) height) (\<lambda>w. Inr (found w ''no witness at that height''))"

definition node_get_nullifiers :: "FullNode \<Rightarrow> string list" where
  "node_get_nullifiers q = sorted_list_of_fset (consumed_nullifiers (fn_state q))"

section \<open>The Esplora endpoints\<close>

definition esplora_get_tx :: "ext \<Rightarrow> NodeRpc \<Rightarrow> string \<Rightarrow> (Anyhow, NodeTx Response) result" where
  "esplora_get_tx x c txid_hex =
     rbind (ok_or (txid_from_str x txid_hex) (BadTxid txid_hex)) (\<lambda>t.
     case get_tx_with_height c t of
       Inl _ \<Rightarrow> Inr (RespNotFound ''tx not found'')
     | Inr (tx, block_height) \<Rightarrow>
         Inr (RespOk \<lparr> nt_txid = txid_to_string x (tx_id tx),
           nt_vin = map (\<lambda>p. \<lparr> nvi_txid = txid_to_string x (txid p), nvi_vout = vout p \<rparr>) (tx_inputs tx),
           nt_vout = map (\<lambda>(spk, v). \<lparr> nvo_scriptpubkey = hex_encode x spk, nvo_value = v \<rparr>) (tx_outputs tx),
           nt_status = \<lparr> ts_confirmed = (block_height \<noteq> None), ts_block_height = block_height \<rparr> \<rparr>))"

definition esplora_tip_height :: "NodeRpc \<Rightarrow> (Anyhow, string) result" where
  "esplora_tip_height c = rbind (node_block_count c) (\<lambda>tip. Inr (u32_to_string tip))"

definition esplora_outspend :: "ext \<Rightarrow> FullNode \<Rightarrow> string \<Rightarrow> u32 \<Rightarrow> (Anyhow, NodeOutspend) result" where
  "esplora_outspend x q txid_hex v =
     rbind (ok_or (txid_from_str x txid_hex) (BadTxid txid_hex)) (\<lambda>_.
     rbind (get_anchor_spender x (fn_store q) txid_hex v) (\<lambda>r. Inr (case r of
       Some (spender_txid, height) \<Rightarrow>
         \<lparr> no_spent = True, no_txid = Some (txid_to_string x spender_txid), no_block_height = Some height \<rparr>
     | None \<Rightarrow> \<lparr> no_spent = False, no_txid = None, no_block_height = None \<rparr>)))"

definition esplora_address_utxos :: "NodeRpc \<Rightarrow> string \<Rightarrow> (Anyhow, NodeAddressUtxo list) result" where
  "esplora_address_utxos c addr =
     rbind (scan_address_utxos c addr) (\<lambda>utxos. Inr (map (\<lambda>u.
       \<lparr> na_txid = nu_txid u, na_vout = nu_vout u, na_value = nu_value_sat u,
         na_status = \<lparr> ts_confirmed = (nu_block_height u \<noteq> None), ts_block_height = nu_block_height u \<rparr> \<rparr>) utxos))"

definition esplora_broadcast :: "ext \<Rightarrow> NodeRpc \<Rightarrow> string \<Rightarrow> string Response" where
  "esplora_broadcast x c text =
     (case hex_decode x (str_trim text) of
        None \<Rightarrow> RespBadRequest ''hex decode''
      | Some raw \<Rightarrow>
          (case send_raw_transaction c raw of
             Inr t \<Rightarrow> RespOk (txid_to_string x t)
           | Inl e \<Rightarrow> RespBadRequest e))"

section \<open>What a client sees\<close>

definition http_response :: "(Anyhow, 'a Response) result \<Rightarrow> (HttpError, 'a) result" where
  "http_response r = rbind (http r) (\<lambda>v. case v of
     RespOk b \<Rightarrow> Inr b | RespNotFound _ \<Rightarrow> Inl (HttpStatus 404) | RespBadRequest _ \<Rightarrow> Inl (HttpStatus 400))"

text \<open>The router's L2 half. There are no submission routes: the client decodes the empty answer.\<close>

definition node_router :: "ext \<Rightarrow> FullNode \<Rightarrow> Service" where
  "node_router x q =
     \<lparr> srv_submit_mint = (\<lambda>_. Inl HttpDecode),
       srv_submit_transfer = (\<lambda>_. Inl HttpDecode),
       srv_block = (\<lambda>h. http_response (node_get_block_handler q h)),
       srv_head = Inr (node_get_head q),
       srv_balance = (\<lambda>a. http (node_get_balance x (hex_encode x (serialize a)) q)),
       srv_witness = (\<lambda>h. http_response (node_get_witness_handler q h)),
       srv_nullifiers = Inr (node_get_nullifiers q) \<rparr>"

text \<open>The Esplora half, as the wallet's client decodes it.\<close>

definition node_esplora :: "ext \<Rightarrow> NodeRpc \<Rightarrow> FullNode \<Rightarrow> EsploraClient" where
  "node_esplora x c q =
     \<lparr> get_tx = (\<lambda>t. rbind (http_response (esplora_get_tx x c (txid_to_string x t))) (\<lambda>tx.
         Inr \<lparr> et_vout = map (\<lambda>o'. \<lparr> scriptpubkey = nvo_scriptpubkey o', vout_value = nvo_value o' \<rparr>) (nt_vout tx),
               et_block_height = ts_block_height (nt_status tx) \<rparr>)),
       get_outspend = (\<lambda>t v. rbind (http (esplora_outspend x q (txid_to_string x t) v)) (\<lambda>s.
         Inr \<lparr> spent = no_spent s, os_txid = no_txid s, os_block_height = no_block_height s \<rparr>)),
       tx_exists = (\<lambda>t. case http_response (esplora_get_tx x c (txid_to_string x t)) of
         Inr _ \<Rightarrow> Inr True
       | Inl e \<Rightarrow> if e = HttpStatus 404 then Inr False else Inl e),
       es_tip_height = rbind (http (esplora_tip_height c)) (\<lambda>t. ok_or (parse_u32 t) HttpDecode),
       address_utxos = (\<lambda>a. rbind (http (esplora_address_utxos c a)) (\<lambda>us.
         rfold (\<lambda>u out. rbind (ok_or (txid_from_str x (na_txid u)) HttpDecode) (\<lambda>t.
           Inr (out @ [\<lparr> au_txid = t, au_vout = na_vout u, au_value = na_value u,
                         au_block_height = ts_block_height (na_status u) \<rparr>]))) us [])) \<rparr>"

section \<open>What the services show\<close>

lemma node_router_block:
  assumes "node_inv x q bs"
  shows "srv_block (node_router x q) h = (if unat h < length bs then Inr (bs ! unat h) else Inl (HttpStatus 404))"
  using node_inv_mirrors [OF assms]
  by (simp add: node_router_def node_get_block_handler_def node_db.mirrors_def http_response_def http_def found_def)

lemma node_router_witness:
  assumes "node_inv x q bs" and "0 < k" and "k < length bs" and "l2_chain x (take k bs) S"
  shows "srv_witness (node_router x q) (of_nat k) = Inr (BlockWitness_build x S (txs (bs ! k)) (of_nat k))"
  using assms
  by (simp add: node_router_def node_get_witness_handler_def node_inv_def node_ready.holds_def
      node_ready.witnessed_def http_response_def http_def found_def)

lemma node_router_balance:
  assumes "hex_ok x" and "xonly_from_slice x (serialize a) = Some a"
  shows "srv_balance (node_router x q) a = Inr (node_balance x a q)"
  using assms by (simp add: node_router_def node_get_balance_def node_parse_xonly_def hex_ok_decode http_def)

text \<open>A recorded spend is what a walk along the node's Esplora follows.\<close>

lemma node_walk_step:
  assumes "txid_str_ok x" and "hex_ok x"
    and "get_anchor_spender x (fn_store q) (txid_to_string x (txid p)) (vout p) = Inr (Some (t, h))"
    and "get_tx_with_height c t = Inr (tx, bh)" and "2 \<le> length (tx_outputs tx)"
    and "try_from_script x (fst (tx_outputs tx ! 0)) = Inr (Some att)"
  shows "walk_step x (node_esplora x c q) p =
    Inr (Some \<lparr> cs_attestation = att, cs_l1_height = h, new_anchor = OutPoint t 1 \<rparr>)"
proof -
  have r: "txid_from_str x (txid_to_string x u) = Some u" for u using assms(1) by (simp add: txid_str_ok_def)
  obtain o1 rest where o1: "tx_outputs tx = o1 # rest" "rest \<noteq> []"
    using assms(5) by (cases "tx_outputs tx") (auto simp: Suc_le_eq)
  have "hex_decode x (hex_encode x (fst o1)) = Some (fst o1)" using assms(2) by (rule hex_ok_decode)
  moreover have "try_from_script x (fst o1) = Inr (Some att)" using assms(6) o1 by simp
  moreover have "\<not> length (tx_outputs tx) < 2" using assms(5) by simp
  ultimately show ?thesis
    using assms(3,4) r o1
    by (simp add: walk_step_def node_esplora_def esplora_outspend_def esplora_get_tx_def http_def
        http_response_def case_prod_unfold)
qed

lemma node_walk_tip:
  assumes "txid_str_ok x"
    and "get_anchor_spender x (fn_store q) (txid_to_string x (txid p)) (vout p) = Inr None"
  shows "walk_step x (node_esplora x c q) p = Inr None"
proof -
  have "txid_from_str x (txid_to_string x u) = Some u" for u using assms(1) by (simp add: txid_str_ok_def)
  then show ?thesis
    using assms(2) by (simp add: walk_step_def node_esplora_def esplora_outspend_def http_def)
qed

end
