(* ===== verification/NodeSample.thy ===== *)
theory NodeSample
  imports NodeApi SeqSample
begin

text \<open>A concrete node for closed witnesses: it starts from the sample sequencer's genesis, and its
  \<open>bitcoind\<close> shows the attestation of that sequencer's first block.\<close>

text \<open>The sequencer after one empty block, and a node's \<open>bitcoind\<close> that shows its attestation.\<close>

definition seq_after :: Sequencer where
  "seq_after = block_tick toy_ext sample_rpc 1700000600 sample_seq"

definition seq_after_attestation :: Attestation where
  "seq_after_attestation = Attestation_new (hd_height (sh_head seq_after)) (hd_block_hash (sh_head seq_after))
     (hd_state_root (sh_head seq_after))"

definition attestation_tx :: Transaction where
  "attestation_tx = \<lparr> tx_id = 9, tx_inputs = [OutPoint 6 1],
     tx_outputs = [(attestation_to_script toy_ext seq_after_attestation, 0), ([], 1000)] \<rparr>"

definition node_rpc :: NodeRpc where
  "node_rpc = \<lparr> get_block_count = Inr 100, get_tx_out = get_tx_out sample_rpc,
     node_block_hash = (\<lambda>h. Inr (ucast h)),
     node_block = (\<lambda>hash. if hash = 91 then Inr [attestation_tx] else Inr []),
     get_raw_transaction_info = (\<lambda>t. if t = 9
       then Inr \<lparr> ri_transaction = Some attestation_tx, ri_confirmations = Some 10 \<rparr> else Inl ''No such transaction''),
     scantxoutset = (\<lambda>_. Inl ''''), send_raw_transaction = (\<lambda>_. Inl '''') \<rparr>"

definition sample_advance :: ChainAdvance where
  "sample_advance = \<lparr> ca_attestation = seq_after_attestation, ca_l1_height = 91, ca_txid = 9,
     ca_spent_anchor = OutPoint 6 1, ca_new_anchor = OutPoint 9 1 \<rparr>"

definition seq_service :: Service where
  "seq_service = seq_router toy_ext sample_l1 0 seq_after"

definition node_start :: "(Anyhow, LedgerState \<times> NodeHead) result \<times> NodeStore" where
  "node_start = node_bootstrap toy_ext 90 seq_service node_open"

definition sample_node :: FullNode where
  "sample_node = (case node_start of
     (Inr (st, h), s) \<Rightarrow> node_new st h s
   | (Inl _, s) \<Rightarrow> node_new ledger0 (node_head_of toy_ext genesis_block) s)"

lemma sample_scan:
  "scan_block_for_chain_advance toy_ext node_rpc 91 (OutPoint 6 1) = Inr (Some sample_advance)"
proof -
  have "try_from_script toy_ext (attestation_to_script toy_ext seq_after_attestation) = Inr (Some seq_after_attestation)"
    by (rule try_from_script_to_script [OF push_ok_toy]) (simp add: seq_after_attestation_def Attestation_new_def)
  then show ?thesis
    by (simp add: scan_block_for_chain_advance_def node_rpc_def attestation_tx_def advance_of_def sample_advance_def)
qed

text \<open>The sample sequencer's two blocks, the empty second one included.\<close>

lemma sample_chain2:
  obtains b0 b1 where "seq_inv toy_ext seq_after [b0, b1]" and "txs b1 = []"
    and "txs_root (header b1) = compute_txs_root toy_ext []" and "anchor_outpoint (header b0) = Some (OutPoint 6 1)"
    and "L2BlockHeader.l1_height (header b0) = 90"
proof -
  obtain st h s where s: "seq_bootstrap toy_ext 90 sample_rpc 1700000000 2 seq_open = (Inr (st, h), s)"
    "sample_seq = Shared_new toy_ext st h 2 s" by (rule sample_seq_start)
  from seq_bootstrap_genesis [OF s(1)] s(2) obtain b0 where
    b0: "seq_inv toy_ext sample_seq [b0]" "L2BlockHeader.l1_height (header b0) = 90"
      "anchor_outpoint (header b0) = Some (OutPoint 6 1)"
    by (auto simp: sample_rpc_anchor)
  have "can_grow sample_seq" using seq_inv_height [OF b0(1)] by (simp add: can_grow_def)
  from produce_inv [OF b0(1) this, of sample_rpc 1700000600]
  have inv: "seq_inv toy_ext seq_after ([b0] @ [block_of toy_ext sample_rpc 1700000600 100 8 sample_seq])"
    by (auto simp: sample_rpc_point seq_after_def block_tick_def)
  have "sh_mempool sample_seq = Mempool_default" unfolding s(2) by (simp add: Shared_new_def)
  then have "txs (block_of toy_ext sample_rpc 1700000600 100 8 sample_seq) = []"
    by (simp add: block_of_def build_of_def build_txs_def new_block_def Mempool_default_def)
  moreover have "txs_root (header (block_of toy_ext sample_rpc 1700000600 100 8 sample_seq)) =
      compute_txs_root toy_ext (txs (block_of toy_ext sample_rpc 1700000600 100 8 sample_seq))"
    by (simp add: block_of_def new_block_def)
  ultimately show ?thesis using that [OF _ _ _ b0(3,2)] inv by simp
qed

lemma sample_node_inv:
  assumes "seq_inv toy_ext seq_after [b0, b1]" and "anchor_outpoint (header b0) = Some (OutPoint 6 1)"
    and "L2BlockHeader.l1_height (header b0) = 90"
  shows "node_inv toy_ext sample_node [b0]" "node_get_anchor toy_ext (fn_store sample_node) = Inr (Some (OutPoint 6 1))"
    "node_l1_cursor (fn_store sample_node) = Inr (Some 90)" "fn_head sample_node = node_head_of toy_ext b0"
    "node_start = (Inr (fn_state sample_node, fn_head sample_node), fn_store sample_node)"
proof -
  have "genesis_ok toy_ext b0" using chain_genesis [OF seq_inv_chain [OF assms(1)]] by simp
  moreover have "srv_block seq_service 0 = Inr b0"
    using seq_router_block [OF assms(1)] by (simp add: seq_service_def)
  ultimately obtain st s where n: "node_start = (Inr (st, node_head_of toy_ext b0), s)"
    "node_inv toy_ext (node_new st (node_head_of toy_ext b0) s) [b0]"
    "node_kv_get s ''anchor'' = Inr (Some (show_outpoint toy_ext (OutPoint 6 1)))" "node_l1_cursor s = Inr (Some 90)"
    using node_cold_start_succeeds [OF _ _ assms(3,2)] unfolding node_start_def by blast
  then have q: "sample_node = node_new st (node_head_of toy_ext b0) s" by (simp add: sample_node_def n(1))
  show "node_inv toy_ext sample_node [b0]" "node_l1_cursor (fn_store sample_node) = Inr (Some 90)"
    "fn_head sample_node = node_head_of toy_ext b0"
    "node_start = (Inr (fn_state sample_node, fn_head sample_node), fn_store sample_node)"
    using n by (simp_all add: q node_new_def)
  show "node_get_anchor toy_ext (fn_store sample_node) = Inr (Some (OutPoint 6 1))"
    using n(3) parse_show_outpoint [OF txid_str_ok_toy] by (simp add: q node_new_def node_get_anchor_def)
qed

text \<open>What the sample node needs to follow the second block.\<close>

lemma sample_accepts:
  assumes "seq_inv toy_ext seq_after [b0, b1]" and "txs b1 = []"
    and "txs_root (header b1) = compute_txs_root toy_ext []" and "anchor_outpoint (header b0) = Some (OutPoint 6 1)"
    and "L2BlockHeader.l1_height (header b0) = 90" and "a = None \<or> a = Some seq_after_attestation"
    and "fn_state q = fn_state sample_node" and "fn_head q = fn_head sample_node"
  shows "accepts toy_ext node_rpc seq_service 1 a q b1 (sh_state seq_after)"
proof -
  note chain = seq_inv_chain [OF assms(1)]
  obtain S S' where S: "l2_chain toy_ext [b0] S" "extends toy_ext b0 S b1 S'" "l2_chain toy_ext [b0, b1] S'"
    using chain_step [OF chain, of 1] by auto
  note node = sample_node_inv [OF assms(1,4,5)]
  have S': "S' = sh_state seq_after" using chain_fun [OF S(3) chain] .
  have st: "fn_state q = S" using chain_fun [OF node_inv_chain [OF node(1)] S(1)] assms(7) by simp
  have h: "bh_height (header b1) = 1" using chain_heights [OF chain, of 1] by (simp add: word_unat_eq_iff)
  have head: "sh_head seq_after = head_of toy_ext b1" using assms(1) by (simp add: seq_inv_iff)
  have "validate_block toy_ext b1 seq_after_attestation = Inr ()"
    using assms(2,3) by (simp add: validate_block_def seq_after_attestation_def head Attestation_new_def)
  moreover have "srv_block seq_service 1 = Inr b1"
    using seq_router_block [OF assms(1)] by (simp add: seq_service_def)
  ultimately show ?thesis
    using S(2) st h assms(2,6,8) node(4) unfolding S' by (auto simp: accepts_def extends_def)
qed

end
