(* ===== verification/NodeProperties.thy ===== *)
theory NodeProperties
  imports NodeSample Binding LightClientCorrect
begin

text \<open>The properties of the full node: what it holds, whom it follows, what it serves, and where
  its loop and its start-up get stuck.\<close>

section \<open>Safety\<close>




definition chain_preimages :: "ext \<Rightarrow> L2Block list \<Rightarrow> LedgerState \<Rightarrow> L2Block list \<Rightarrow> LedgerState \<Rightarrow> bytes list" where
  "chain_preimages x bs S cs T = header_preimages bs @ header_preimages cs @ state_preimages x S T"

lemma backed_nullifiers:
  assumes "hex_ok x" and "l2_chain x bs S" and "backed x bs"
  shows "fBall (consumed_nullifiers S) (\<lambda>s. length s = 72)"
proof -
  have len: "length n = 72" if "n \<in> set (nullifiers ts)" "\<forall>tx\<in>set ts. \<exists>c. mints_ok x (node_l1_view c) [tx]" for n ts
    using that
  proof (induction ts)
    case (Cons tx ts)
    then obtain c where "mints_ok x (node_l1_view c) [tx]" by auto
    from nullifiers_of_deposits [OF this] have "n \<in> set (nullifiers [tx]) \<Longrightarrow> length n = 72"
      using hex_ok_length [OF assms(1)] by auto
    then show ?case using Cons by (auto simp: nullifiers_def)
  qed (simp add: nullifiers_def)
  have "\<forall>tx\<in>set (chain_txs bs). \<exists>c. mints_ok x (node_l1_view c) [tx]"
    using assms(3) by (fastforce simp: backed_def chain_txs_def mints_ok_def)
  moreover have "fset (consumed_nullifiers S) = set (nullifiers (chain_txs bs))"
    using genesis_runs(2) [OF chain_run [OF assms(2)]] by (simp add: nullifiers_spent_def)
  ultimately show ?thesis using len by blast
qed

text \<open>Agreement. Two nodes whose heads have one height and one block hash hold chains with the same
  headers and, up to the mint total, the same ledger, or two of the listed preimages collide.\<close>

theorem nodes_agree:
  assumes "node_inv x q bs" and "node_inv x r cs" and "hex_ok x" and "backed x bs" and "backed x cs"
    and "nh_height (fn_head q) = nh_height (fn_head r)" and "nh_block_hash (fn_head q) = nh_block_hash (fn_head r)"
  shows "map header bs = map header cs \<and>
      (fn_state q)\<lparr>total_minted_atoms := total_minted_atoms (fn_state r)\<rparr> = fn_state r \<or>
    collides (sha256 x) (chain_preimages x bs (fn_state q) cs (fn_state r))"
proof -
  have chains: "l2_chain x bs (fn_state q)" "l2_chain x cs (fn_state r)" using assms(1,2) by (simp_all add: node_inv_chain)
  have ne: "bs \<noteq> []" "cs \<noteq> []" using chains by simp_all
  have "length bs - 1 = length cs - 1" using node_inv_height assms(1,2,6) by metis
  then have len: "length bs = length cs" using ne by (cases bs; cases cs) auto
  have "L2Block_hash x (last bs) = L2Block_hash x (last cs)" using assms(1,2,7) by (simp add: node_inv_def)
  from chain_head_binds [OF chains len this] consider
    "collides (sha256 x) (header_preimages bs @ header_preimages cs)" | "map header bs = map header cs" by blast
  then show ?thesis
  proof cases
    case 1
    then have "collides (sha256 x) ((header_preimages bs @ header_preimages cs) @ state_preimages x (fn_state q) (fn_state r))"
      by (rule collides_append)
    then show ?thesis by (simp add: chain_preimages_def)
  next
    case 2
    then have "header (last bs) = header (last cs)" using ne by (metis last_map)
    then have "state_root x (fn_state q) = state_root x (fn_state r)"
      using chain_head_root [OF chains(1)] chain_head_root [OF chains(2)] by simp
    from state_root_binds [OF this _ backed_nullifiers [OF assms(3) chains(1) assms(4)]
        backed_nullifiers [OF assms(3) chains(2) assms(5)]] 2
    show ?thesis unfolding chain_preimages_def by (auto intro: collides_append(2))
  qed
qed

theorem nodes_agree_witness:
  "\<exists>b. map header [b] = map header [b] \<and>
      (fn_state sample_node)\<lparr>total_minted_atoms := total_minted_atoms (fn_state sample_node)\<rparr> = fn_state sample_node \<or>
    collides (sha256 toy_ext) (chain_preimages toy_ext [b] (fn_state sample_node) [b] (fn_state sample_node))"
proof -
  obtain b0 b1 where b: "seq_inv toy_ext seq_after [b0, b1]" "txs b1 = []"
    "txs_root (header b1) = compute_txs_root toy_ext []" "anchor_outpoint (header b0) = Some (OutPoint 6 1)"
    "L2BlockHeader.l1_height (header b0) = 90" by (rule sample_chain2)
  have "backed toy_ext [b0]" by (simp add: backed_def)
  from nodes_agree [OF sample_node_inv(1) [OF b(1,4,5)] sample_node_inv(1) [OF b(1,4,5)] hex_ok_toy this this refl refl]
  show ?thesis by blast
qed

section \<open>Following the sequencer\<close>



section \<open>Serving wallets\<close>




text \<open>The node shows the attestation chain. Once the node has followed an advance that L1 confirms,
  the wallet's walk over the node's Esplora endpoints takes exactly that step at the spent
  anchor, with the attestation, its L1 height and the new anchor; every other outpoint it answers
  as before.\<close>

theorem node_shows_advance:
  assumes "txid_str_ok x" and "hex_ok x" and "\<not> nd_fault s SelectSpends"
    and "record_anchor_spend x s (ca_spent_anchor adv) (ca_txid adv) (ca_l1_height adv) = Inr s'"
    and "node_block c hash = Inr txdata" and "find (\<lambda>tx. ca_spent_anchor adv \<in> set (tx_inputs tx)) txdata = Some tx"
    and "advance_of x (ca_l1_height adv) (ca_spent_anchor adv) tx = Inr adv"
    and "get_tx_with_height c (tx_id tx) = Inr (tx, bh)"
  shows "walk_step x (node_esplora x c (q\<lparr>fn_store := s'\<rparr>)) p =
    (if p = ca_spent_anchor adv
     then Inr (Some \<lparr> cs_attestation = ca_attestation adv, cs_l1_height = ca_l1_height adv, new_anchor = ca_new_anchor adv \<rparr>)
     else walk_step x (node_esplora x c (q\<lparr>fn_store := s\<rparr>)) p)"
proof -
  let ?q = "q\<lparr>fn_store := s'\<rparr>"
  note spend = anchor_spend_roundtrip [OF assms(1,4,3)]
  have adv: "2 \<le> length (tx_outputs tx)" "try_from_script x (fst (tx_outputs tx ! 0)) = Inr (Some (ca_attestation adv))"
    "ca_txid adv = tx_id tx" "ca_new_anchor adv = OutPoint (tx_id tx) 1"
  proof -
    obtain att where o: "2 \<le> length (tx_outputs tx)" "try_from_script x (fst (tx_outputs tx ! 0)) = Inr (Some att)"
      and r: "adv = \<lparr> ca_attestation = att, ca_l1_height = ca_l1_height adv, ca_txid = tx_id tx,
          ca_spent_anchor = ca_spent_anchor adv, ca_new_anchor = OutPoint (tx_id tx) 1 \<rparr>"
      using assms(7) by (auto simp: advance_of_Inr)
    show "2 \<le> length (tx_outputs tx)" by (rule o(1))
    show "try_from_script x (fst (tx_outputs tx ! 0)) = Inr (Some (ca_attestation adv))"
      using o(2) arg_cong [OF r, of ca_attestation] by simp
    show "ca_txid adv = tx_id tx" "ca_new_anchor adv = OutPoint (tx_id tx) 1"
      using arg_cong [OF r, of ca_txid] arg_cong [OF r, of ca_new_anchor] by simp_all
  qed
  show ?thesis
  proof (cases "p = ca_spent_anchor adv")
    case True
    have "get_anchor_spender x (fn_store ?q) (txid_to_string x (txid p)) (vout p) = Inr (Some (tx_id tx, ca_l1_height adv))"
      using spend [of p] True adv(3) by simp
    from node_walk_step [OF assms(1,2) this assms(8) adv(1,2)] show ?thesis using True adv(4) by simp
  next
    case False
    then have "get_anchor_spender x s' (txid_to_string x (txid p)) (vout p) =
        get_anchor_spender x s (txid_to_string x (txid p)) (vout p)" using spend [of p] by simp
    then have eq: "get_outspend (node_esplora x c ?q) (txid p) (vout p) =
        get_outspend (node_esplora x c (q\<lparr>fn_store := s\<rparr>)) (txid p) (vout p)"
      "get_tx (node_esplora x c ?q) = get_tx (node_esplora x c (q\<lparr>fn_store := s\<rparr>))"
      by (simp_all add: node_esplora_def esplora_outspend_def)
    show ?thesis unfolding walk_step_def eq using False by simp
  qed
qed

theorem node_shows_advance_witness:
  "\<exists>s'. record_anchor_spend toy_ext (fn_store sample_node) (OutPoint 6 1) 9 91 = Inr s' \<and>
    walk_step toy_ext (node_esplora toy_ext node_rpc (sample_node\<lparr>fn_store := s'\<rparr>)) (OutPoint 6 1) =
      Inr (Some \<lparr> cs_attestation = seq_after_attestation, cs_l1_height = 91, new_anchor = OutPoint 9 1 \<rparr>)"
proof -
  obtain b0 b1 where b: "seq_inv toy_ext seq_after [b0, b1]" "txs b1 = []"
    "txs_root (header b1) = compute_txs_root toy_ext []" "anchor_outpoint (header b0) = Some (OutPoint 6 1)"
    "L2BlockHeader.l1_height (header b0) = 90" by (rule sample_chain2)
  have healthy: "\<not> nd_fault (fn_store sample_node) k" for k
    using sample_node_inv(1) [OF b(1,4,5)] by (simp add: node_inv_def node_ready.holds_def node_healthy_def)
  then obtain s' where s': "record_anchor_spend toy_ext (fn_store sample_node) (ca_spent_anchor sample_advance)
      (ca_txid sample_advance) (ca_l1_height sample_advance) = Inr s'"
    by (simp add: record_anchor_spend_def)
  obtain hash txdata tx where f: "node_block node_rpc hash = Inr txdata"
    "find (\<lambda>tx. ca_spent_anchor sample_advance \<in> set (tx_inputs tx)) txdata = Some tx"
    "advance_of toy_ext (ca_l1_height sample_advance) (ca_spent_anchor sample_advance) tx = Inr sample_advance"
    using sample_scan by (auto simp: scan_block_some sample_advance_def)
  have id: "tx_id tx = 9" using f(3) by (auto simp: advance_of_Inr sample_advance_def)
  have "tx = attestation_tx"
    using f(1,2) by (auto simp: node_rpc_def split: if_splits)
  then obtain bh where "get_tx_with_height node_rpc (tx_id tx) = Inr (tx, bh)"
    using id by (simp add: get_tx_with_height_def node_rpc_def)
  from node_shows_advance [OF txid_str_ok_toy hex_ok_toy healthy s' f this, of sample_node "OutPoint 6 1"] s'
  show ?thesis by (simp add: sample_advance_def)
qed

section \<open>Where the node gets stuck\<close>

text \<open>C27: a refused anchor write makes the node loop for ever. When the blocks behind an attestation
  have been stored and the write of the new anchor is refused, the tick ends with that error; from
  then on, with the database answering again, every tick that sees the same L1 block never
  returns: the attestation is skipped as known, and the anchor it spends is never left.\<close>

theorem anchor_write_failure_livelocks:
  assumes "node_get_anchor x (fn_store q) = Inr (Some a)" and "node_l1_cursor (fn_store q) = Inr (Some cursor)"
    and "node_block_count c = Inr tip" and "cursor < tip"
    and "scan_block_for_chain_advance x c (cursor + 1) a = Inr (Some adv)"
    and "nh_height (fn_head q) < att_height (ca_attestation adv)"
    and "op_iter (follow_one x c srv (ca_attestation adv))
      (blocks_above (nh_height (fn_head q)) (att_height (ca_attestation adv))) q = (Inr (), q1)"
    and "node_set_anchor x (fn_store q1) (ca_new_anchor adv) = Inl e"
  shows "follower_tick x c srv q = Some (Inl e, q1) \<and>
    follower_tick x c srv' (q1\<lparr>fn_store := (fn_store q1)\<lparr>nd_fault := (\<lambda>_. False)\<rparr>\<rparr>) = None"
proof (rule conjI)
  have p: "process_advance x c srv adv q = (Inl e, q1)"
    using assms(6,7,8) by (simp add: process_advance_eq op_bind_def node_write_eq not_le)
  have "scan_round x c srv (cursor + 1) q = (Inl e, q1)"
    using assms(1,5) p by (simp add: scan_round_def op_bind_def node_read_eq op_result_def)
  then have "scan_block x c srv (cursor + 1) q = Some (Inl e, q1)" by (subst scan_block.simps) simp
  then show "follower_tick x c srv q = Some (Inl e, q1)"
    using assms(2-4) heights_above [OF assms(4)] blocks_above_Cons [OF assms(4)] by (simp add: follower_tick_def)
  let ?q = "q1\<lparr>fn_store := (fn_store q1)\<lparr>nd_fault := (\<lambda>_. False)\<rparr>\<rparr>"
  have same: "same_anchor x q q1"
    using same_anchor_iter [of x q c srv "ca_attestation adv"] assms(7) by (metis snd_conv)
  have reads: "node_get_anchor x (fn_store ?q) = Inr (Some a)" "node_l1_cursor (fn_store ?q) = Inr (Some cursor)"
    using same assms(1,2)
    by (auto simp: same_anchor_def node_get_anchor_def node_l1_cursor_def node_kv_get_def split: if_splits)
  have "blocks_above (nh_height (fn_head q)) (att_height (ca_attestation adv)) \<noteq> []"
    "last (blocks_above (nh_height (fn_head q)) (att_height (ca_attestation adv))) = att_height (ca_attestation adv)"
    using last_blocks_above [OF assms(6)] by simp_all
  then have "nh_height (fn_head ?q) = att_height (ca_attestation adv)"
    using follow_iter_height [OF assms(7)] by simp
  then have "scan_round x c srv' (cursor + 1) ?q = (Inr True, ?q)"
    by (intro scan_round_repeats [OF reads(1) assms(5)]) simp
  from follower_tick_livelock [OF this assms(3) reads(2) assms(4)] show "follower_tick x c srv' ?q = None" .
qed

definition full_node_disk :: FullNode where
  "full_node_disk = sample_node\<lparr>fn_store := (fn_store sample_node)\<lparr>nd_fault := (\<lambda>k. k = UpsertKv)\<rparr>\<rparr>"

theorem anchor_write_failure_livelocks_witness:
  "\<exists>q1. follower_tick toy_ext node_rpc seq_service full_node_disk = Some (Inl SqlError, q1) \<and>
    follower_tick toy_ext node_rpc seq_service (q1\<lparr>fn_store := (fn_store q1)\<lparr>nd_fault := (\<lambda>_. False)\<rparr>\<rparr>) = None"
proof -
  obtain b0 b1 where b: "seq_inv toy_ext seq_after [b0, b1]" "txs b1 = []"
    "txs_root (header b1) = compute_txs_root toy_ext []" "anchor_outpoint (header b0) = Some (OutPoint 6 1)"
    "L2BlockHeader.l1_height (header b0) = 90" by (rule sample_chain2)
  note node = sample_node_inv [OF b(1,4,5)]
  have reads: "node_get_anchor toy_ext (fn_store full_node_disk) = Inr (Some (OutPoint 6 1))"
    "node_l1_cursor (fn_store full_node_disk) = Inr (Some 90)"
    using node(2,3) by (auto simp: full_node_disk_def node_get_anchor_def node_l1_cursor_def node_kv_get_def split: if_splits)
  have head: "nh_height (fn_head full_node_disk) = 0" "att_height (ca_attestation sample_advance) = 1"
  proof -
    have "bh_height (header b0) = 0" using chain_genesis [OF seq_inv_chain [OF b(1)]] by (simp add: genesis_ok_def)
    then show "nh_height (fn_head full_node_disk) = 0" using node(4) by (simp add: full_node_disk_def)
    show "att_height (ca_attestation sample_advance) = 1"
      using seq_inv_height [OF b(1)]
      by (simp add: sample_advance_def seq_after_attestation_def Attestation_new_def word_unat_eq_iff)
  qed
  have acc: "accepts toy_ext node_rpc seq_service 1 (Some seq_after_attestation) full_node_disk b1 (sh_state seq_after)"
    by (rule sample_accepts [OF b]) (simp_all add: full_node_disk_def)
  have h: "bh_height (header b1) = 1" using acc by (simp add: accepts_def)
  have "node_get_block (fn_store sample_node) 1 = Inr None"
    using node_inv_mirrors [OF node(1)] by (simp add: node_db.mirrors_def)
  then have free: "fmlookup (nd_blocks (fn_store sample_node)) 1 = None" by (simp add: node_get_block_def split: if_splits)
  moreover from this have "fmlookup (nd_snapshots (fn_store sample_node)) 1 = None"
    "fmlookup (nd_witnesses (fn_store sample_node)) 1 = None"
    using node(1) by (auto simp: node_inv_def node_ready.holds_def node_healthy_def fmdom_notD fmdom_notI)
  ultimately obtain s where s: "node_write_block_and_state (fn_store full_node_disk) b1 (sh_state seq_after)
      (BlockWitness_build toy_ext (fn_state full_node_disk) (txs b1) 1) = Inr s" "nd_fault s UpsertKv"
    using h by (simp add: node_write_block_and_state_def full_node_disk_def Let_def)
  have "blocks_above 0 1 = [1]" by (simp add: blocks_above_def)
  then obtain q1 where q1: "op_iter (follow_one toy_ext node_rpc seq_service (ca_attestation sample_advance))
      (blocks_above (nh_height (fn_head full_node_disk)) (att_height (ca_attestation sample_advance))) full_node_disk = (Inr (), q1)"
    "fn_store q1 = s"
    using apply_one_accepted [OF acc] s(1) head
    by (simp add: op_bind_def follow_one_def sample_advance_def)
  then have "node_set_anchor toy_ext (fn_store q1) (ca_new_anchor sample_advance) = Inl SqlError"
    using s(2) by (simp add: node_set_anchor_def node_kv_put_def)
  moreover have "node_block_count node_rpc = Inr 100" by (simp add: node_block_count_def node_rpc_def)
  moreover have "nh_height (fn_head full_node_disk) < att_height (ca_attestation sample_advance)" using head by simp
  ultimately show ?thesis
    using anchor_write_failure_livelocks [OF reads _ _ _ _ q1(1), of 100 SqlError seq_service] sample_scan by auto
qed

text \<open>An interrupted cold start is never completed. If the database takes the genesis block but
  refuses the key-value writes after it, start-up fails; the next start, with the database
  answering again, resumes from the snapshot and succeeds, but no anchor is stored, so every scan
  of L1 fails for good.\<close>

theorem interrupted_cold_start_wedges:
  assumes "srv_block srv 0 = Inr b" and "genesis_ok x b" and "L2BlockHeader.l1_height (header b) = g"
    and "anchor_outpoint (header b) = Some a"
  shows "\<exists>s st. node_bootstrap x g srv (node_open\<lparr>nd_fault := (\<lambda>k. k = UpsertKv)\<rparr>) = (Inl SqlError, s) \<and>
    (let s' = s\<lparr>nd_fault := (\<lambda>_. False)\<rparr>; q = node_new st (node_head_of x b) s'
     in node_bootstrap x g srv s' = (Inr (st, node_head_of x b), s') \<and>
        (\<forall>c srv' h. scan_round x c srv' h q = (Inl Anyhow.NoAnchor, q)))"
proof -
  let ?st = "genesis_ledger (bh_fee_address (header b))"
  have g: "check_genesis x g b = Inr (?st, a)" using assms by (simp add: check_genesis_ok)
  let ?w = "BlockWitness_build x ?st (txs b) 0" and ?o = "node_open\<lparr>nd_fault := (\<lambda>k. k = UpsertKv)\<rparr>"
  have h: "bh_height (header b) = 0" using assms(2) by (simp add: genesis_ok_def)
  obtain s where s: "node_write_block_and_state ?o b ?st ?w = Inr s"
    by (simp add: node_write_block_and_state_def node_open_def Let_def)
  then have f: "fmlookup (nd_blocks s) 0 = Some b" "nd_snapshots s = fmupd 0 ?st fmempty" "nd_fault s = (\<lambda>k. k = UpsertKv)"
    "nd_kv s = fmupd ''l2_head_height'' (u32_to_string 0) fmempty"
    using h by (auto simp: node_write_block_and_state_def node_open_def Let_def)
  have "node_load_latest_state ?o = Inr None" by (simp add: node_load_latest_state_def node_open_def)
  then have one: "node_bootstrap x g srv ?o = (Inl SqlError, s)"
    using assms(1) g s f(3)
    by (simp add: node_bootstrap_def node_cold_start_def op_bind_def op_result_def op_write_def
        seq_client_get_block_def Let_def node_set_l1_cursor_def node_kv_put_def)
  let ?s = "s\<lparr>nd_fault := (\<lambda>_. False)\<rparr>"
  have "node_load_latest_state ?s = Inr (Some (0, ?st))"
    using f(2) by (simp add: node_load_latest_state_def latest_row_def)
  moreover have "node_resume x 0 ?st ?s = Inr (?st, node_head_of x b)"
    using f(1,4) by (simp add: node_resume_def node_get_block_def node_l1_cursor_def node_kv_get_def)
  ultimately have two: "node_bootstrap x g srv ?s = (Inr (?st, node_head_of x b), ?s)"
    by (simp add: node_bootstrap_def op_bind_def op_result_def)
  have "node_get_anchor x ?s = Inr None" using f(4) by (simp add: node_get_anchor_def node_kv_get_def)
  then have "scan_round x c srv' h' (node_new ?st (node_head_of x b) ?s) =
      (Inl Anyhow.NoAnchor, node_new ?st (node_head_of x b) ?s)" for c srv' h'
    by (simp add: scan_round_def op_bind_def node_read_eq node_new_def)
  then show ?thesis using one two unfolding Let_def by blast
qed

theorem interrupted_cold_start_wedges_witness:
  "\<exists>b s st. node_bootstrap toy_ext 90 seq_service (node_open\<lparr>nd_fault := (\<lambda>k. k = UpsertKv)\<rparr>) = (Inl SqlError, s) \<and>
    (let s' = s\<lparr>nd_fault := (\<lambda>_. False)\<rparr>; q = node_new st (node_head_of toy_ext b) s'
     in node_bootstrap toy_ext 90 seq_service s' = (Inr (st, node_head_of toy_ext b), s') \<and>
        (\<forall>c srv' h. scan_round toy_ext c srv' h q = (Inl Anyhow.NoAnchor, q)))"
proof -
  obtain b0 b1 where b: "seq_inv toy_ext seq_after [b0, b1]" "txs b1 = []"
    "txs_root (header b1) = compute_txs_root toy_ext []" "anchor_outpoint (header b0) = Some (OutPoint 6 1)"
    "L2BlockHeader.l1_height (header b0) = 90" by (rule sample_chain2)
  have "genesis_ok toy_ext b0" using chain_genesis [OF seq_inv_chain [OF b(1)]] by simp
  moreover have "srv_block seq_service 0 = Inr b0" using seq_router_block [OF b(1)] by (simp add: seq_service_def)
  ultimately show ?thesis using interrupted_cold_start_wedges [OF _ _ b(5,4)] by blast
qed

text \<open>Inside a range the transaction root is not checked. If the node accepts a block that is not the
  attested end of its range, it also accepts the block with any other transaction root in its
  header, and reaches the same ledger; only the block hash differs.\<close>

theorem intermediate_txs_root_unchecked:
  assumes "node_inv x q bs" and "unat h = length bs"
    and "srv_block srv h = Inr b" and "apply_one_l2_block x c srv h None q = (Inr (), q')"
    and "srv_block srv' h = Inr (b\<lparr>header := (header b)\<lparr>txs_root := r\<rparr>\<rparr>)"
  shows "\<exists>q''. apply_one_l2_block x c srv' h None q = (Inr (), q'') \<and> fn_state q'' = fn_state q' \<and>
    nh_block_hash (fn_head q'') = block_hash x ((header b)\<lparr>txs_root := r\<rparr>)"
proof -
  obtain S' where acc: "accepts x c srv h None q b S'"
    using apply_one_refused [of x c srv h None q] assms(3,4) by (fastforce simp: accepts_def)
  then have acc': "accepts x c srv' h None q (b\<lparr>header := (header b)\<lparr>txs_root := r\<rparr>\<rparr>) S'"
    using assms(5) by (simp add: accepts_def)
  have "fn_state q' = S'" using assms(4) unfolding apply_one_accepted [OF acc] by (auto split: sum.splits)
  moreover obtain q'' where q'': "apply_one_l2_block x c srv' h None q = (Inr (), q'')"
    using apply_one_extends [OF assms(1,2) acc'] by blast
  moreover have "fn_state q'' = S'" "nh_block_hash (fn_head q'') = block_hash x ((header b)\<lparr>txs_root := r\<rparr>)"
    using q'' unfolding apply_one_accepted [OF acc'] by (auto simp: L2Block_hash_def split: sum.splits)
  ultimately show ?thesis by blast
qed

theorem intermediate_txs_root_unchecked_witness:
  "\<exists>b q'. apply_one_l2_block toy_ext node_rpc (seq_service\<lparr>srv_block := (\<lambda>_. Inr b)\<rparr>) 1 None sample_node = (Inr (), q') \<and>
    txs_root (header b) = 7 \<and> txs b = []"
proof -
  obtain b0 b1 where b: "seq_inv toy_ext seq_after [b0, b1]" "txs b1 = []"
    "txs_root (header b1) = compute_txs_root toy_ext []" "anchor_outpoint (header b0) = Some (OutPoint 6 1)"
    "L2BlockHeader.l1_height (header b0) = 90" by (rule sample_chain2)
  note node = sample_node_inv(1) [OF b(1,4,5)]
  let ?b = "b1\<lparr>header := (header b1)\<lparr>txs_root := 7\<rparr>\<rparr>"
  have served: "srv_block seq_service 1 = Inr b1" using seq_router_block [OF b(1)] by (simp add: seq_service_def)
  obtain q' where q': "apply_one_l2_block toy_ext node_rpc seq_service 1 None sample_node = (Inr (), q')"
    using apply_one_extends [OF node _ sample_accepts [OF b _ refl refl, of None]] by auto
  have "srv_block (seq_service\<lparr>srv_block := (\<lambda>_. Inr ?b)\<rparr>) 1 = Inr ?b" by simp
  from intermediate_txs_root_unchecked [OF node _ served q' this] b(2) show ?thesis
    by (intro exI [of _ ?b]) auto
qed

end
