(* ===== verification/Encryption.thy ===== *)
theory Encryption
  imports Effect
begin

text \<open>
  \<open>hodl-wallet/src/encryption.rs\<close>: the optional encryption of a wallet's mnemonic under a
  passphrase. Argon2id, XChaCha20-Poly1305, Base64 and the key derivation of the \<open>bip39\<close> and
  \<open>bitcoin\<close> crates are third-party code, the record \<open>vault\<close>; what a theorem needs of them is
  \<open>vault_ok\<close>. Random salts and nonces are arguments. Zeroing a dropped key and the redacted
  \<open>Debug\<close> form are not modelled.
\<close>

record KdfParams =
  m_cost :: u32
  t_cost :: u32
  p_cost :: u32

record EncryptedMnemonic =
  em_kdf :: string
  em_kdf_params :: KdfParams
  em_salt_b64 :: string
  em_nonce_b64 :: string
  em_ciphertext_b64 :: string

record UnlockContext =
  uc_key :: bytes
  uc_salt :: bytes
  uc_kdf_params :: KdfParams

record vault =
  argon2id :: "KdfParams \<Rightarrow> bytes \<Rightarrow> bytes \<Rightarrow> bytes option"
  argon2_default :: KdfParams
  aead_encrypt :: "bytes \<Rightarrow> bytes \<Rightarrow> bytes \<Rightarrow> bytes option"
  aead_decrypt :: "bytes \<Rightarrow> bytes \<Rightarrow> bytes \<Rightarrow> bytes option"
  b64_encode :: "bytes \<Rightarrow> string"
  b64_decode :: "string \<Rightarrow> bytes option"
  from_utf8 :: "bytes \<Rightarrow> string option"
  bip39_parse :: "string \<Rightarrow> string option"
  bip39_generate :: "bytes \<Rightarrow> string"
  derive_keypair :: "string \<Rightarrow> Network \<Rightarrow> string \<Rightarrow> Keypair option"

text \<open>What was encoded is decoded, and what was encrypted under a key and a nonce is decrypted
  under them.\<close>

definition vault_ok :: "vault \<Rightarrow> bool" where
  "vault_ok v \<longleftrightarrow>
     (\<forall>b. b64_decode v (b64_encode v b) = Some b) \<and>
     (\<forall>s. from_utf8 v (bytes_of s) = Some s) \<and>
     (\<forall>k n p c. aead_encrypt v k n p = Some c \<longrightarrow> aead_decrypt v k n c = Some p)"

datatype EncryptionError =
    EmptyPassphrase
  | UnsupportedKdf string
  | Base64Error
  | SaltLength nat
  | SaltChanged
  | ParamsChanged
  | KdfFailed
  | AeadFailed
  | NotUtf8
  | NoncePanic nat

definition SALT_LEN :: nat where "SALT_LEN = 16"
definition NONCE_LEN :: nat where "NONCE_LEN = 24"

definition KdfParams_default :: "vault \<Rightarrow> KdfParams" where
  "KdfParams_default v = \<lparr> m_cost = m_cost (argon2_default v), t_cost = t_cost (argon2_default v),
     p_cost = p_cost (argon2_default v) \<rparr>"

definition b64 :: "vault \<Rightarrow> string \<Rightarrow> (EncryptionError, bytes) result" where
  "b64 v s = ok_or (b64_decode v s) Base64Error"

text \<open>\<open>XNonce::from_slice\<close> asserts the length: a nonce of another length stops the program.\<close>

definition open_aead :: "vault \<Rightarrow> bytes \<Rightarrow> bytes \<Rightarrow> bytes \<Rightarrow> (EncryptionError, string) result" where
  "open_aead v key nonce ct =
     (if length nonce \<noteq> NONCE_LEN then Inl (NoncePanic (length nonce))
      else rbind (ok_or (aead_decrypt v key nonce ct) AeadFailed) (\<lambda>pt. ok_or (from_utf8 v pt) NotUtf8))"

definition UnlockContext_decrypt :: "vault \<Rightarrow> UnlockContext \<Rightarrow> EncryptedMnemonic \<Rightarrow> (EncryptionError, string) result" where
  "UnlockContext_decrypt v ctx blob =
     (if em_kdf blob \<noteq> ''argon2id'' then Inl (UnsupportedKdf (em_kdf blob))
      else
        rbind (b64 v (em_salt_b64 blob)) (\<lambda>salt_bytes.
        if salt_bytes \<noteq> uc_salt ctx then Inl SaltChanged
        else if m_cost (em_kdf_params blob) \<noteq> m_cost (uc_kdf_params ctx)
            \<or> t_cost (em_kdf_params blob) \<noteq> t_cost (uc_kdf_params ctx)
            \<or> p_cost (em_kdf_params blob) \<noteq> p_cost (uc_kdf_params ctx)
        then Inl ParamsChanged
        else
          rbind (b64 v (em_nonce_b64 blob)) (\<lambda>nonce_bytes.
          rbind (b64 v (em_ciphertext_b64 blob)) (\<lambda>ct.
          open_aead v (uc_key ctx) nonce_bytes ct))))"

definition derive_key :: "vault \<Rightarrow> string \<Rightarrow> bytes \<Rightarrow> KdfParams \<Rightarrow> (EncryptionError, bytes) result" where
  "derive_key v passphrase salt params = ok_or (argon2id v params (bytes_of passphrase) salt) KdfFailed"

definition encrypt_with_key :: "vault \<Rightarrow> bytes \<Rightarrow> string \<Rightarrow> bytes \<Rightarrow> (EncryptionError, string \<times> string) result" where
  "encrypt_with_key v nonce plaintext key =
     rbind (ok_or (aead_encrypt v key nonce (bytes_of plaintext)) AeadFailed) (\<lambda>ct.
     Inr (b64_encode v nonce, b64_encode v ct))"

definition encrypt_new ::
    "vault \<Rightarrow> bytes \<Rightarrow> bytes \<Rightarrow> string \<Rightarrow> string \<Rightarrow> (EncryptionError, EncryptedMnemonic \<times> UnlockContext) result" where
  "encrypt_new v salt nonce mnemonic passphrase =
     (if passphrase = [] then Inl EmptyPassphrase
      else
        let params = KdfParams_default v
        in rbind (derive_key v passphrase salt params) (\<lambda>key.
           rbind (encrypt_with_key v nonce mnemonic key) (\<lambda>(nonce_b64, ciphertext_b64).
           Inr (\<lparr> em_kdf = ''argon2id'', em_kdf_params = params, em_salt_b64 = b64_encode v salt,
                  em_nonce_b64 = nonce_b64, em_ciphertext_b64 = ciphertext_b64 \<rparr>,
                \<lparr> uc_key = key, uc_salt = salt, uc_kdf_params = params \<rparr>))))"

definition reencrypt :: "vault \<Rightarrow> bytes \<Rightarrow> string \<Rightarrow> UnlockContext \<Rightarrow> (EncryptionError, EncryptedMnemonic) result" where
  "reencrypt v nonce mnemonic ctx =
     rbind (encrypt_with_key v nonce mnemonic (uc_key ctx)) (\<lambda>(nonce_b64, ciphertext_b64).
     Inr \<lparr> em_kdf = ''argon2id'', em_kdf_params = uc_kdf_params ctx, em_salt_b64 = b64_encode v (uc_salt ctx),
           em_nonce_b64 = nonce_b64, em_ciphertext_b64 = ciphertext_b64 \<rparr>)"

definition decrypt :: "vault \<Rightarrow> EncryptedMnemonic \<Rightarrow> string \<Rightarrow> (EncryptionError, string \<times> UnlockContext) result" where
  "decrypt v blob passphrase =
     (if em_kdf blob \<noteq> ''argon2id'' then Inl (UnsupportedKdf (em_kdf blob))
      else
        rbind (b64 v (em_salt_b64 blob)) (\<lambda>salt.
        if length salt \<noteq> SALT_LEN then Inl (SaltLength (length salt))
        else
          rbind (b64 v (em_nonce_b64 blob)) (\<lambda>nonce_bytes.
          rbind (b64 v (em_ciphertext_b64 blob)) (\<lambda>ct.
          rbind (derive_key v passphrase salt (em_kdf_params blob)) (\<lambda>key.
          rbind (open_aead v key nonce_bytes ct) (\<lambda>mnemonic.
          Inr (mnemonic, \<lparr> uc_key = key, uc_salt = salt, uc_kdf_params = em_kdf_params blob \<rparr>)))))))"

section \<open>Round trips\<close>

text \<open>A context that belongs to a passphrase: it was derived from it with its own salt.\<close>

definition unlocks :: "vault \<Rightarrow> string \<Rightarrow> UnlockContext \<Rightarrow> bool" where
  "unlocks v passphrase ctx \<longleftrightarrow> length (uc_salt ctx) = SALT_LEN \<and>
     argon2id v (uc_kdf_params ctx) (bytes_of passphrase) (uc_salt ctx) = Some (uc_key ctx)"

lemma encrypt_new_unlocks:
  "length salt = SALT_LEN \<Longrightarrow> encrypt_new v salt nonce m pp = Inr (blob, ctx) \<Longrightarrow>
     unlocks v pp ctx \<and> reencrypt v nonce m ctx = Inr blob"
  by (auto simp: encrypt_new_def Let_def rbind_eq_Inr unlocks_def derive_key_def reencrypt_def split: if_splits)

lemma open_aead_encrypted:
  "vault_ok v \<Longrightarrow> length nonce = NONCE_LEN \<Longrightarrow> aead_encrypt v key nonce (bytes_of m) = Some ct \<Longrightarrow>
     open_aead v key nonce ct = Inr m"
  by (simp add: open_aead_def vault_ok_def)

lemma reencrypt_parts:
  assumes "reencrypt v nonce m ctx = Inr blob"
  obtains ct where "aead_encrypt v (uc_key ctx) nonce (bytes_of m) = Some ct"
    and "blob = \<lparr> em_kdf = ''argon2id'', em_kdf_params = uc_kdf_params ctx, em_salt_b64 = b64_encode v (uc_salt ctx),
      em_nonce_b64 = b64_encode v nonce, em_ciphertext_b64 = b64_encode v ct \<rparr>"
  using assms by (auto simp: reencrypt_def encrypt_with_key_def rbind_eq_Inr)

lemma decrypt_reencrypted:
  assumes "vault_ok v" and "length nonce = NONCE_LEN" and "unlocks v pp ctx" and "reencrypt v nonce m ctx = Inr blob"
  shows "decrypt v blob pp = Inr (m, ctx)"
proof -
  obtain ct where ct: "aead_encrypt v (uc_key ctx) nonce (bytes_of m) = Some ct"
    and blob: "blob = \<lparr> em_kdf = ''argon2id'', em_kdf_params = uc_kdf_params ctx, em_salt_b64 = b64_encode v (uc_salt ctx),
      em_nonce_b64 = b64_encode v nonce, em_ciphertext_b64 = b64_encode v ct \<rparr>"
    using assms(4) by (rule reencrypt_parts)
  have "b64_decode v (b64_encode v b) = Some b" for b using assms(1) by (simp add: vault_ok_def)
  then show ?thesis
    using assms(3) open_aead_encrypted [OF assms(1,2) ct] unfolding blob
    by (simp add: decrypt_def b64_def unlocks_def derive_key_def)
qed

lemma context_decrypts_reencrypted:
  assumes "vault_ok v" and "length nonce = NONCE_LEN" and "reencrypt v nonce m ctx = Inr blob"
  shows "UnlockContext_decrypt v ctx blob = Inr m"
proof -
  obtain ct where ct: "aead_encrypt v (uc_key ctx) nonce (bytes_of m) = Some ct"
    and blob: "blob = \<lparr> em_kdf = ''argon2id'', em_kdf_params = uc_kdf_params ctx, em_salt_b64 = b64_encode v (uc_salt ctx),
      em_nonce_b64 = b64_encode v nonce, em_ciphertext_b64 = b64_encode v ct \<rparr>"
    using assms(3) by (rule reencrypt_parts)
  have "b64_decode v (b64_encode v b) = Some b" for b using assms(1) by (simp add: vault_ok_def)
  then show ?thesis
    using open_aead_encrypted [OF assms(1,2) ct] unfolding blob
    by (simp add: UnlockContext_decrypt_def b64_def)
qed

text \<open>A context never opens a blob of another salt.\<close>

lemma context_refuses_other_salt:
  assumes "vault_ok v" and "uc_salt ctx \<noteq> uc_salt ctx'" and "reencrypt v nonce m ctx' = Inr blob"
  shows "UnlockContext_decrypt v ctx blob = Inl SaltChanged"
proof -
  have "b64_decode v (b64_encode v b) = Some b" for b using assms(1) by (simp add: vault_ok_def)
  then show ?thesis
    using assms(2) by (rule_tac reencrypt_parts [OF assms(3)]) (simp add: UnlockContext_decrypt_def b64_def)
qed

end
