(* ===== verification/Reclaim.thy ===== *)
theory Reclaim
  imports L1 Tx
begin

text \<open>
  \<open>hodl-wallet/src/reclaim.rs\<close>: the L1 transaction that moves a matured deposit back to its
  owner. The Taproot control block, the script-path signature hash and the address form are
  the \<open>bitcoin\<close> crate's, the record \<open>btc\<close>; an address is its printed form.
\<close>

record TxOutput =
  to_value :: u64
  to_script :: Script

record TxInput =
  previous_output :: OutPoint
  script_sig :: Script
  tx_sequence :: u32
  tx_witness :: "bytes list"

record Transaction =
  tx_version :: nat
  lock_time :: u32
  tx_inputs :: "TxInput list"
  tx_outputs :: "TxOutput list"

record btc =
  address_from_str :: "string \<Rightarrow> string option"
  is_on_network :: "string \<Rightarrow> Network \<Rightarrow> bool"
  address_script :: "string \<Rightarrow> Script"
  control_block_of :: "TaprootSpendInfo \<Rightarrow> Script \<Rightarrow> bytes option"
  commitment_ok :: "bytes \<Rightarrow> XOnlyPublicKey \<Rightarrow> Script \<Rightarrow> bool"
  script_spend_sighash :: "Transaction \<Rightarrow> nat \<Rightarrow> TxOutput list \<Rightarrow> Script \<Rightarrow> H256 option"
  sign_no_aux_rand :: "H256 \<Rightarrow> Keypair \<Rightarrow> Signature"
  tap_signature_bytes :: "Signature \<Rightarrow> bytes"

datatype ReclaimError =
    LockOutOfRange u32
  | FeeAboveValue u64 u64
  | TaprootFailed MintConstructionError
  | NoControlBlock
  | FeeUnderflow
  | SighashFailed
  | WrongControlBlock

text \<open>\<open>Sequence::from_height\<close> of a \<open>u16\<close>.\<close>

definition sequence_from_height :: "16 word \<Rightarrow> u32" where
  "sequence_from_height h = ucast h"

definition unsigned_reclaim_tx :: "btc \<Rightarrow> OutPoint \<Rightarrow> u32 \<Rightarrow> string \<Rightarrow> u64 \<Rightarrow> Transaction" where
  "unsigned_reclaim_tx b mint_outpoint lock_blocks dest out_value =
     \<lparr> tx_version = 2, lock_time = 0,
       tx_inputs = [\<lparr> previous_output = mint_outpoint, script_sig = [],
                      tx_sequence = sequence_from_height (ucast lock_blocks), tx_witness = [] \<rparr>],
       tx_outputs = [\<lparr> to_value = out_value, to_script = address_script b dest \<rparr>] \<rparr>"

definition build_signed_reclaim_tx ::
    "ext \<Rightarrow> btc \<Rightarrow> Keypair \<Rightarrow> OutPoint \<Rightarrow> u64 \<Rightarrow> u32 \<Rightarrow> string \<Rightarrow> u64 \<Rightarrow> (ReclaimError, Transaction) result" where
  "build_signed_reclaim_tx x b mint_kp mint_outpoint mint_value_sat lock_blocks dest fee_sat =
     (if lock_blocks = 0 \<or> MAX_LOCK_BLOCKS < lock_blocks then Inl (LockOutOfRange lock_blocks)
      else if mint_value_sat \<le> fee_sat then Inl (FeeAboveValue fee_sat mint_value_sat)
      else
        let mint_xonly = keypair_xonly x mint_kp
        in rbind (map_err TaprootFailed (derive_mint_taproot x lock_blocks mint_xonly)) (\<lambda>(prev_spk, spend_info).
           rbind (map_err TaprootFailed (csv_tapleaf_script x lock_blocks mint_xonly)) (\<lambda>l_spend.
           rbind (ok_or (control_block_of b spend_info l_spend) NoControlBlock) (\<lambda>control_block.
           rbind (ok_or (checked_sub mint_value_sat fee_sat) FeeUnderflow) (\<lambda>out_value.
           let prev_txout = \<lparr> to_value = mint_value_sat, to_script = prev_spk \<rparr>;
               tx = unsigned_reclaim_tx b mint_outpoint lock_blocks dest out_value
           in rbind (ok_or (script_spend_sighash b tx 0 [prev_txout] l_spend) SighashFailed) (\<lambda>sighash.
              let tap_sig = sign_no_aux_rand b sighash mint_kp;
                  tx = tx\<lparr>tx_inputs := map (\<lambda>i. i\<lparr>tx_witness :=
                         [tap_signature_bytes b tap_sig, l_spend, control_block]\<rparr>) (tx_inputs tx)\<rparr>
              in if \<not> commitment_ok b control_block (taproot_output_key x spend_info) l_spend
                 then Inl WrongControlBlock
                 else Inr tx))))))"

section \<open>The transaction it builds\<close>

text \<open>What a Bitcoin node checks of a script-path spend of the deposit at this lock: version 2,
  one input with the relative lock-time in its sequence, one witness that opens the spend
  leaf of the output being spent, and no value out of nothing.\<close>

definition spends_deposit ::
    "ext \<Rightarrow> btc \<Rightarrow> Keypair \<Rightarrow> OutPoint \<Rightarrow> u64 \<Rightarrow> u32 \<Rightarrow> string \<Rightarrow> u64 \<Rightarrow> Transaction \<Rightarrow> bool" where
  "spends_deposit x b kp p value lock dest fee tx \<longleftrightarrow>
     (\<exists>spk leaf spend cb sighash.
        expected_p2tr_spk x lock (keypair_xonly x kp) = Inr spk \<and>
        csv_tapleaf_script x lock (keypair_xonly x kp) = Inr leaf \<and>
        derive_mint_taproot x lock (keypair_xonly x kp) = Inr (spk, spend) \<and> (1, leaf) \<in> set (tap_leaves spend) \<and>
        control_block_of b spend leaf = Some cb \<and> commitment_ok b cb (taproot_output_key x spend) leaf \<and>
        script_spend_sighash b (unsigned_reclaim_tx b p lock dest (value - fee)) 0
          [\<lparr> to_value = value, to_script = spk \<rparr>] leaf = Some sighash \<and>
        tx = \<lparr> tx_version = 2, lock_time = 0,
               tx_inputs = [\<lparr> previous_output = p, script_sig = [], tx_sequence = lock,
                 tx_witness = [tap_signature_bytes b (sign_no_aux_rand b sighash kp), leaf, cb] \<rparr>],
               tx_outputs = [\<lparr> to_value = value - fee, to_script = address_script b dest \<rparr>] \<rparr>)"

lemma sequence_in_range: "lock_in_range t \<Longrightarrow> sequence_from_height (ucast t) = t"
proof -
  assume "lock_in_range t"
  then have "take_bit 16 t = t" by (rule lock_in_range_mask)
  moreover have "sequence_from_height (ucast t) = take_bit 16 t"
    unfolding sequence_from_height_def by (rule bit_word_eqI) (auto simp: bit_simps)
  ultimately show ?thesis by simp
qed

lemma mint_taproot_leaf:
  assumes "derive_mint_taproot x lock pk = Inr (spk, spend)" and "csv_tapleaf_script x lock pk = Inr leaf"
  shows "(1, leaf) \<in> set (tap_leaves spend) \<and> expected_p2tr_spk x lock pk = Inr spk"
  using assms by (auto simp: derive_mint_taproot_def expected_p2tr_spk_def Let_def)

lemma reclaim_tx_spends:
  assumes "build_signed_reclaim_tx x b kp p value lock dest fee = Inr tx"
  shows "lock_in_range lock \<and> fee < value \<and> spends_deposit x b kp p value lock dest fee tx"
proof -
  have range: "lock_in_range lock" "fee < value" "fee \<le> value"
    using assms by (auto simp: build_signed_reclaim_tx_def lock_in_range_iff not_le split: if_splits)
  obtain spk spend leaf cb sighash where
    built: "derive_mint_taproot x lock (keypair_xonly x kp) = Inr (spk, spend)"
      "csv_tapleaf_script x lock (keypair_xonly x kp) = Inr leaf"
      "control_block_of b spend leaf = Some cb" "commitment_ok b cb (taproot_output_key x spend) leaf"
      "script_spend_sighash b (unsigned_reclaim_tx b p lock dest (value - fee)) 0
        [\<lparr> to_value = value, to_script = spk \<rparr>] leaf = Some sighash"
      "tx = (unsigned_reclaim_tx b p lock dest (value - fee))\<lparr>tx_inputs := map (\<lambda>i. i\<lparr>tx_witness :=
         [tap_signature_bytes b (sign_no_aux_rand b sighash kp), leaf, cb]\<rparr>)
         (tx_inputs (unsigned_reclaim_tx b p lock dest (value - fee)))\<rparr>"
    using assms range by (auto simp: build_signed_reclaim_tx_def rbind_eq_Inr checked_sub_def Let_def split: if_splits)
  then have "tx = \<lparr> tx_version = 2, lock_time = 0,
      tx_inputs = [\<lparr> previous_output = p, script_sig = [], tx_sequence = lock,
        tx_witness = [tap_signature_bytes b (sign_no_aux_rand b sighash kp), leaf, cb] \<rparr>],
      tx_outputs = [\<lparr> to_value = value - fee, to_script = address_script b dest \<rparr>] \<rparr>"
    by (simp add: unsigned_reclaim_tx_def sequence_in_range [OF range(1)])
  with built(1-5) mint_taproot_leaf [OF built(1,2)] range show ?thesis
    unfolding spends_deposit_def by blast
qed

lemma reclaim_tx_built:
  assumes "lock_in_range lock" and "fee < value"
    and "\<And>i l. \<exists>cb. control_block_of b i l = Some cb \<and> commitment_ok b cb (taproot_output_key x i) l"
    and "\<And>tx n outs l. \<exists>h. script_spend_sighash b tx n outs l = Some h"
  shows "\<exists>tx. build_signed_reclaim_tx x b kp p value lock dest fee = Inr tx"
proof -
  have "is_ok (csv_tapleaf_script x lock (keypair_xonly x kp))"
    using assms(1) by (simp add: is_ok_iff csv_tapleaf_script_def rbind_eq_Inr)
  then obtain leaf where leaf: "csv_tapleaf_script x lock (keypair_xonly x kp) = Inr leaf" by (auto simp: is_ok_iff)
  obtain spk i where i: "derive_mint_taproot x lock (keypair_xonly x kp) = Inr (spk, i)"
    by (simp add: derive_mint_taproot_def leaf Let_def)
  obtain cb where cb: "control_block_of b i leaf = Some cb" "commitment_ok b cb (taproot_output_key x i) leaf"
    using assms(3) by blast
  have out: "checked_sub value fee = Some (value - fee)" using assms(2) by (simp add: checked_sub_def)
  obtain h where h: "script_spend_sighash b (unsigned_reclaim_tx b p lock dest (value - fee)) 0
      [\<lparr> to_value = value, to_script = spk \<rparr>] leaf = Some h" using assms(4) by blast
  have "lock \<noteq> 0 \<and> \<not> MAX_LOCK_BLOCKS < lock \<and> \<not> value \<le> fee"
    using assms(1,2) by (simp add: lock_in_range_iff not_less not_le)
  then show ?thesis
    by (simp add: build_signed_reclaim_tx_def leaf i cb out h Let_def)
qed

end
