(* ===== verification/WalletFile.thy ===== *)
theory WalletFile
  imports Encryption LightClient Address Reclaim
begin

text \<open>
  \<open>hodl-wallet/src/wallet.rs\<close>: the wallet file, its mint records and its transaction history,
  the two on-disk shapes, and the keys derived from the mnemonic. On disk a wallet is the JSON
  object that \<open>save\<close> writes, seen as the fields that \<open>read_disk\<close> finds in it; a file may also
  hold anything else, which does not parse. The clock and the random identifiers are arguments
  (\<open>Supply\<close>: the readings of one operation in order). What an operation sends to the URLs of the
  wallet goes to the \<open>ApiClient\<close> and \<open>EsploraClient\<close> that stand behind them.
\<close>

section \<open>Records\<close>

record MintRecord =
  mr_mint_address :: string
  mr_lock_blocks :: u32
  mr_bip32_index :: u32
  mr_outpoint :: "string option"
  mr_value_sat :: "u64 option"
  mr_funded_at_height :: "u32 option"
  mr_minted :: bool
  mr_reclaimed :: bool

datatype TxKind = L1Deposit | L1Reclaim | L2MintApply | L2TransferSent | L2TransferReceived

datatype WalletTxStatus =
    Soft u64
  | L1Mempool u64
  | InBlock u32 u32 u64
  | Finalized u32 u32
  | Failed string u64

record TxRecord =
  tr_id :: string
  tr_kind :: TxKind
  tr_created_ts :: u64
  tr_amount :: u64
  tr_fee_atoms :: "u64 option"
  tr_fee_sat :: "u64 option"
  tr_counterparty :: "string option"
  tr_status :: WalletTxStatus
  tr_l1_txid :: "string option"
  tr_l2_sighash :: "string option"
  tr_bip32_index :: "u32 option"
  tr_note :: "string option"

record WalletFile =
  wf_network :: NetworkName
  wf_mnemonic :: string
  wf_sequencer_url :: string
  wf_node_url :: "string option"
  wf_esplora_url :: string
  wf_next_mint_index :: u32
  wf_mints :: "MintRecord list"
  wf_verified_head :: "VerifiedHead option"
  wf_transactions :: "TxRecord list"
  wf_encryption_ctx :: "UnlockContext option"

record DiskLoad =
  dl_version :: "u32 option"
  dl_network :: NetworkName
  dl_mnemonic :: "string option"
  dl_encrypted_mnemonic :: "EncryptedMnemonic option"
  dl_sequencer_url :: string
  dl_node_url :: "string option"
  dl_esplora_url :: string
  dl_next_mint_index :: u32
  dl_mints :: "MintRecord list"
  dl_verified_head :: "VerifiedHead option"
  dl_transactions :: "TxRecord list"

datatype WalletError =
    FileError
  | ParseError
  | VersionMismatch "u32 option"
  | NeedsPassphrase
  | NoMnemonic
  | NotEncrypted
  | Enc EncryptionError
  | UnknownNetwork string
  | BadMnemonic
  | KeyDerivation
  | MintIndexOverflow
  | LockBlocksRange
  | NoMintRecord u32
  | NotFunded u32
  | NoValue u32
  | NotConfirmed u32
  | BadOutpoint
  | BadMintAddress
  | BadDestination
  | BadL2Address AddressError
  | EsploraError HttpError
  | WalletApi HttpError
  | Verify VerifyError
  | WalkFailed WalkError
  | GenesisWithoutAnchor
  | ResponseInconsistent H256 H256
  | AgainstMismatch H256 H256
  | ProofAddress L2Address L2Address
  | ProofInvalid
  | LeafBalance u64 u64
  | LeafNonce u64 u64
  | EmptyLeafBalance u64 u64
  | HeadAddress L2Address
  | HeadMismatch H256 H256
  | LeafMismatch
  | AlreadyReclaimed u32
  | NotReclaimable u32 u32 u32
  | Reclaiming ReclaimError
  | ExpectFailed
  | BadName string
  | BadHash
  | PromptFailed
  | WalletExists string
  | NoSelection
  | NoSuchWallet string
  | WalletLocked string

type_synonym 'a wallet_op = "(WalletFile, WalletError, 'a) act"

definition HODLCHAIN_PURPOSE :: u32 where "HODLCHAIN_PURPOSE = 0x484F444C"
definition WALLET_REORG_FINALITY_DEPTH :: u32 where "WALLET_REORG_FINALITY_DEPTH = 2"

record Supply =
  now_at :: "nat \<Rightarrow> u64"
  random_at :: "nat \<Rightarrow> u64"

text \<open>\<open>format!("{:016x}")\<close> of a random number.\<close>

definition new_tx_id :: "u64 \<Rightarrow> string" where
  "new_tx_id r = map (\<lambda>i. hex_digit (unat (take_bit 4 (drop_bit (4 * i) r)))) (rev [0..<16])"

definition network_from_str :: "string \<Rightarrow> (WalletError, NetworkName) result" where
  "network_from_str s = ok_or (from_str_ci s) (UnknownNetwork s)"

definition wallet_parse_outpoint :: "ext \<Rightarrow> string \<Rightarrow> (WalletError, OutPoint) result" where
  "wallet_parse_outpoint x s =
     rbind (ok_or (split_once CHR '':'' s) BadOutpoint) (\<lambda>(t, v).
     rbind (ok_or (txid_from_str x t) BadOutpoint) (\<lambda>t.
     rbind (ok_or (parse_u32 v) BadOutpoint) (\<lambda>v. Inr (OutPoint t v))))"

section \<open>On disk\<close>

definition with_disk :: "DiskLoad \<Rightarrow> string \<Rightarrow> UnlockContext option \<Rightarrow> WalletFile" where
  "with_disk disk mnemonic ctx =
     \<lparr> wf_network = dl_network disk, wf_mnemonic = mnemonic, wf_sequencer_url = dl_sequencer_url disk,
       wf_node_url = dl_node_url disk, wf_esplora_url = dl_esplora_url disk,
       wf_next_mint_index = dl_next_mint_index disk, wf_mints = dl_mints disk,
       wf_verified_head = dl_verified_head disk, wf_transactions = dl_transactions disk,
       wf_encryption_ctx = ctx \<rparr>"

definition from_disk :: "vault \<Rightarrow> DiskLoad \<Rightarrow> string option \<Rightarrow> (WalletError, WalletFile) result" where
  "from_disk v disk passphrase =
     rbind (case dl_encrypted_mnemonic disk of
         Some blob \<Rightarrow>
           if dl_version disk \<noteq> Some 2 then Inl (VersionMismatch (dl_version disk))
           else
             rbind (ok_or passphrase NeedsPassphrase) (\<lambda>pp.
             rbind (map_err Enc (decrypt v blob pp)) (\<lambda>(mn, ctx). Inr (mn, Some ctx)))
       | None \<Rightarrow> (case dl_mnemonic disk of Some mn \<Rightarrow> Inr (mn, None) | None \<Rightarrow> Inl NoMnemonic))
     (\<lambda>(mnemonic, ctx). Inr (with_disk disk mnemonic ctx))"

definition to_disk :: "vault \<Rightarrow> bytes \<Rightarrow> WalletFile \<Rightarrow> (WalletError, DiskLoad) result" where
  "to_disk v nonce w =
     (let disk = (\<lambda>version mnemonic blob.
        \<lparr> dl_version = version, dl_network = wf_network w, dl_mnemonic = mnemonic,
          dl_encrypted_mnemonic = blob, dl_sequencer_url = wf_sequencer_url w,
          dl_node_url = wf_node_url w, dl_esplora_url = wf_esplora_url w,
          dl_next_mint_index = wf_next_mint_index w, dl_mints = wf_mints w,
          dl_verified_head = wf_verified_head w, dl_transactions = wf_transactions w \<rparr>)
      in case wf_encryption_ctx w of
           Some ctx \<Rightarrow>
             rbind (map_err Enc (reencrypt v nonce (wf_mnemonic w) ctx)) (\<lambda>blob.
             Inr (disk (Some 2) None (Some blob)))
         | None \<Rightarrow> Inr (disk None (Some (wf_mnemonic w)) None))"

text \<open>A directory of files: a wallet, or text that does not parse. A refused write may leave
  anything in the temporary file.\<close>

datatype FileContent = Json DiskLoad | Other string
datatype FsOp = FsRead | FsWrite | FsRename

record Files =
  fs_files :: "string \<rightharpoonup> FileContent"
  fs_fault :: "FsOp \<Rightarrow> bool"
  fs_torn :: FileContent

definition read_disk :: "Files \<Rightarrow> string \<Rightarrow> (WalletError, DiskLoad) result" where
  "read_disk fs file =
     (if fs_fault fs FsRead then Inl FileError
      else (case fs_files fs file of
              None \<Rightarrow> Inl FileError
            | Some (Other _) \<Rightarrow> Inl ParseError
            | Some (Json d) \<Rightarrow> Inr d))"

definition fs_write :: "string \<Rightarrow> FileContent \<Rightarrow> (Files, WalletError, unit) act" where
  "fs_write file data fs =
     (if fs_fault fs FsWrite then (Inl FileError, fs\<lparr>fs_files := (fs_files fs)(file \<mapsto> fs_torn fs)\<rparr>)
      else (Inr (), fs\<lparr>fs_files := (fs_files fs)(file \<mapsto> data)\<rparr>))"

definition fs_rename :: "string \<Rightarrow> string \<Rightarrow> (Files, WalletError, unit) act" where
  "fs_rename a b fs =
     (case fs_files fs a of
        None \<Rightarrow> (Inl FileError, fs)
      | Some c \<Rightarrow>
          if fs_fault fs FsRename then (Inl FileError, fs)
          else (Inr (), fs\<lparr>fs_files := ((fs_files fs)(a := None))(b \<mapsto> c)\<rparr>))"

text \<open>\<open>Path::with_extension\<close> on a file whose last component is a file name.\<close>

definition with_extension :: "string \<Rightarrow> string \<Rightarrow> string" where
  "with_extension file e =
     (let name = rev (takeWhile (\<lambda>c. c \<noteq> CHR ''/'') (rev file));
          dir = take (length file - length name) file;
          cut = rev (dropWhile (\<lambda>c. c \<noteq> CHR ''.'') (rev name));
          stem = (if length cut \<le> 1 then name else butlast cut)
      in dir @ stem @ CHR ''.'' # e)"

definition WalletFile_save :: "vault \<Rightarrow> bytes \<Rightarrow> WalletFile \<Rightarrow> string \<Rightarrow> (Files, WalletError, unit) act" where
  "WalletFile_save v nonce w file =
     (let tmp = with_extension file ''json.tmp''
      in op_bind (op_result (\<lambda>_. to_disk v nonce w)) (\<lambda>d.
         op_bind (fs_write tmp (Json d)) (\<lambda>_.
         fs_rename tmp file)))"

definition WalletFile_load :: "vault \<Rightarrow> Files \<Rightarrow> string \<Rightarrow> (WalletError, WalletFile) result" where
  "WalletFile_load v fs file = rbind (read_disk fs file) (\<lambda>disk. from_disk v disk None)"

definition load_unlocked :: "vault \<Rightarrow> Files \<Rightarrow> string \<Rightarrow> string option \<Rightarrow> (WalletError, WalletFile) result" where
  "load_unlocked v fs file passphrase = rbind (read_disk fs file) (\<lambda>disk. from_disk v disk passphrase)"

definition is_encrypted_at :: "Files \<Rightarrow> string \<Rightarrow> (WalletError, bool) result" where
  "is_encrypted_at fs file = rbind (read_disk fs file) (\<lambda>disk. Inr (dl_encrypted_mnemonic disk \<noteq> None))"

definition load_with_context :: "vault \<Rightarrow> Files \<Rightarrow> string \<Rightarrow> UnlockContext \<Rightarrow> (WalletError, WalletFile) result" where
  "load_with_context v fs file ctx =
     rbind (read_disk fs file) (\<lambda>disk.
     rbind (ok_or (dl_encrypted_mnemonic disk) NotEncrypted) (\<lambda>blob.
     rbind (map_err Enc (UnlockContext_decrypt v ctx blob)) (\<lambda>mnemonic.
     Inr (with_disk disk mnemonic (Some ctx)))))"

definition take_encryption_ctx :: "WalletFile \<Rightarrow> UnlockContext option \<times> WalletFile" where
  "take_encryption_ctx w = (wf_encryption_ctx w, w\<lparr>wf_encryption_ctx := None\<rparr>)"

definition encrypt_in_place :: "vault \<Rightarrow> bytes \<Rightarrow> bytes \<Rightarrow> string \<Rightarrow> unit wallet_op" where
  "encrypt_in_place v salt nonce passphrase =
     op_write (\<lambda>w. rbind (map_err Enc (encrypt_new v salt nonce (wf_mnemonic w) passphrase)) (\<lambda>(_, ctx).
       Inr (w\<lparr>wf_encryption_ctx := Some ctx\<rparr>)))"

definition is_encrypted :: "WalletFile \<Rightarrow> bool" where
  "is_encrypted w \<longleftrightarrow> wf_encryption_ctx w \<noteq> None"

section \<open>Keys\<close>

definition mint_key_path :: "WalletFile \<Rightarrow> u32 \<Rightarrow> string" where
  "mint_key_path w index =
     ''m/'' @ u32_to_string HODLCHAIN_PURPOSE @ [CHR 0x27, CHR ''/''] @ u32_to_string (slip44_coin_type (wf_network w))
       @ [CHR 0x27] @ ''/0'' @ [CHR 0x27] @ ''/0/'' @ u32_to_string index"

definition l2_identity_path :: "WalletFile \<Rightarrow> string" where
  "l2_identity_path w =
     ''m/'' @ u32_to_string HODLCHAIN_PURPOSE @ [CHR 0x27, CHR ''/''] @ u32_to_string (slip44_coin_type (wf_network w))
       @ [CHR 0x27] @ ''/1'' @ [CHR 0x27] @ ''/0/0''"

definition wallet_key :: "vault \<Rightarrow> WalletFile \<Rightarrow> string \<Rightarrow> (WalletError, Keypair) result" where
  "wallet_key v w file =
     rbind (ok_or (bip39_parse v (str_trim (wf_mnemonic w))) BadMnemonic) (\<lambda>phrase.
     ok_or (derive_keypair v phrase (into_bitcoin (wf_network w)) file) KeyDerivation)"

definition mint_keypair :: "vault \<Rightarrow> WalletFile \<Rightarrow> u32 \<Rightarrow> (WalletError, Keypair) result" where
  "mint_keypair v w index = wallet_key v w (mint_key_path w index)"

definition l2_identity_keypair :: "vault \<Rightarrow> WalletFile \<Rightarrow> (WalletError, Keypair) result" where
  "l2_identity_keypair v w = wallet_key v w (l2_identity_path w)"

definition l2_identity_xonly :: "ext \<Rightarrow> vault \<Rightarrow> WalletFile \<Rightarrow> (WalletError, XOnlyPublicKey) result" where
  "l2_identity_xonly x v w = rbind (l2_identity_keypair v w) (\<lambda>kp. Inr (keypair_xonly x kp))"

definition allocate_mint_keypair :: "vault \<Rightarrow> (Keypair \<times> u32) wallet_op" where
  "allocate_mint_keypair v =
     op_bind (op_gets wf_next_mint_index) (\<lambda>index.
     op_bind (op_result (\<lambda>w. mint_keypair v w index)) (\<lambda>kp.
     op_bind (op_write (\<lambda>w. rbind (ok_or (checked_add (wf_next_mint_index w) 1) MintIndexOverflow) (\<lambda>n.
       Inr (w\<lparr>wf_next_mint_index := n\<rparr>)))) (\<lambda>_.
     op_return (kp, index))))"

section \<open>Records of the file\<close>

definition append_mint :: "MintRecord \<Rightarrow> WalletFile \<Rightarrow> WalletFile" where
  "append_mint m w = w\<lparr>wf_mints := wf_mints w @ [m]\<rparr>"

definition append_tx :: "TxRecord \<Rightarrow> WalletFile \<Rightarrow> WalletFile" where
  "append_tx t w = w\<lparr>wf_transactions := wf_transactions w @ [t]\<rparr>"

definition find_mint_by_index :: "u32 \<Rightarrow> WalletFile \<Rightarrow> MintRecord option" where
  "find_mint_by_index i w = find (\<lambda>m. mr_bip32_index m = i) (wf_mints w)"

definition find_mint_by_address :: "string \<Rightarrow> WalletFile \<Rightarrow> MintRecord option" where
  "find_mint_by_address a w = find (\<lambda>m. mr_mint_address m = a) (wf_mints w)"

definition find_tx_by_id :: "string \<Rightarrow> WalletFile \<Rightarrow> TxRecord option" where
  "find_tx_by_id i w = find (\<lambda>t. tr_id t = i) (wf_transactions w)"

definition find_l1_deposit_tx :: "u32 \<Rightarrow> WalletFile \<Rightarrow> TxRecord option" where
  "find_l1_deposit_tx i w =
     find (\<lambda>t. tr_kind t = L1Deposit \<and> tr_bip32_index t = Some i) (wf_transactions w)"

text \<open>\<open>iter_mut().find(p)\<close> and a change of what it finds.\<close>

fun update_first :: "('a \<Rightarrow> bool) \<Rightarrow> ('a \<Rightarrow> 'a) \<Rightarrow> 'a list \<Rightarrow> 'a list" where
  "update_first p f [] = []"
| "update_first p f (a # as) = (if p a then f a # as else a # update_first p f as)"

definition update_mint :: "u32 \<Rightarrow> (MintRecord \<Rightarrow> MintRecord) \<Rightarrow> WalletFile \<Rightarrow> WalletFile" where
  "update_mint i f w = w\<lparr>wf_mints := update_first (\<lambda>m. mr_bip32_index m = i) f (wf_mints w)\<rparr>"

lemma length_update_first [simp]: "length (update_first p f as) = length as"
  by (induction as) auto

lemma update_first_map: "(\<And>a. g (f a) = g a) \<Longrightarrow> map g (update_first p f as) = map g as"
  by (induction as) auto

lemma update_first_set: "a \<in> set (update_first p f as) \<Longrightarrow> a \<in> set as \<or> (\<exists>b\<in>set as. p b \<and> a = f b)"
  by (induction as) (auto split: if_splits)

lemma update_first_none: "\<forall>a\<in>set as. \<not> p a \<Longrightarrow> update_first p f as = as"
  by (induction as) auto

section \<open>What a saved wallet loads as\<close>

lemma with_to_disk:
  "to_disk v nonce w = Inr d \<Longrightarrow> with_disk d (wf_mnemonic w) (wf_encryption_ctx w) = w"
  by (auto simp: to_disk_def with_disk_def Let_def rbind_eq_Inr split: option.splits)

lemma from_to_disk:
  assumes "to_disk v nonce w = Inr d" and "vault_ok v" and "length nonce = NONCE_LEN"
    and "\<And>ctx. wf_encryption_ctx w = Some ctx \<Longrightarrow> \<exists>p. pp = Some p \<and> unlocks v p ctx"
  shows "from_disk v d pp = Inr w"
proof (cases "wf_encryption_ctx w")
  case None
  then show ?thesis using assms(1) with_to_disk [OF assms(1)]
    by (auto simp: to_disk_def from_disk_def Let_def)
next
  case (Some ctx)
  obtain p where p: "pp = Some p" "unlocks v p ctx" using assms(4) [OF Some] by blast
  obtain blob where b: "reencrypt v nonce (wf_mnemonic w) ctx = Inr blob" "dl_encrypted_mnemonic d = Some blob"
    "dl_version d = Some 2" using assms(1) Some by (auto simp: to_disk_def Let_def rbind_eq_Inr)
  show ?thesis
    using b p decrypt_reencrypted [OF assms(2,3) p(2) b(1)] with_to_disk [OF assms(1)] Some
    by (simp add: from_disk_def)
qed

lemma takeWhile_not_in: "(\<forall>c\<in>set s. P c) \<Longrightarrow> takeWhile P s = s"
  by (simp add: takeWhile_eq_all_conv)

text \<open>The temporary file is never the wallet file itself.\<close>

lemma tmp_differs: "with_extension file ''json.tmp'' \<noteq> file"
proof
  assume eq: "with_extension file ''json.tmp'' = file"
  define name where "name = rev (takeWhile (\<lambda>c. c \<noteq> CHR ''/'') (rev file))"
  define dir where "dir = take (length file - length name) file"
  define cut where "cut = rev (dropWhile (\<lambda>c. c \<noteq> CHR ''.'') (rev name))"
  define stem where "stem = (if length cut \<le> 1 then name else butlast cut)"
  have split: "file = dir @ name"
  proof -
    have "rev file = rev name @ dropWhile (\<lambda>c. c \<noteq> CHR ''/'') (rev file)" by (simp add: name_def)
    then have "file = rev (dropWhile (\<lambda>c. c \<noteq> CHR ''/'') (rev file)) @ name"
      by (metis rev_append rev_rev_ident)
    then show ?thesis unfolding dir_def by (metis append_eq_conv_conj diff_add_inverse2 length_append)
  qed
  have "dir @ stem @ CHR ''.'' # ''json.tmp'' = dir @ name"
    using eq split unfolding with_extension_def Let_def name_def [symmetric] dir_def [symmetric] cut_def [symmetric]
      stem_def [symmetric] by simp
  then have name: "stem @ CHR ''.'' # ''json.tmp'' = name" by simp
  have "cut = rev (dropWhile (\<lambda>c. c \<noteq> CHR ''.'') (rev ''json.tmp'' @ CHR ''.'' # rev stem))"
    unfolding cut_def name [symmetric] by simp
  then have cut: "cut = stem @ ''.json.''" by simp
  then have "\<not> length cut \<le> 1" by simp
  then have "stem = butlast cut" by (simp add: stem_def)
  moreover have "butlast cut = stem @ ''.json''" unfolding cut by (simp add: butlast_append)
  ultimately show False by simp
qed

lemma save_ok:
  "WalletFile_save v nonce w f fs = (Inr (), fs') \<Longrightarrow> \<exists>d. to_disk v nonce w = Inr d \<and>
     fs_files fs' = (fs_files fs)(with_extension f ''json.tmp'' := None, f := Some (Json d)) \<and> fs_fault fs' = fs_fault fs"
  by (auto simp: WalletFile_save_def Let_def op_success fs_write_def fs_rename_def
      split: option.splits if_splits)

end
