(* ===== verification/WalletHistory.thy ===== *)
theory WalletHistory
  imports WalletFile
begin

text \<open>
  The transaction history of a wallet (\<open>hodl-wallet/src/ops.rs\<close>, \<open>project_events\<close> and
  \<open>finalize_and_refresh\<close>): observed L2 events flip submitted records or add new ones, and L1
  records are promoted as blocks bury them. \<open>Supply\<close> holds the readings of the clock and of the
  random generator, one of each for an event of the batch.

  The contract of every change of the history is \<open>history_extends\<close>: no record disappears or
  changes anything but its status, and a finalized record keeps even that.
\<close>

section \<open>Projecting observed events\<close>

definition observed_record ::
    "string \<Rightarrow> TxKind \<Rightarrow> u64 \<Rightarrow> u64 \<Rightarrow> string option \<Rightarrow> WalletTxStatus \<Rightarrow> string \<Rightarrow> TxRecord" where
  "observed_record i k ts amount party status sighash_hex =
     \<lparr> tr_id = i, tr_kind = k, tr_created_ts = ts, tr_amount = amount, tr_fee_atoms = None,
       tr_fee_sat = None, tr_counterparty = party, tr_status = status, tr_l1_txid = None,
       tr_l2_sighash = Some sighash_hex, tr_bip32_index = None, tr_note = None \<rparr>"

definition matches :: "TxKind \<Rightarrow> string \<Rightarrow> TxRecord \<Rightarrow> bool" where
  "matches k sighash_hex t \<longleftrightarrow> tr_kind t = k \<and> tr_l2_sighash t = Some sighash_hex"

fun is_finalized :: "WalletTxStatus \<Rightarrow> bool" where
  "is_finalized (Finalized _ _) = True"
| "is_finalized _ = False"

definition flip_status :: "WalletTxStatus \<Rightarrow> TxRecord \<Rightarrow> TxRecord" where
  "flip_status status t = (if is_finalized (tr_status t) then t else t\<lparr>tr_status := status\<rparr>)"

definition project_event :: "ext \<Rightarrow> u64 \<Rightarrow> u64 \<Rightarrow> TxEvent \<Rightarrow> WalletFile \<Rightarrow> WalletFile" where
  "project_event x now_ts random ev w =
     (let included_ts = (if te_block_ts ev \<noteq> 0 then te_block_ts ev else now_ts);
          status = InBlock (te_l2_height ev) (te_l1_height ev) included_ts
      in case te_kind ev of
           TransferIn sender amount sighash_hex \<Rightarrow>
             if list_ex (matches L2TransferReceived sighash_hex) (wf_transactions w) then w
             else append_tx (observed_record (new_tx_id random) L2TransferReceived included_ts amount
                    (Some (hex_encode x (serialize sender))) status sighash_hex) w
         | TransferOut recipient amount sighash_hex \<Rightarrow>
             if list_ex (matches L2TransferSent sighash_hex) (wf_transactions w)
             then w\<lparr>wf_transactions :=
                    update_first (matches L2TransferSent sighash_hex) (flip_status status) (wf_transactions w)\<rparr>
             else append_tx (observed_record (new_tx_id random) L2TransferSent included_ts amount
                    (Some (hex_encode x (serialize recipient))) status sighash_hex) w
         | MintIn amount nullifier \<Rightarrow>
             if list_ex (matches L2MintApply nullifier) (wf_transactions w)
             then w\<lparr>wf_transactions :=
                    update_first (matches L2MintApply nullifier) (flip_status status) (wf_transactions w)\<rparr>
             else append_tx (observed_record (new_tx_id random) L2MintApply included_ts amount
                    None status nullifier) w)"

definition project_events :: "ext \<Rightarrow> Supply \<Rightarrow> TxEvent list \<Rightarrow> WalletFile \<Rightarrow> WalletFile" where
  "project_events x s events w =
     foldl (\<lambda>w (i, ev). project_event x (now_at s i) (random_at s i) ev w) w (enumerate 0 events)"

section \<open>Confirmations\<close>

definition promotion_height :: "ext \<Rightarrow> EsploraClient \<Rightarrow> TxRecord \<Rightarrow> u32 option" where
  "promotion_height x esplora t =
     (case tr_status t of
        L1Mempool _ \<Rightarrow>
          (case Option.bind (tr_l1_txid t) (txid_from_str x) of
             None \<Rightarrow> None
           | Some i \<Rightarrow> (case get_tx esplora i of Inl _ \<Rightarrow> None | Inr info \<Rightarrow> et_block_height info))
      | _ \<Rightarrow> None)"

definition promotions :: "ext \<Rightarrow> EsploraClient \<Rightarrow> TxRecord list \<Rightarrow> (nat \<times> u32) list" where
  "promotions x esplora ts =
     concat (map (\<lambda>(i, t). case promotion_height x esplora t of None \<Rightarrow> [] | Some h \<Rightarrow> [(i, h)])
       (enumerate 0 ts))"

definition promote :: "u64 \<Rightarrow> nat \<times> u32 \<Rightarrow> TxRecord list \<Rightarrow> TxRecord list" where
  "promote now_ts p ts = (let (i, h) = p in ts[i := (ts ! i)\<lparr>tr_status := InBlock 0 h now_ts\<rparr>])"

definition deep_enough :: "u32 \<Rightarrow> WalletTxStatus \<Rightarrow> bool" where
  "deep_enough l1_tip st =
     (case st of InBlock _ h _ \<Rightarrow> WALLET_REORG_FINALITY_DEPTH \<le> sat_sub l1_tip h | _ \<Rightarrow> False)"

definition finalize :: "u32 \<Rightarrow> TxRecord \<Rightarrow> TxRecord" where
  "finalize l1_tip t =
     (case tr_status t of
        InBlock l2_height h _ \<Rightarrow>
          if deep_enough l1_tip (tr_status t) then t\<lparr>tr_status := Finalized l2_height h\<rparr> else t
      | _ \<Rightarrow> t)"

text \<open>The result says whether a record changed; the function never fails.\<close>

definition finalize_and_refresh ::
    "ext \<Rightarrow> Supply \<Rightarrow> EsploraClient \<Rightarrow> u32 \<Rightarrow> WalletFile \<Rightarrow> bool \<times> WalletFile" where
  "finalize_and_refresh x s esplora l1_tip w =
     (let ps = promotions x esplora (wf_transactions w);
          ts = foldl (\<lambda>ts (k, p). promote (now_at s k) p ts) (wf_transactions w) (enumerate 0 ps)
      in (ps \<noteq> [] \<or> list_ex (\<lambda>t. deep_enough l1_tip (tr_status t)) ts,
          w\<lparr>wf_transactions := map (finalize l1_tip) ts\<rparr>))"

section \<open>History only grows\<close>

definition same_entry :: "TxRecord \<Rightarrow> TxRecord \<Rightarrow> bool" where
  "same_entry t u \<longleftrightarrow> u\<lparr>tr_status := tr_status t\<rparr> = t \<and> (is_finalized (tr_status t) \<longrightarrow> u = t)"

definition history_extends :: "TxRecord list \<Rightarrow> TxRecord list \<Rightarrow> bool" where
  "history_extends ts us \<longleftrightarrow> length ts \<le> length us \<and> (\<forall>i<length ts. same_entry (ts ! i) (us ! i))"

lemma same_entry_refl [simp]: "same_entry t t"
  by (simp add: same_entry_def)

lemma same_entry_trans: "same_entry t u \<Longrightarrow> same_entry u v \<Longrightarrow> same_entry t v"
  by (cases t; cases u; cases v) (auto simp: same_entry_def)

lemma same_entry_fields:
  "same_entry t u \<Longrightarrow> tr_id u = tr_id t \<and> tr_kind u = tr_kind t \<and> tr_created_ts u = tr_created_ts t \<and>
     tr_amount u = tr_amount t \<and> tr_l2_sighash u = tr_l2_sighash t \<and> tr_bip32_index u = tr_bip32_index t"
  by (cases t; cases u) (auto simp: same_entry_def)

lemma same_entry_flip [simp]: "same_entry t (flip_status st t)"
  by (cases t) (auto simp: same_entry_def flip_status_def)

lemma same_entry_finalize [simp]: "same_entry t (finalize tip t)"
  by (cases t) (auto simp: same_entry_def finalize_def split: WalletTxStatus.splits)

lemma history_refl [simp]: "history_extends ts ts"
  by (simp add: history_extends_def)

lemma history_trans: "history_extends ts us \<Longrightarrow> history_extends us vs \<Longrightarrow> history_extends ts vs"
  unfolding history_extends_def by (meson le_trans order_less_le_trans same_entry_trans)

lemma history_append [simp]: "history_extends ts (ts @ us)"
  by (simp add: history_extends_def nth_append)

lemma update_first_nth:
  "i < length as \<Longrightarrow> update_first p f as ! i = as ! i \<or> update_first p f as ! i = f (as ! i)"
proof (induction as arbitrary: i)
  case (Cons a as)
  then show ?case by (cases i) (auto simp: nth_Cons')
qed simp

lemma history_update_first: "(\<And>t. same_entry t (f t)) \<Longrightarrow> history_extends ts (update_first p f ts)"
  unfolding history_extends_def by (metis length_update_first order_refl same_entry_refl update_first_nth)

lemma history_map: "(\<And>t. same_entry t (f t)) \<Longrightarrow> history_extends ts (map f ts)"
  by (simp add: history_extends_def)

lemma history_list_update:
  "i < length ts \<Longrightarrow> same_entry (ts ! i) t \<Longrightarrow> history_extends ts (ts[i := t])"
  by (simp add: history_extends_def nth_list_update)

lemma wf_append_tx [simp]: "wf_transactions (append_tx t w) = wf_transactions w @ [t]"
  by (simp add: append_tx_def)

lemma project_event_extends: "history_extends (wf_transactions w) (wf_transactions (project_event x n r ev w))"
  by (simp add: project_event_def Let_def history_update_first split: ObservedTxKind.split)

lemma project_events_append:
  "foldl (\<lambda>w (i, ev). project_event x (now_at s i) (random_at s i) ev w) w (enumerate k (evs @ [ev])) =
     project_event x (now_at s (k + length evs)) (random_at s (k + length evs)) ev
       (foldl (\<lambda>w (i, ev). project_event x (now_at s i) (random_at s i) ev w) w (enumerate k evs))"
  by (simp add: enumerate_append_eq)

lemma project_events_snoc:
  "project_events x s (evs @ [ev]) w =
     project_event x (now_at s (length evs)) (random_at s (length evs)) ev (project_events x s evs w)"
  by (simp add: project_events_def project_events_append)

lemma project_events_Nil [simp]: "project_events x s [] w = w"
  by (simp add: project_events_def)

lemma project_events_extends: "history_extends (wf_transactions w) (wf_transactions (project_events x s evs w))"
proof (induction evs rule: rev_induct)
  case (snoc ev evs)
  then show ?case by (metis project_events_snoc project_event_extends history_trans)
qed simp

text \<open>A promoted record is one that waits in the mempool of L1.\<close>

definition waiting :: "TxRecord list \<Rightarrow> nat \<times> u32 \<Rightarrow> bool" where
  "waiting ts p \<longleftrightarrow> fst p < length ts \<and> \<not> is_finalized (tr_status (ts ! fst p))"

lemma promotion_height_waiting: "promotion_height x es t = Some h \<Longrightarrow> \<not> is_finalized (tr_status t)"
  by (cases "tr_status t") (auto simp: promotion_height_def)

lemma promotions_waiting: "p \<in> set (promotions x es ts) \<Longrightarrow> waiting ts p"
  by (cases p) (auto simp: promotions_def in_set_enumerate_eq waiting_def split: option.splits
      dest: promotion_height_waiting [OF sym])

lemma promote_extends: "waiting ts p \<Longrightarrow> history_extends ts (promote n p ts)"
  unfolding promote_def Let_def case_prod_beta
  by (rule history_list_update) (auto simp: same_entry_def waiting_def)

lemma promote_waiting: "waiting ts p \<Longrightarrow> waiting (promote n q ts) p"
  by (cases q; cases "fst q = fst p") (auto simp: promote_def waiting_def)

lemma foldl_promote_extends:
  "\<forall>p\<in>set ps. waiting ts p \<Longrightarrow>
     history_extends ts (foldl (\<lambda>ts (k, p). promote (now_at s k) p ts) ts (enumerate m ps))"
proof (induction ps arbitrary: ts m)
  case (Cons p ps)
  have "\<forall>q\<in>set ps. waiting (promote (now_at s m) p ts) q" using Cons.prems promote_waiting by auto
  from history_trans [OF promote_extends Cons.IH [OF this]] show ?case using Cons.prems by simp
qed simp

lemma refresh_extends:
  "history_extends (wf_transactions w) (wf_transactions (snd (finalize_and_refresh x s es tip w)))"
proof -
  have "\<forall>p\<in>set (promotions x es (wf_transactions w)). waiting (wf_transactions w) p"
    by (blast intro: promotions_waiting)
  from foldl_promote_extends [OF this, of s 0] show ?thesis
    unfolding finalize_and_refresh_def Let_def by (simp add: history_trans [OF _ history_map])
qed

text \<open>Both leave everything but the history alone.\<close>

lemma project_event_rest: "project_event x n r ev w = w\<lparr>wf_transactions := wf_transactions (project_event x n r ev w)\<rparr>"
  by (auto simp: project_event_def Let_def append_tx_def split: ObservedTxKind.split)

lemma project_events_rest: "project_events x s evs w = w\<lparr>wf_transactions := wf_transactions (project_events x s evs w)\<rparr>"
proof -
  have "\<exists>ts. project_events x s evs w = w\<lparr>wf_transactions := ts\<rparr>"
  proof (induction evs rule: rev_induct)
    case Nil
    then show ?case by (auto intro: exI [of _ "wf_transactions w"])
  next
    case (snoc ev evs)
    then obtain ts where ts: "project_events x s evs w = w\<lparr>wf_transactions := ts\<rparr>" ..
    then show ?case
      unfolding project_events_snoc ts by (subst project_event_rest) auto
  qed
  then show ?thesis by auto
qed

lemma refresh_rest:
  "snd (finalize_and_refresh x s es tip w) = w\<lparr>wf_transactions := wf_transactions (snd (finalize_and_refresh x s es tip w))\<rparr>"
  by (simp add: finalize_and_refresh_def Let_def)

section \<open>Projecting again\<close>

text \<open>The record that an event finds, and what a wallet that has seen the event says of it.\<close>

primrec event_kind :: "ObservedTxKind \<Rightarrow> TxKind" where
  "event_kind (TransferIn _ _ _) = L2TransferReceived"
| "event_kind (TransferOut _ _ _) = L2TransferSent"
| "event_kind (MintIn _ _) = L2MintApply"

primrec event_hash :: "ObservedTxKind \<Rightarrow> string" where
  "event_hash (TransferIn _ _ h) = h"
| "event_hash (TransferOut _ _ h) = h"
| "event_hash (MintIn _ h) = h"

definition event_key :: "TxEvent \<Rightarrow> TxKind \<times> string" where
  "event_key ev = (event_kind (te_kind ev), event_hash (te_kind ev))"

definition reflected :: "TxEvent \<Rightarrow> TxRecord list \<Rightarrow> bool" where
  "reflected ev ts \<longleftrightarrow> (\<exists>t. find (case_prod matches (event_key ev)) ts = Some t \<and>
     (event_kind (te_kind ev) = L2TransferReceived \<or> is_finalized (tr_status t) \<or>
      (\<exists>ts. (te_block_ts ev \<noteq> 0 \<longrightarrow> ts = te_block_ts ev) \<and> tr_status t = InBlock (te_l2_height ev) (te_l1_height ev) ts)))"

lemma find_append: "find p (as @ bs) = (case find p as of Some a \<Rightarrow> Some a | None \<Rightarrow> find p bs)"
  by (induction as) auto

lemma find_ex: "list_ex p as \<longleftrightarrow> (\<exists>a. find p as = Some a)"
  by (induction as) auto

lemma matches_flip [simp]: "matches k h (flip_status st t) = matches k h t"
  by (simp add: matches_def flip_status_def)

lemma matches_observed [simp]: "matches k h (observed_record i k' ts am pt st h') \<longleftrightarrow> k = k' \<and> h = h'"
  by (auto simp: matches_def observed_record_def)

lemma matches_disjoint: "matches k h t \<Longrightarrow> matches k' h' t \<Longrightarrow> k = k' \<and> h = h'"
  by (simp add: matches_def)

lemma find_matches_own:
  "find (matches k h) (update_first (matches k h) (flip_status st) ts) =
     map_option (flip_status st) (find (matches k h) ts)"
  by (induction ts) auto

lemma find_matches_other:
  "(k, h) \<noteq> (k', h') \<Longrightarrow> find (matches k h) (update_first (matches k' h') (flip_status st) ts) = find (matches k h) ts"
  by (induction ts) (auto dest: matches_disjoint)

lemma find_append_other: "\<not> p b \<Longrightarrow> find p (as @ [b]) = find p as"
  by (simp add: find_append split: option.split)

lemma matches_find: "find (matches k h) ts = Some t \<Longrightarrow> matches k h t"
  by (auto simp: find_Some_iff)

text \<open>What one projection does to the record of its own key and to all others.\<close>

lemma project_event_own: "reflected ev (wf_transactions (project_event x n r ev w))"
proof (cases "find (case_prod matches (event_key ev)) (wf_transactions w)")
  case None
  then have "\<not> list_ex (case_prod matches (event_key ev)) (wf_transactions w)" by (simp add: find_ex)
  then show ?thesis using None
    by (cases "te_kind ev") (auto simp: project_event_def Let_def reflected_def event_key_def find_append
        observed_record_def matches_def)
next
  case (Some t)
  then have "list_ex (case_prod matches (event_key ev)) (wf_transactions w)" by (simp add: find_ex)
  then show ?thesis using Some
    by (cases "te_kind ev") (auto simp: project_event_def Let_def reflected_def event_key_def
        find_matches_own flip_status_def)
qed

lemma project_event_other:
  assumes "event_key ev \<noteq> event_key ev'"
  shows "find (case_prod matches (event_key ev)) (wf_transactions (project_event x n r ev' w)) =
    find (case_prod matches (event_key ev)) (wf_transactions w)"
  using assms by (cases "te_kind ev'")
    (auto simp: project_event_def Let_def event_key_def find_matches_other intro!: find_append_other)

lemma project_events_reflects:
  "distinct (map event_key evs) \<Longrightarrow> ev \<in> set evs \<Longrightarrow> reflected ev (wf_transactions (project_events x s evs w))"
proof (induction evs rule: rev_induct)
  case (snoc e evs)
  show ?case
  proof (cases "ev = e")
    case True
    then show ?thesis by (simp add: project_events_snoc project_event_own)
  next
    case False
    with snoc.prems have ev: "ev \<in> set evs" and "event_key e \<notin> event_key ` set evs" by auto
    then have "event_key ev \<noteq> event_key e" by (metis imageI)
    with ev show ?thesis using snoc.IH snoc.prems project_event_other [of ev e]
      by (simp add: project_events_snoc reflected_def)
  qed
qed simp

lemma update_first_id: "find p as = Some t \<Longrightarrow> f t = t \<Longrightarrow> update_first p f as = as"
  by (induction as) (auto split: if_splits)

lemma project_event_again:
  assumes "reflected ev (wf_transactions w)" and "te_block_ts ev \<noteq> 0"
  shows "project_event x n r ev w = w"
proof -
  obtain t where t: "find (case_prod matches (event_key ev)) (wf_transactions w) = Some t"
    "event_kind (te_kind ev) = L2TransferReceived \<or>
       flip_status (InBlock (te_l2_height ev) (te_l1_height ev) (te_block_ts ev)) t = t"
    using assms by (auto simp: reflected_def flip_status_def)
  then have "list_ex (case_prod matches (event_key ev)) (wf_transactions w)" by (simp add: find_ex)
  then show ?thesis using t assms(2)
    by (cases "te_kind ev") (auto simp: project_event_def Let_def event_key_def update_first_id)
qed

lemma project_events_again:
  assumes "\<forall>ev\<in>set evs. reflected ev (wf_transactions w) \<and> te_block_ts ev \<noteq> 0"
  shows "project_events x s evs w = w"
  using assms by (induction evs rule: rev_induct) (simp_all add: project_events_snoc project_event_again)

text \<open>The contract of a change, and the two changes that keep it.\<close>

locale history_change =
  fixes change :: "WalletFile \<Rightarrow> WalletFile"
  assumes extends: "history_extends (wf_transactions w) (wf_transactions (change w))"
    and rest: "change w = w\<lparr>wf_transactions := wf_transactions (change w)\<rparr>"
begin

lemma keeps_finalized:
  "i < length (wf_transactions w) \<Longrightarrow> is_finalized (tr_status (wf_transactions w ! i)) \<Longrightarrow>
     wf_transactions (change w) ! i = wf_transactions w ! i"
  using extends [of w] by (simp add: history_extends_def same_entry_def)

lemma keeps_entry:
  "i < length (wf_transactions w) \<Longrightarrow> same_entry (wf_transactions w ! i) (wf_transactions (change w) ! i)"
  using extends [of w] by (simp add: history_extends_def)

lemma keeps_mints: "wf_mints (change w) = wf_mints w" "wf_next_mint_index (change w) = wf_next_mint_index w"
  by (subst rest; simp)+

end

interpretation projection: history_change "project_events x s evs"
  by unfold_locales (rule project_events_extends project_events_rest)+

interpretation refresh: history_change "\<lambda>w. snd (finalize_and_refresh x s es tip w)"
  by unfold_locales (rule refresh_extends refresh_rest)+

end
