(* ===== verification/WalletOps.thy ===== *)
theory WalletOps
  imports WalletHistory
begin

text \<open>
  \<open>hodl-wallet/src/ops.rs\<close>: what a user interface calls. An operation is a function of the
  wallet in memory; loading and saving are the caller's. The URLs of the wallet lead to
  services through \<open>Internet\<close>, and the clock readings and random identifiers of one operation,
  in order, are its \<open>Supply\<close>.
\<close>

record Internet =
  service_at :: "string \<Rightarrow> Service"
  esplora_at :: "string \<Rightarrow> EsploraClient"
  broadcast_at :: "string \<Rightarrow> Transaction \<Rightarrow> (HttpError, Txid) result"

definition ApiClient_new :: "Internet \<Rightarrow> WalletFile \<Rightarrow> ApiClient" where
  "ApiClient_new net w =
     \<lparr> sequencer_url = service_at net (wf_sequencer_url w),
       node_url = map_option (service_at net) (wf_node_url w) \<rparr>"

definition EsploraClient_new :: "Internet \<Rightarrow> WalletFile \<Rightarrow> EsploraClient" where
  "EsploraClient_new net w = esplora_at net (wf_esplora_url w)"

section \<open>Keys and deposit addresses\<close>

record KeygenInput =
  ki_network :: NetworkName
  ki_sequencer_url :: string
  ki_node_url :: "string option"
  ki_esplora_url :: string
  ki_mnemonic :: "string option"

record KeygenOutput =
  ko_l2_address :: string
  ko_mnemonic :: string
  ko_was_fresh :: bool

definition keygen :: "ext \<Rightarrow> vault \<Rightarrow> bytes \<Rightarrow> KeygenInput \<Rightarrow> (WalletError, WalletFile \<times> KeygenOutput) result" where
  "keygen x v entropy input =
     rbind (case ki_mnemonic input of
              Some supplied \<Rightarrow> rbind (ok_or (bip39_parse v (str_trim supplied)) BadMnemonic) (\<lambda>m. Inr (m, False))
            | None \<Rightarrow> Inr (bip39_generate v entropy, True)) (\<lambda>(phrase, was_fresh).
       let w = \<lparr> wf_network = ki_network input, wf_mnemonic = phrase, wf_sequencer_url = ki_sequencer_url input,
                 wf_node_url = ki_node_url input, wf_esplora_url = ki_esplora_url input, wf_next_mint_index = 0,
                 wf_mints = [], wf_verified_head = None, wf_transactions = [], wf_encryption_ctx = None \<rparr>
       in rbind (l2_identity_xonly x v w) (\<lambda>l2_address.
          Inr (w, \<lparr> ko_l2_address = address_encode x l2_address (wf_network w), ko_mnemonic = phrase,
                    ko_was_fresh = was_fresh \<rparr>)))"

definition wallet_address :: "ext \<Rightarrow> vault \<Rightarrow> WalletFile \<Rightarrow> (WalletError, XOnlyPublicKey) result" where
  "wallet_address x v w = l2_identity_xonly x v w"

record MintUtxoOutput =
  mu_bip32_index :: u32
  mu_lock_blocks :: u32
  mu_mint_address :: string

definition fresh_mint :: "string \<Rightarrow> u32 \<Rightarrow> u32 \<Rightarrow> MintRecord" where
  "fresh_mint address lock_blocks i =
     \<lparr> mr_mint_address = address, mr_lock_blocks = lock_blocks, mr_bip32_index = i, mr_outpoint = None,
       mr_value_sat = None, mr_funded_at_height = None, mr_minted = False, mr_reclaimed = False \<rparr>"

definition mint_utxo :: "ext \<Rightarrow> vault \<Rightarrow> u32 \<Rightarrow> MintUtxoOutput wallet_op" where
  "mint_utxo x v lock_blocks =
     op_bind (op_result (\<lambda>_. if lock_blocks = 0 \<or> MAX_LOCK_BLOCKS < lock_blocks then Inl LockBlocksRange else Inr ())) (\<lambda>_.
     op_bind (op_result (\<lambda>_. map_err (\<lambda>_. LockBlocksRange) (validate_lock_blocks lock_blocks))) (\<lambda>_.
     op_bind (allocate_mint_keypair v) (\<lambda>(mint_kp, i).
     op_bind (op_result (\<lambda>w. map_err (\<lambda>_. ExpectFailed)
       (mint_address x lock_blocks (keypair_xonly x mint_kp) (into_bitcoin (wf_network w))))) (\<lambda>address.
     op_bind (op_modify (append_mint (fresh_mint address lock_blocks i))) (\<lambda>_.
     op_return \<lparr> mu_bip32_index = i, mu_lock_blocks = lock_blocks, mu_mint_address = address \<rparr>)))))"

section \<open>Watching a deposit\<close>

datatype MintFundingState = Unfunded | FundingPending | FundingConfirmed

record CheckMintFundingOutput =
  cf_bip32_index :: u32
  cf_mint_address :: string
  cf_state :: MintFundingState
  cf_outpoint :: "string option"
  cf_value_sat :: "u64 option"
  cf_funded_at_height :: "u32 option"

definition deposit_record :: "ext \<Rightarrow> Supply \<Rightarrow> MintRecord \<Rightarrow> AddressUtxo \<Rightarrow> u32 \<Rightarrow> TxRecord" where
  "deposit_record x s m u height =
     \<lparr> tr_id = new_tx_id (random_at s 0), tr_kind = L1Deposit, tr_created_ts = now_at s 0,
       tr_amount = au_value u, tr_fee_atoms = None, tr_fee_sat = None,
       tr_counterparty = Some (mr_mint_address m), tr_status = InBlock 0 height (now_at s 1),
       tr_l1_txid = Some (txid_to_string x (au_txid u)), tr_l2_sighash = None,
       tr_bip32_index = Some (mr_bip32_index m), tr_note = None \<rparr>"

definition record_funding :: "ext \<Rightarrow> Supply \<Rightarrow> MintRecord \<Rightarrow> AddressUtxo \<Rightarrow> u32 \<Rightarrow> WalletFile \<Rightarrow> WalletFile" where
  "record_funding x s m u height w =
     (let w = update_mint (mr_bip32_index m) (\<lambda>r. r\<lparr>mr_outpoint := Some (show_outpoint x (OutPoint (au_txid u) (au_vout u))),
                mr_value_sat := Some (au_value u), mr_funded_at_height := Some height\<rparr>) w
      in if find_l1_deposit_tx (mr_bip32_index m) w = None then append_tx (deposit_record x s m u height) w else w)"

definition funding_utxos :: "btc \<Rightarrow> Internet \<Rightarrow> MintRecord \<Rightarrow> WalletFile \<Rightarrow> (WalletError, AddressUtxo list) result" where
  "funding_utxos b net m w =
     rbind (ok_or (address_from_str b (mr_mint_address m)) BadMintAddress) (\<lambda>address.
     if \<not> is_on_network b address (into_bitcoin (wf_network w)) then Inl BadMintAddress
     else map_err EsploraError (address_utxos (EsploraClient_new net w) address))"

definition check_mint_funding ::
    "ext \<Rightarrow> btc \<Rightarrow> Internet \<Rightarrow> Supply \<Rightarrow> u32 \<Rightarrow> CheckMintFundingOutput wallet_op" where
  "check_mint_funding x b net s i =
     op_bind (op_result (\<lambda>w. ok_or (find_mint_by_index i w) (NoMintRecord i))) (\<lambda>m.
     let answer = (\<lambda>st p v h. \<lparr> cf_bip32_index = mr_bip32_index m, cf_mint_address = mr_mint_address m,
           cf_state = st, cf_outpoint = p, cf_value_sat = v, cf_funded_at_height = h \<rparr>)
     in if mr_outpoint m \<noteq> None \<and> mr_funded_at_height m \<noteq> None
        then op_return (answer FundingConfirmed (mr_outpoint m) (mr_value_sat m) (mr_funded_at_height m))
        else
          op_bind (op_result (funding_utxos b net m)) (\<lambda>utxos. case utxos of
            [] \<Rightarrow> op_return (answer Unfunded None None None)
          | u # _ \<Rightarrow>
              let outpoint_s = show_outpoint x (OutPoint (au_txid u) (au_vout u))
              in (case au_block_height u of
                    None \<Rightarrow> op_return (answer FundingPending (Some outpoint_s) (Some (au_value u)) None)
                  | Some height \<Rightarrow>
                      op_bind (op_modify (record_funding x s m u height)) (\<lambda>_.
                      op_return (answer FundingConfirmed (Some outpoint_s) (Some (au_value u)) (Some height))))))"

definition list_mints :: "WalletFile \<Rightarrow> MintRecord list" where
  "list_mints w = wf_mints w"

definition list_transactions :: "WalletFile \<Rightarrow> TxRecord list" where
  "list_transactions w = rev (wf_transactions w)"

section \<open>Claiming atoms\<close>

record MintMessageOutput =
  mm_accepted :: bool
  mm_mint_amount :: "u64 option"
  mm_nullifier_hex :: "string option"
  mm_error :: "string option"
  mm_soft_conf :: "SoftConf option"

definition destination_or :: "ext \<Rightarrow> XOnlyPublicKey \<Rightarrow> string option \<Rightarrow> WalletFile \<Rightarrow> (WalletError, XOnlyPublicKey) result" where
  "destination_or x own dest w =
     (case dest of Some s \<Rightarrow> map_err BadL2Address (decode_for x s (wf_network w)) | None \<Rightarrow> Inr own)"

definition mint_request ::
    "ext \<Rightarrow> vault \<Rightarrow> Internet \<Rightarrow> u32 \<Rightarrow> string option \<Rightarrow> WalletFile \<Rightarrow> (WalletError, OutpointProof \<times> XOnlyPublicKey) result" where
  "mint_request x v net i dest w =
     rbind (l2_identity_xonly x v w) (\<lambda>l2_identity.
     rbind (ok_or (find_mint_by_index i w) (NoMintRecord i)) (\<lambda>m.
     rbind (ok_or (mr_outpoint m) (NotFunded i)) (\<lambda>outpoint_s.
     rbind (wallet_parse_outpoint x outpoint_s) (\<lambda>outpoint.
     rbind (destination_or x l2_identity dest w) (\<lambda>l2_destination.
     rbind (mint_keypair v w (mr_bip32_index m)) (\<lambda>mint_kp.
     rbind (map_err EsploraError (es_tip_height (EsploraClient_new net w))) (\<lambda>claimed.
     let sighash = mint_sighash x outpoint claimed l2_destination
     in Inr (\<lparr> pf_outpoint = outpoint, pf_user_pk = keypair_xonly x mint_kp,
               pf_lock_blocks = mr_lock_blocks m, pf_claimed_height = claimed,
               pf_signature = sign_schnorr x sighash mint_kp \<rparr>, l2_destination))))))))"

definition mint_record ::
    "ext \<Rightarrow> Supply \<Rightarrow> NetworkName \<Rightarrow> XOnlyPublicKey \<Rightarrow> u32 \<Rightarrow> SubmitMintResponse \<Rightarrow> TxRecord" where
  "mint_record x s n dest i resp =
     \<lparr> tr_id = new_tx_id (random_at s 0), tr_kind = L2MintApply, tr_created_ts = now_at s 0,
       tr_amount = (if mint_accepted resp then (case mint_amount resp of Some a \<Rightarrow> a | None \<Rightarrow> 0) else 0),
       tr_fee_atoms = None, tr_fee_sat = None, tr_counterparty = Some (address_encode x dest n),
       tr_status = (if mint_accepted resp then Soft (now_at s 1)
         else Failed (case mint_error resp of Some e \<Rightarrow> e | None \<Rightarrow> ''sequencer rejected mint (no error string)'') (now_at s 1)),
       tr_l1_txid = None, tr_l2_sighash = (if mint_accepted resp then mint_nullifier resp else None),
       tr_bip32_index = Some i, tr_note = None \<rparr>"

definition mint_message ::
    "ext \<Rightarrow> vault \<Rightarrow> Internet \<Rightarrow> Supply \<Rightarrow> u32 \<Rightarrow> string option \<Rightarrow> MintMessageOutput wallet_op" where
  "mint_message x v net s i dest =
     op_bind (op_result (mint_request x v net i dest)) (\<lambda>(pf, l2_destination).
     op_bind (op_result (\<lambda>w. map_err WalletApi
       (api_submit_mint (ApiClient_new net w) (V0Outpoint pf) l2_destination))) (\<lambda>resp.
     op_bind (op_modify (\<lambda>w.
       let w = (if mint_accepted resp then update_mint i (\<lambda>r. r\<lparr>mr_minted := True\<rparr>) w else w)
       in append_tx (mint_record x s (wf_network w) l2_destination i resp) w)) (\<lambda>_.
     op_return \<lparr> mm_accepted = mint_accepted resp, mm_mint_amount = mint_amount resp,
       mm_nullifier_hex = mint_nullifier resp, mm_error = mint_error resp, mm_soft_conf = mint_soft_conf resp \<rparr>)))"

section \<open>Sending atoms\<close>

record TransferOutput =
  to_accepted :: bool
  to_error :: "string option"
  to_fee :: u64
  to_total :: u64
  to_soft_conf :: "SoftConf option"

definition compute_transfer_fee :: "u64 \<Rightarrow> u64" where
  "compute_transfer_fee amount = max MIN_FEE (sat_mul amount FEE_BPS div 10000)"

definition transfer_request ::
    "ext \<Rightarrow> vault \<Rightarrow> Internet \<Rightarrow> string \<Rightarrow> u64 \<Rightarrow> WalletFile \<Rightarrow> (WalletError, SignedTransfer) result" where
  "transfer_request x v net dest amount w =
     rbind (l2_identity_keypair v w) (\<lambda>kp.
     rbind (l2_identity_xonly x v w) (\<lambda>sender.
     rbind (map_err BadL2Address (decode_for x dest (wf_network w))) (\<lambda>recipient.
     rbind (map_err WalletApi (api_balance_via_sequencer (ApiClient_new net w) sender)) (\<lambda>bal.
     let b = \<lparr> tb_from = sender, tb_to = recipient, tb_amount = amount, tb_nonce = br_effective_nonce bal \<rparr>
     in Inr \<lparr> body = b, signature = sign_schnorr x (transfer_sighash x b) kp \<rparr>))))"

definition transfer_record ::
    "ext \<Rightarrow> Supply \<Rightarrow> NetworkName \<Rightarrow> SignedTransfer \<Rightarrow> SubmitTransferResponse \<Rightarrow> TxRecord" where
  "transfer_record x s n t resp =
     \<lparr> tr_id = new_tx_id (random_at s 0), tr_kind = L2TransferSent, tr_created_ts = now_at s 0,
       tr_amount = tb_amount (body t), tr_fee_atoms = Some (compute_transfer_fee (tb_amount (body t))),
       tr_fee_sat = None, tr_counterparty = Some (address_encode x (tb_to (body t)) n),
       tr_status = (if transfer_accepted resp then Soft (now_at s 1)
         else Failed (case transfer_error resp of Some e \<Rightarrow> e | None \<Rightarrow> ''sequencer rejected transfer (no error string)'') (now_at s 1)),
       tr_l1_txid = None, tr_l2_sighash = Some (hex_encode x (be_bytes 32 (transfer_sighash x (body t)))),
       tr_bip32_index = None, tr_note = None \<rparr>"

definition wallet_transfer ::
    "ext \<Rightarrow> vault \<Rightarrow> Internet \<Rightarrow> Supply \<Rightarrow> string \<Rightarrow> u64 \<Rightarrow> TransferOutput wallet_op" where
  "wallet_transfer x v net s dest amount =
     op_bind (op_result (transfer_request x v net dest amount)) (\<lambda>signed.
     op_bind (op_result (\<lambda>w. map_err WalletApi (api_submit_transfer (ApiClient_new net w) signed))) (\<lambda>resp.
     let fee = compute_transfer_fee amount
     in op_bind (op_modify (\<lambda>w. append_tx (transfer_record x s (wf_network w) signed resp) w)) (\<lambda>_.
        op_return \<lparr> to_accepted = transfer_accepted resp, to_error = transfer_error resp, to_fee = fee,
          to_total = sat_add amount fee, to_soft_conf = transfer_soft_conf resp \<rparr>)))"

end
