(* ===== verification/WalletBalance.thy ===== *)
theory WalletBalance
  imports WalletOps
begin

text \<open>
  The reading operations of \<open>hodl-wallet/src/ops.rs\<close> (balance, head, and their verified forms)
  and the reclaim of matured deposits. \<open>light_head\<close> and \<open>light_balance\<close> walk the attestation chain,
  so they are partial: \<open>None\<close> is a walk that does not end.
\<close>

section \<open>Balances as reported\<close>

record BalanceOutput =
  bo_address :: string
  bo_balance :: u64
  bo_nonce :: u64

definition balance_target :: "ext \<Rightarrow> vault \<Rightarrow> string option \<Rightarrow> WalletFile \<Rightarrow> (WalletError, XOnlyPublicKey) result" where
  "balance_target x v addr w =
     (case addr of Some s \<Rightarrow> map_err BadL2Address (decode_for x s (wf_network w)) | None \<Rightarrow> l2_identity_xonly x v w)"

definition wallet_balance :: "ext \<Rightarrow> vault \<Rightarrow> Internet \<Rightarrow> string option \<Rightarrow> WalletFile \<Rightarrow> (WalletError, BalanceOutput) result" where
  "wallet_balance x v net addr w =
     rbind (balance_target x v addr w) (\<lambda>target.
     rbind (map_err WalletApi (api_balance_via_sequencer (ApiClient_new net w) target)) (\<lambda>bal.
     Inr \<lparr> bo_address = address_encode x target (wf_network w), bo_balance = br_balance bal,
           bo_nonce = br_nonce bal \<rparr>))"

section \<open>Balances with a proof\<close>

record VerifyBalanceOutput =
  vb_address :: string
  vb_balance :: u64
  vb_nonce :: u64
  vb_l2_height :: u32
  vb_state_root :: H256
  vb_bound_to_l1 :: bool

definition check_reported_leaf :: "BalanceResponse \<Rightarrow> (WalletError, unit) result" where
  "check_reported_leaf bal =
     (case ip_leaf (br_proof bal) of
        LeafAccount balance nonce \<Rightarrow>
          if balance \<noteq> br_balance bal then Inl (LeafBalance balance (br_balance bal))
          else if nonce \<noteq> br_nonce bal then Inl (LeafNonce nonce (br_nonce bal))
          else Inr ()
      | LeafEmpty \<Rightarrow>
          if br_balance bal \<noteq> 0 \<or> br_nonce bal \<noteq> 0 then Inl (EmptyLeafBalance (br_balance bal) (br_nonce bal))
          else Inr ())"

definition check_response :: "ext \<Rightarrow> H256 option \<Rightarrow> BalanceResponse \<Rightarrow> (WalletError, unit) result" where
  "check_response x against bal =
     (let derived = components_state_root x (br_components bal)
      in if derived \<noteq> br_state_root bal then Inl (ResponseInconsistent derived (br_state_root bal))
         else
           rbind (case against of
                    Some expected \<Rightarrow>
                      if expected \<noteq> br_state_root bal then Inl (AgainstMismatch (br_state_root bal) expected) else Inr ()
                  | None \<Rightarrow> Inr ()) (\<lambda>_.
           if ip_address (br_proof bal) \<noteq> br_address bal
           then Inl (ProofAddress (ip_address (br_proof bal)) (br_address bal))
           else if \<not> InclusionProof_verify x (br_proof bal) (sc_accounts_root (br_components bal)) then Inl ProofInvalid
           else check_reported_leaf bal))"

definition verify_balance ::
    "ext \<Rightarrow> vault \<Rightarrow> Internet \<Rightarrow> string option \<Rightarrow> H256 option \<Rightarrow> WalletFile \<Rightarrow> (WalletError, VerifyBalanceOutput) result" where
  "verify_balance x v net addr against w =
     rbind (balance_target x v addr w) (\<lambda>target.
     rbind (map_err WalletApi (api_balance (ApiClient_new net w) target)) (\<lambda>bal.
     rbind (check_response x against bal) (\<lambda>_.
     Inr \<lparr> vb_address = address_encode x target (wf_network w), vb_balance = br_balance bal,
           vb_nonce = br_nonce bal, vb_l2_height = br_l2_height bal, vb_state_root = br_state_root bal,
           vb_bound_to_l1 = (against \<noteq> None) \<rparr>)))"

section \<open>Heads\<close>

definition sequencer_head :: "Internet \<Rightarrow> WalletFile \<Rightarrow> (WalletError, HeadResponse) result" where
  "sequencer_head net w = map_err WalletApi (api_sequencer_head (ApiClient_new net w))"

record LightHeadOutput =
  lh_l2_height :: u32
  lh_state_root :: H256
  lh_attestations_walked :: nat

definition light_head_of :: "ext \<Rightarrow> ChainStep list \<Rightarrow> LightHeadOutput" where
  "light_head_of x chain =
     (let (root, h) = (if chain = [] then (state_root x LedgerState_new, 0)
        else (att_state_root (cs_attestation (last chain)), att_height (cs_attestation (last chain))))
      in \<lparr> lh_l2_height = h, lh_state_root = root, lh_attestations_walked = length chain \<rparr>)"

definition light_head :: "ext \<Rightarrow> Internet \<Rightarrow> WalletFile \<Rightarrow> (WalletError, LightHeadOutput) result option" where
  "light_head x net w =
     (case rbind (map_err WalletApi (api_get_block (ApiClient_new net w) 0)) (\<lambda>gen.
             ok_or (anchor_outpoint (header gen)) GenesisWithoutAnchor) of
        Inl e \<Rightarrow> Some (Inl e)
      | Inr anchor_0 \<Rightarrow>
          map_option (\<lambda>walked. rbind (map_err WalkFailed walked) (\<lambda>chain. Inr (light_head_of x chain)))
            (walk_attestation_chain x (EsploraClient_new net w) anchor_0))"

section \<open>The light balance\<close>

datatype LightBalanceMode = ColdStart | WarmStart

record LightBalanceOutput =
  lb_mode :: LightBalanceMode
  lb_blocks_verified :: nat
  lb_l2_height :: u32
  lb_state_root :: H256
  lb_accounts_root :: H256
  lb_block_hash :: H256
  lb_l1_height :: u32
  lb_address :: string
  lb_balance :: u64
  lb_nonce :: u64
  lb_is_own_address :: bool
  lb_total_minted_atoms :: u64

definition light_start ::
    "ext \<Rightarrow> vault \<Rightarrow> string option \<Rightarrow> WalletFile \<Rightarrow> (WalletError, XOnlyPublicKey \<times> XOnlyPublicKey) result" where
  "light_start x v addr w =
     rbind (l2_identity_xonly x v w) (\<lambda>own.
     rbind (destination_or x own addr w) (\<lambda>target.
     case wf_verified_head w of
       Some h \<Rightarrow> if vh_own_address h \<noteq> own then Inl (HeadAddress (vh_own_address h)) else Inr (own, target)
     | None \<Rightarrow> Inr (own, target)))"

definition light_walk ::
    "ext \<Rightarrow> ApiClient \<Rightarrow> EsploraClient \<Rightarrow> XOnlyPublicKey \<Rightarrow> VerifiedHead option \<Rightarrow>
     (WalletError, VerifiedHead \<times> LightBalanceMode \<times> nat \<times> TxEvent list) result option" where
  "light_walk x api es own persisted =
     (let walk = (\<lambda>mode h. map_option (\<lambda>r. rbind (map_err Verify r) (\<lambda>(h, n, evs). Inr (h, mode, n, evs)))
        (walk_forward x h api es))
      in case persisted of
           Some h \<Rightarrow> walk WarmStart h
         | None \<Rightarrow>
             (case bootstrap x api es own of
                None \<Rightarrow> None
              | Some (Inl e) \<Rightarrow> Some (Inl (Verify e))
              | Some (Inr h) \<Rightarrow> walk ColdStart h))"

definition top_up_total :: "ApiClient \<Rightarrow> XOnlyPublicKey \<Rightarrow> VerifiedHead \<Rightarrow> (WalletError, VerifiedHead) result" where
  "top_up_total api own head =
     (if vh_total_minted head = 0 \<and> 0 < vh_l2_height head
      then rbind (map_err WalletApi (api_balance api own)) (\<lambda>bal. Inr (head\<lparr>vh_total_minted := br_total_minted bal\<rparr>))
      else Inr head)"

definition light_other_balance :: "ext \<Rightarrow> ApiClient \<Rightarrow> VerifiedHead \<Rightarrow> XOnlyPublicKey \<Rightarrow> (WalletError, u64 \<times> u64) result" where
  "light_other_balance x api head target =
     rbind (map_err WalletApi (api_balance api target)) (\<lambda>bal.
     if br_state_root bal \<noteq> vh_state_root head then Inl (HeadMismatch (br_state_root bal) (vh_state_root head))
     else if \<not> InclusionProof_verify x (br_proof bal) (vh_accounts_root head) then Inl ProofInvalid
     else
       let (b, n) = (case ip_leaf (br_proof bal) of LeafAccount balance nonce \<Rightarrow> (balance, nonce) | LeafEmpty \<Rightarrow> (0, 0))
       in if b \<noteq> br_balance bal \<or> n \<noteq> br_nonce bal then Inl LeafMismatch else Inr (b, n))"

definition light_finish ::
    "ext \<Rightarrow> ApiClient \<Rightarrow> NetworkName \<Rightarrow> XOnlyPublicKey \<Rightarrow> XOnlyPublicKey \<Rightarrow> LightBalanceMode \<Rightarrow> nat \<Rightarrow> VerifiedHead \<Rightarrow>
     (WalletError, LightBalanceOutput \<times> VerifiedHead) result" where
  "light_finish x api network own target mode n head =
     rbind (top_up_total api own head) (\<lambda>head.
     rbind (if target = own then Inr (balance_from head own) else light_other_balance x api head target) (\<lambda>(balance, nonce).
     Inr (\<lparr> lb_mode = mode, lb_blocks_verified = n, lb_l2_height = vh_l2_height head, lb_state_root = vh_state_root head,
            lb_accounts_root = vh_accounts_root head, lb_block_hash = vh_block_hash head, lb_l1_height = vh_l1_height head,
            lb_address = address_encode x target network, lb_balance = balance, lb_nonce = nonce,
            lb_is_own_address = (target = own), lb_total_minted_atoms = vh_total_minted head \<rparr>, head)))"

text \<open>The verified head is taken out of the wallet before the walk and put back on success.\<close>

definition light_balance ::
    "ext \<Rightarrow> vault \<Rightarrow> Internet \<Rightarrow> Supply \<Rightarrow> Supply \<Rightarrow> string option \<Rightarrow> WalletFile \<Rightarrow>
     ((WalletError, LightBalanceOutput) result \<times> WalletFile) option" where
  "light_balance x v net s s' addr w =
     (case light_start x v addr w of
        Inl e \<Rightarrow> Some (Inl e, w)
      | Inr (own, target) \<Rightarrow>
          let api = ApiClient_new net w; es = EsploraClient_new net w; taken = w\<lparr>wf_verified_head := None\<rparr>
          in map_option (\<lambda>walked. case walked of
                 Inl e \<Rightarrow> (Inl e, taken)
               | Inr (head, mode, n, events) \<Rightarrow>
                   let w = (if events = [] then taken else project_events x s events taken);
                       l1_tip = (case es_tip_height es of Inr t \<Rightarrow> t | Inl _ \<Rightarrow> vh_l1_height head);
                       w = snd (finalize_and_refresh x s' es l1_tip w)
                   in (case light_finish x api (wf_network w) own target mode n head of
                         Inl e \<Rightarrow> (Inl e, w)
                       | Inr (out, head) \<Rightarrow> (Inr out, w\<lparr>wf_verified_head := Some head\<rparr>)))
             (light_walk x api es own (wf_verified_head w)))"

section \<open>Reclaiming\<close>

datatype ReclaimStatus = ReclaimPending | Locked | Ready | Reclaimed

record ReclaimableMint =
  rm_record :: MintRecord
  rm_status :: ReclaimStatus
  rm_blocks_remaining :: "u32 option"

text \<open>A list entry repeats the fields of its mint record; here it holds the record.\<close>

definition reclaim_status :: "u32 option \<Rightarrow> MintRecord \<Rightarrow> ReclaimableMint" where
  "reclaim_status tip m =
     (let (st, remaining) =
        (if mr_reclaimed m then (Reclaimed, None)
         else case mr_funded_at_height m of
                None \<Rightarrow> (ReclaimPending, None)
              | Some h \<Rightarrow>
                  let unlock_height = sat_add h (mr_lock_blocks m); t = the tip
                  in if unlock_height \<le> sat_add t 1 then (Ready, Some 0)
                     else (Locked, Some (sat_sub unlock_height (sat_add t 1))))
      in \<lparr> rm_record = m, rm_status = st, rm_blocks_remaining = remaining \<rparr>)"

definition list_reclaimable_mints :: "Internet \<Rightarrow> WalletFile \<Rightarrow> (WalletError, ReclaimableMint list) result" where
  "list_reclaimable_mints net w =
     rbind (if list_ex (\<lambda>m. \<not> mr_reclaimed m \<and> mr_funded_at_height m \<noteq> None) (wf_mints w)
            then rbind (map_err EsploraError (es_tip_height (EsploraClient_new net w))) (\<lambda>t. Inr (Some t))
            else Inr None) (\<lambda>tip.
     Inr (map (reclaim_status tip) (wf_mints w)))"

record ReclaimMintOutput =
  ro_txid :: Txid
  ro_value_sat_in :: u64
  ro_value_sat_out :: u64
  ro_fee_sat :: u64

record ReclaimPlan =
  rp_outpoint :: OutPoint
  rp_value :: u64
  rp_lock :: u32
  rp_dest :: string

text \<open>The checks before the transaction is built.\<close>

definition reclaim_plan ::
    "ext \<Rightarrow> btc \<Rightarrow> Internet \<Rightarrow> u32 \<Rightarrow> string \<Rightarrow> WalletFile \<Rightarrow> (WalletError, ReclaimPlan) result" where
  "reclaim_plan x b net i dest_address w =
     rbind (ok_or (find_mint_by_index i w) (NoMintRecord i)) (\<lambda>m.
     if mr_reclaimed m then Inl (AlreadyReclaimed i)
     else
       rbind (ok_or (mr_outpoint m) (NotFunded i)) (\<lambda>outpoint_s.
       rbind (wallet_parse_outpoint x outpoint_s) (\<lambda>outpoint.
       rbind (ok_or (mr_value_sat m) (NoValue i)) (\<lambda>value.
       rbind (ok_or (mr_funded_at_height m) (NotConfirmed i)) (\<lambda>funded_at.
       rbind (ok_or (address_from_str b dest_address) BadDestination) (\<lambda>dest.
       if \<not> is_on_network b dest (into_bitcoin (wf_network w)) then Inl BadDestination
       else
         rbind (map_err EsploraError (es_tip_height (EsploraClient_new net w))) (\<lambda>tip.
         let unlock_height = sat_add funded_at (mr_lock_blocks m)
         in if sat_add tip 1 < unlock_height
            then Inl (NotReclaimable (sat_sub unlock_height (sat_add tip 1)) unlock_height tip)
            else Inr \<lparr> rp_outpoint = outpoint, rp_value = value, rp_lock = mr_lock_blocks m, rp_dest = dest \<rparr>)))))))"

definition reclaim_tx ::
    "ext \<Rightarrow> vault \<Rightarrow> btc \<Rightarrow> Internet \<Rightarrow> u32 \<Rightarrow> string \<Rightarrow> u64 \<Rightarrow> WalletFile \<Rightarrow> (WalletError, ReclaimPlan \<times> Transaction) result" where
  "reclaim_tx x v b net i dest_address fee_sat w =
     rbind (reclaim_plan x b net i dest_address w) (\<lambda>p.
     rbind (mint_keypair v w i) (\<lambda>mint_kp.
     rbind (map_err Reclaiming
       (build_signed_reclaim_tx x b mint_kp (rp_outpoint p) (rp_value p) (rp_lock p) (rp_dest p) fee_sat)) (\<lambda>tx.
     Inr (p, tx))))"

definition reclaim_record :: "ext \<Rightarrow> Supply \<Rightarrow> u32 \<Rightarrow> ReclaimPlan \<Rightarrow> u64 \<Rightarrow> Txid \<Rightarrow> TxRecord" where
  "reclaim_record x s i p fee_sat t =
     \<lparr> tr_id = new_tx_id (random_at s 0), tr_kind = L1Reclaim, tr_created_ts = now_at s 0,
       tr_amount = sat_sub (rp_value p) fee_sat, tr_fee_atoms = None, tr_fee_sat = Some fee_sat,
       tr_counterparty = Some (rp_dest p), tr_status = L1Mempool (now_at s 1),
       tr_l1_txid = Some (txid_to_string x t), tr_l2_sighash = None, tr_bip32_index = Some i, tr_note = None \<rparr>"

definition reclaim_mint ::
    "ext \<Rightarrow> vault \<Rightarrow> btc \<Rightarrow> Internet \<Rightarrow> Supply \<Rightarrow> u32 \<Rightarrow> string \<Rightarrow> u64 \<Rightarrow> ReclaimMintOutput wallet_op" where
  "reclaim_mint x v b net s i dest_address fee_sat =
     op_bind (op_result (reclaim_tx x v b net i dest_address fee_sat)) (\<lambda>(p, tx).
     op_bind (op_result (\<lambda>w. map_err EsploraError (broadcast_at net (wf_esplora_url w) tx))) (\<lambda>t.
     op_bind (op_modify (\<lambda>w. append_tx (reclaim_record x s i p fee_sat t)
       (update_mint i (\<lambda>r. r\<lparr>mr_reclaimed := True\<rparr>) w))) (\<lambda>_.
     op_return \<lparr> ro_txid = t, ro_value_sat_in = rp_value p, ro_value_sat_out = sat_sub (rp_value p) fee_sat,
       ro_fee_sat = fee_sat \<rparr>)))"

end
