(* ===== verification/WalletInvariant.thy ===== *)
theory WalletInvariant
  imports WalletBalance
begin

text \<open>
  What holds of a wallet through all its operations: every mint record has an index of its own
  below the counter and the address its key derives, and is funded before it is minted or
  reclaimed (\<open>wallet_ok\<close>); and a wallet only evolves (\<open>evolves\<close>): no mint record or history entry is
  lost, nothing known of a deposit is forgotten or replaced, and the keys stay.
\<close>

section \<open>Mint records\<close>

definition mint_derived :: "ext \<Rightarrow> vault \<Rightarrow> WalletFile \<Rightarrow> MintRecord \<Rightarrow> bool" where
  "mint_derived x v w m \<longleftrightarrow> (\<exists>kp. mint_keypair v w (mr_bip32_index m) = Inr kp \<and>
     mint_address x (mr_lock_blocks m) (keypair_xonly x kp) (into_bitcoin (wf_network w)) = Inr (mr_mint_address m))"

definition mint_ok :: "ext \<Rightarrow> vault \<Rightarrow> WalletFile \<Rightarrow> MintRecord \<Rightarrow> bool" where
  "mint_ok x v w m \<longleftrightarrow> mr_bip32_index m < wf_next_mint_index w \<and> mint_derived x v w m \<and>
     ((mr_outpoint m = None) = (mr_funded_at_height m = None)) \<and>
     ((mr_outpoint m = None) = (mr_value_sat m = None)) \<and>
     (mr_minted m \<or> mr_reclaimed m \<longrightarrow> mr_outpoint m \<noteq> None)"

definition wallet_ok :: "ext \<Rightarrow> vault \<Rightarrow> WalletFile \<Rightarrow> bool" where
  "wallet_ok x v w \<longleftrightarrow> distinct (map mr_bip32_index (wf_mints w)) \<and> (\<forall>m\<in>set (wf_mints w). mint_ok x v w m)"

definition mint_extends :: "MintRecord \<Rightarrow> MintRecord \<Rightarrow> bool" where
  "mint_extends m n \<longleftrightarrow> mr_mint_address n = mr_mint_address m \<and> mr_lock_blocks n = mr_lock_blocks m \<and>
     mr_bip32_index n = mr_bip32_index m \<and>
     (mr_outpoint m \<noteq> None \<longrightarrow> mr_outpoint n = mr_outpoint m \<and> mr_value_sat n = mr_value_sat m \<and>
        mr_funded_at_height n = mr_funded_at_height m) \<and>
     (mr_minted m \<longrightarrow> mr_minted n) \<and> (mr_reclaimed m \<longrightarrow> mr_reclaimed n)"

definition mints_extend :: "MintRecord list \<Rightarrow> MintRecord list \<Rightarrow> bool" where
  "mints_extend ms ns \<longleftrightarrow> length ms \<le> length ns \<and> (\<forall>i<length ms. mint_extends (ms ! i) (ns ! i))"

definition evolves :: "WalletFile \<Rightarrow> WalletFile \<Rightarrow> bool" where
  "evolves w w' \<longleftrightarrow> wf_network w' = wf_network w \<and> wf_mnemonic w' = wf_mnemonic w \<and>
     wf_encryption_ctx w' = wf_encryption_ctx w \<and> wf_next_mint_index w \<le> wf_next_mint_index w' \<and>
     mints_extend (wf_mints w) (wf_mints w') \<and> history_extends (wf_transactions w) (wf_transactions w')"

lemma mint_extends_refl [simp]: "mint_extends m m"
  by (simp add: mint_extends_def)

lemma mint_extends_trans: "mint_extends m n \<Longrightarrow> mint_extends n k \<Longrightarrow> mint_extends m k"
  by (auto simp: mint_extends_def)

lemma mints_extend_refl [simp]: "mints_extend ms ms"
  by (simp add: mints_extend_def)

lemma mints_extend_trans: "mints_extend ms ns \<Longrightarrow> mints_extend ns ks \<Longrightarrow> mints_extend ms ks"
  unfolding mints_extend_def by (meson le_trans order_less_le_trans mint_extends_trans)

lemma mints_extend_append [simp]: "mints_extend ms (ms @ ns)"
  by (simp add: mints_extend_def nth_append)

lemma evolves_refl [simp]: "evolves w w"
  by (simp add: evolves_def)

lemma evolves_trans: "evolves u v \<Longrightarrow> evolves v w \<Longrightarrow> evolves u w"
  by (auto simp: evolves_def intro: mints_extend_trans history_trans order_trans)

text \<open>One change of the wallet that keeps both.\<close>

definition good :: "ext \<Rightarrow> vault \<Rightarrow> WalletFile \<Rightarrow> WalletFile \<Rightarrow> bool" where
  "good x v w w' \<longleftrightarrow> (wallet_ok x v w \<longrightarrow> wallet_ok x v w' \<and> evolves w w')"

lemma good_refl [simp]: "good x v w w"
  by (simp add: good_def)

lemma good_trans: "good x v u w \<Longrightarrow> good x v w w' \<Longrightarrow> good x v u w'"
  by (auto simp: good_def intro: evolves_trans)

text \<open>The keys depend on the mnemonic and the network only.\<close>

lemma mint_keypair_same:
  "wf_mnemonic w' = wf_mnemonic w \<Longrightarrow> wf_network w' = wf_network w \<Longrightarrow> mint_keypair v w' i = mint_keypair v w i"
  by (simp add: mint_keypair_def wallet_key_def mint_key_path_def)

lemma mint_derived_same:
  "wf_mnemonic w' = wf_mnemonic w \<Longrightarrow> wf_network w' = wf_network w \<Longrightarrow> mint_derived x v w' m = mint_derived x v w m"
  using mint_keypair_same [of w' w] by (simp add: mint_derived_def)

lemma wallet_ok_same:
  assumes "wf_mnemonic w' = wf_mnemonic w" and "wf_network w' = wf_network w" and "wf_mints w' = wf_mints w"
    and "wf_next_mint_index w' = wf_next_mint_index w"
  shows "wallet_ok x v w' = wallet_ok x v w"
  using assms mint_derived_same [OF assms(1,2)] by (simp add: wallet_ok_def mint_ok_def)

lemma good_history:
  "history_extends (wf_transactions w) ts \<Longrightarrow> good x v w (w\<lparr>wf_transactions := ts\<rparr>)"
  using wallet_ok_same [of "w\<lparr>wf_transactions := ts\<rparr>" w] by (simp add: good_def evolves_def)

lemma good_append_tx: "good x v w (append_tx t w)"
  unfolding append_tx_def by (rule good_history) simp

lemma good_head: "good x v w (w\<lparr>wf_verified_head := h\<rparr>)"
  using wallet_ok_same [of "w\<lparr>wf_verified_head := h\<rparr>" w] by (simp add: good_def evolves_def)

lemma update_first_split:
  "find p as = Some a \<Longrightarrow> \<exists>us vs. as = us @ a # vs \<and> update_first p f as = us @ f a # vs"
proof (induction as)
  case (Cons b as)
  show ?case
  proof (cases "p b")
    case True
    with Cons.prems have "b # as = [] @ a # as \<and> update_first p f (b # as) = [] @ f a # as" by simp
    then show ?thesis by blast
  next
    case False
    with Cons obtain us vs where "as = us @ a # vs" "update_first p f as = us @ f a # vs" by auto
    with False have "b # as = (b # us) @ a # vs \<and> update_first p f (b # as) = (b # us) @ f a # vs" by simp
    then show ?thesis by blast
  qed
qed simp

lemma mints_extend_at: "mint_extends a b \<Longrightarrow> mints_extend (us @ a # vs) (us @ b # vs)"
  by (auto simp: mints_extend_def nth_append nth_Cons')

lemma update_first_unfound: "find p as = None \<Longrightarrow> update_first p f as = as"
  by (induction as) (auto split: if_splits)

lemma find_mint_index: "find_mint_by_index i w = Some m \<Longrightarrow> m \<in> set (wf_mints w) \<and> mr_bip32_index m = i"
  by (auto simp: find_mint_by_index_def find_Some_iff)

lemma good_update_mint:
  assumes "\<And>m. wallet_ok x v w \<Longrightarrow> find_mint_by_index i w = Some m \<Longrightarrow> mint_extends m (f m) \<and> mint_ok x v w (f m)"
  shows "good x v w (update_mint i f w)"
proof (cases "find_mint_by_index i w")
  case None
  then have "update_mint i f w = w" by (simp add: update_mint_def find_mint_by_index_def update_first_unfound)
  then show ?thesis by simp
next
  case (Some m)
  then obtain us vs where ms: "wf_mints w = us @ m # vs" "wf_mints (update_mint i f w) = us @ f m # vs"
    using update_first_split [of "\<lambda>m. mr_bip32_index m = i" "wf_mints w" m f]
    by (auto simp: update_mint_def find_mint_by_index_def)
  show ?thesis
  proof (unfold good_def, intro impI)
    assume ok: "wallet_ok x v w"
    note fm = assms [OF ok Some]
    have same: "mint_ok x v (update_mint i f w) n = mint_ok x v w n" for n
      using mint_derived_same [of "update_mint i f w" w] by (simp add: mint_ok_def update_mint_def)
    have "mr_bip32_index (f m) = mr_bip32_index m" using fm by (simp add: mint_extends_def)
    then have "wallet_ok x v (update_mint i f w)"
      using ok fm unfolding wallet_ok_def same ms by auto
    moreover have "evolves w (update_mint i f w)"
      using mints_extend_at [of m "f m" us vs] fm ms by (simp add: evolves_def update_mint_def)
    ultimately show "wallet_ok x v (update_mint i f w) \<and> evolves w (update_mint i f w)" ..
  qed
qed

section \<open>Every operation\<close>

lemma allocate_ok:
  "allocate_mint_keypair v w = (Inr (kp, i), w') \<Longrightarrow> i = wf_next_mint_index w \<and> mint_keypair v w i = Inr kp \<and>
     checked_add i 1 = Some (i + 1) \<and> w' = w\<lparr>wf_next_mint_index := i + 1\<rparr>"
  by (auto simp: allocate_mint_keypair_def op_success rbind_eq_Inr checked_add_def split: if_splits)

lemma allocate_err: "allocate_mint_keypair v w = (Inl e, w') \<Longrightarrow> w' = w"
  by (auto simp: allocate_mint_keypair_def op_failure op_success)

lemma counter_grows: "checked_add i 1 = Some (i + 1) \<Longrightarrow> j < i \<or> j = i \<Longrightarrow> j < (i + 1 :: u32)"
  using unat_checked_add [of i 1 "i + 1"] by (auto simp: word_less_nat_alt)

lemma wallet_ok_next:
  assumes "wallet_ok x v w" and "checked_add (wf_next_mint_index w) 1 = Some (wf_next_mint_index w + 1)"
  shows "wallet_ok x v (w\<lparr>wf_next_mint_index := wf_next_mint_index w + 1\<rparr>)"
  using assms mint_derived_same [of "w\<lparr>wf_next_mint_index := wf_next_mint_index w + 1\<rparr>" w] counter_grows
  by (auto simp: wallet_ok_def mint_ok_def)

lemma validated: "lock_in_range lock \<Longrightarrow> validate_lock_blocks lock = Inr ()"
  by simp

lemma mint_utxo_cases:
  "snd (mint_utxo x v lock w) = w \<or>
   (\<exists>kp address. let i = wf_next_mint_index w in mint_keypair v w i = Inr kp \<and> checked_add i 1 = Some (i + 1) \<and>
      mint_address x lock (keypair_xonly x kp) (into_bitcoin (wf_network w)) = Inr address \<and>
      snd (mint_utxo x v lock w) = append_mint (fresh_mint address lock i) (w\<lparr>wf_next_mint_index := i + 1\<rparr>))"
proof (cases "allocate_mint_keypair v w")
  case (Pair r w1)
  show ?thesis
  proof (cases r)
    case (Inl e)
    with Pair have "w1 = w" using allocate_err by blast
    with Pair Inl show ?thesis by (auto simp: mint_utxo_def op_bind_def op_result_def split: sum.splits)
  next
    case (Inr ki)
    obtain kp i where ki: "ki = (kp, i)" by (cases ki)
    note alloc = allocate_ok [OF Pair [unfolded Inr ki]]
    show ?thesis
    proof (cases "lock_in_range lock")
      case False
      then show ?thesis
        by (auto simp: mint_utxo_def op_bind_def op_result_def lock_in_range_iff not_le split: sum.splits)
    next
      case True
      then obtain address where a: "mint_address x lock (keypair_xonly x kp) (into_bitcoin (wf_network w)) = Inr address"
        using mint_address_ok [of x lock "keypair_xonly x kp"] by (auto simp: is_ok_iff)
      have "\<not> (lock = 0 \<or> MAX_LOCK_BLOCKS < lock)" using True by (simp add: lock_in_range_iff not_less)
      then have "snd (mint_utxo x v lock w) = append_mint (fresh_mint address lock i) (w\<lparr>wf_next_mint_index := i + 1\<rparr>)"
        using a alloc Pair Inr ki by (simp add: mint_utxo_def validated [OF True] op_bind_def op_result_def)
      then show ?thesis using alloc a by (auto simp: Let_def)
    qed
  qed
qed

lemma good_append_mint:
  assumes "mint_keypair v w i = Inr kp" and "i = wf_next_mint_index w" and "checked_add i 1 = Some (i + 1)"
    and "mint_address x lock (keypair_xonly x kp) (into_bitcoin (wf_network w)) = Inr address"
  shows "good x v w (append_mint (fresh_mint address lock i) (w\<lparr>wf_next_mint_index := i + 1\<rparr>))"
    (is "good x v w ?w")
proof (unfold good_def, intro impI)
  assume ok: "wallet_ok x v w"
  have derived: "mint_derived x v ?w n = mint_derived x v w n" for n
    by (rule mint_derived_same) (simp_all add: append_mint_def)
  have "mint_derived x v w (fresh_mint address lock i)"
    using assms by (auto simp: mint_derived_def fresh_mint_def)
  moreover have "i \<notin> mr_bip32_index ` set (wf_mints w)"
    using ok assms(2) by (auto simp: wallet_ok_def mint_ok_def)
  ultimately have "wallet_ok x v ?w"
    using ok assms(2) counter_grows [OF assms(3)] derived
    by (auto simp: wallet_ok_def mint_ok_def append_mint_def fresh_mint_def)
  moreover have "evolves w ?w"
    using assms(2) counter_grows [OF assms(3)] by (simp add: evolves_def append_mint_def order.strict_implies_order)
  ultimately show "wallet_ok x v ?w \<and> evolves w ?w" ..
qed

lemma good_mint_utxo: "good x v w (snd (mint_utxo x v lock w))"
  using mint_utxo_cases [of x v lock w] by (auto simp: Let_def intro: good_append_mint)

lemma good_record_funding:
  assumes "find_mint_by_index i w = Some m" and "\<not> (mr_outpoint m \<noteq> None \<and> mr_funded_at_height m \<noteq> None)"
  shows "good x v w (record_funding x s m u height w)"
proof -
  have i: "mr_bip32_index m = i" using find_mint_index [OF assms(1)] by simp
  have "good x v w (update_mint i (\<lambda>r. r\<lparr>mr_outpoint := Some p, mr_value_sat := Some a, mr_funded_at_height := Some h\<rparr>) w)"
    for p a h
  proof (rule good_update_mint)
    fix m' assume "wallet_ok x v w" "find_mint_by_index i w = Some m'"
    then have "mint_ok x v w m" "m' = m" using assms(1) find_mint_index [OF assms(1)] by (auto simp: wallet_ok_def)
    then show "mint_extends m' (m'\<lparr>mr_outpoint := Some p, mr_value_sat := Some a, mr_funded_at_height := Some h\<rparr>) \<and>
        mint_ok x v w (m'\<lparr>mr_outpoint := Some p, mr_value_sat := Some a, mr_funded_at_height := Some h\<rparr>)"
      using assms(2) by (auto simp: mint_extends_def mint_ok_def mint_derived_def)
  qed
  then show ?thesis
    unfolding record_funding_def Let_def i by (simp add: good_trans [OF _ good_append_tx])
qed

lemma good_check_mint_funding: "good x v w (snd (check_mint_funding x b net s i w))"
proof (cases "find_mint_by_index i w")
  case (Some m)
  then show ?thesis
    using good_record_funding [OF Some]
    by (cases "funding_utxos b net m w")
      (auto simp: check_mint_funding_def op_bind_def op_result_def Let_def split: list.split option.split)
qed (simp add: check_mint_funding_def op_bind_def op_result_def)

lemma mint_ok_flag:
  assumes "mint_ok x v w m" and "mr_outpoint m \<noteq> None"
  shows "mint_ok x v w (m\<lparr>mr_minted := True\<rparr>)" and "mint_ok x v w (m\<lparr>mr_reclaimed := True\<rparr>)"
  using assms unfolding mint_ok_def mint_derived_def by auto

lemma found_mint_ok: "wallet_ok x v w \<Longrightarrow> find_mint_by_index i w = Some m \<Longrightarrow> mint_ok x v w m"
  using find_mint_index by (auto simp: wallet_ok_def)

lemma good_flag:
  assumes "find_mint_by_index i w = Some m" and "mr_outpoint m \<noteq> None"
  shows "good x v w (update_mint i (\<lambda>r. r\<lparr>mr_minted := True\<rparr>) w)"
    and "good x v w (update_mint i (\<lambda>r. r\<lparr>mr_reclaimed := True\<rparr>) w)"
  using assms mint_ok_flag [OF found_mint_ok]
  by (auto intro!: good_update_mint simp: mint_extends_def)

lemma mint_request_funded:
  "mint_request x v net i dest w = Inr r \<Longrightarrow> \<exists>m. find_mint_by_index i w = Some m \<and> mr_outpoint m \<noteq> None"
  by (auto simp: mint_request_def rbind_eq_Inr)

lemma good_mint_message: "good x v w (snd (mint_message x v net s i dest w))"
proof (cases "mint_request x v net i dest w")
  case (Inr r)
  then obtain m where "find_mint_by_index i w = Some m" "mr_outpoint m \<noteq> None" using mint_request_funded by blast
  note flag = good_trans [OF good_flag(1) [OF this] good_append_tx]
  show ?thesis
    by (auto simp: mint_message_def op_bind_def op_result_def Inr Let_def flag good_append_tx split: prod.split sum.split)
qed (simp add: mint_message_def op_bind_def op_result_def)

lemma good_wallet_transfer: "good x v w (snd (wallet_transfer x v net s dest amount w))"
  by (auto simp: wallet_transfer_def op_bind_def op_result_def Let_def good_append_tx split: prod.split sum.split)

lemma reclaim_tx_funded:
  "reclaim_tx x v b net i dest fee w = Inr r \<Longrightarrow> \<exists>m. find_mint_by_index i w = Some m \<and> mr_outpoint m \<noteq> None"
  by (auto simp: reclaim_tx_def reclaim_plan_def rbind_eq_Inr split: if_splits)

lemma good_reclaim_mint: "good x v w (snd (reclaim_mint x v b net s i dest fee w))"
proof (cases "reclaim_tx x v b net i dest fee w")
  case (Inr r)
  then obtain m where "find_mint_by_index i w = Some m" "mr_outpoint m \<noteq> None" using reclaim_tx_funded by blast
  note flag = good_trans [OF good_flag(2) [OF this] good_append_tx]
  show ?thesis
    by (auto simp: reclaim_mint_def op_bind_def op_result_def Inr Let_def flag split: prod.split sum.split)
qed (simp add: reclaim_mint_def op_bind_def op_result_def)

lemma good_projection: "good x v w (project_events x s evs w)"
  by (subst projection.rest) (rule good_history [OF projection.extends])

lemma good_refresh: "good x v w (snd (finalize_and_refresh x s es tip w))"
  by (subst refresh.rest) (rule good_history [OF refresh.extends])

lemma good_light_balance:
  assumes "light_balance x v net s s' addr w = Some (r, w')"
  shows "good x v w w'"
proof (cases "light_start x v addr w")
  case (Inl e)
  with assms show ?thesis by (simp add: light_balance_def)
next
  case (Inr ot)
  obtain own target where ot: "ot = (own, target)" by (cases ot)
  let ?taken = "w\<lparr>wf_verified_head := None\<rparr>"
  note taken = good_head [of x v w None]
  obtain walked where walk: "light_walk x (ApiClient_new net w) (EsploraClient_new net w) own (wf_verified_head w) = Some walked"
    using assms Inr ot by (auto simp: light_balance_def Let_def)
  show ?thesis
  proof (cases walked)
    case (Inl e)
    with assms walk Inr ot taken show ?thesis by (simp add: light_balance_def Let_def)
  next
    case walked: (Inr q)
    obtain head mode n events where q: "q = (head, mode, n, events)" by (cases q)
    let ?projected = "if events = [] then ?taken else project_events x s events ?taken"
    have projected: "good x v w ?projected" using taken good_trans [OF taken good_projection] by simp
    have refreshed: "good x v w (snd (finalize_and_refresh x s' es tip ?projected))" for es tip
      by (rule good_trans [OF projected good_refresh])
    show ?thesis
      using assms walk walked Inr q ot refreshed good_trans [OF refreshed good_head]
      by (auto simp: light_balance_def Let_def split: sum.splits)
  qed
qed

section \<open>Runs of a wallet\<close>

text \<open>Any operations in any order, each against whatever the network answers at the time.\<close>

inductive wallet_step :: "ext \<Rightarrow> vault \<Rightarrow> btc \<Rightarrow> WalletFile \<Rightarrow> WalletFile \<Rightarrow> bool" for x v b where
  step_mint_utxo: "wallet_step x v b w (snd (mint_utxo x v lock w))"
| step_check: "wallet_step x v b w (snd (check_mint_funding x b net s i w))"
| step_mint: "wallet_step x v b w (snd (mint_message x v net s i dest w))"
| step_transfer: "wallet_step x v b w (snd (wallet_transfer x v net s dest amount w))"
| step_light: "light_balance x v net s s' addr w = Some (r, w') \<Longrightarrow> wallet_step x v b w w'"
| step_reclaim: "wallet_step x v b w (snd (reclaim_mint x v b net s i dest fee w))"

lemma good_step: "wallet_step x v b w w' \<Longrightarrow> good x v w w'"
  by (induction rule: wallet_step.induct)
    (simp_all add: good_mint_utxo good_check_mint_funding good_mint_message good_wallet_transfer
      good_light_balance good_reclaim_mint)

lemma good_run: "(wallet_step x v b)\<^sup>*\<^sup>* w w' \<Longrightarrow> good x v w w'"
  by (induction rule: rtranclp_induct) (auto intro: good_trans good_step)

lemma wallet_ok_keygen: "keygen x v entropy input = Inr (w, out) \<Longrightarrow> wallet_ok x v w"
  by (auto simp: keygen_def Let_def rbind_eq_Inr wallet_ok_def)

end
