(* ===== verification/Wallets.thy ===== *)
theory Wallets
  imports WalletFile "HOL-Library.AList"
begin

text \<open>
  \<open>hodl-wallet/src/wallets.rs\<close>: a directory of named wallets. The directory is its entries in the
  order that \<open>read_dir\<close> gives them, names once each; \<open>None\<close> is a directory that does not exist.
\<close>

definition MAX_NAME_LEN :: nat where "MAX_NAME_LEN = 32"

datatype WalletsError = NameEmpty | NameTooLong nat | NameChar char | MkdirFailed | ReadDirFailed | RenameFailed

definition is_ascii_alphanumeric :: "char \<Rightarrow> bool" where
  "is_ascii_alphanumeric c \<longleftrightarrow> (let k = (of_char c :: nat) in
     48 \<le> k \<and> k \<le> 57 \<or> 65 \<le> k \<and> k \<le> 90 \<or> 97 \<le> k \<and> k \<le> 122)"

definition name_char :: "char \<Rightarrow> bool" where
  "name_char c \<longleftrightarrow> is_ascii_alphanumeric c \<or> c = CHR ''-'' \<or> c = CHR ''_''"

definition validate_name :: "string \<Rightarrow> (WalletsError, string) result" where
  "validate_name name =
     (if name = [] then Inl NameEmpty
      else if MAX_NAME_LEN < length name then Inl (NameTooLong (length name))
      else rbind (rall (\<lambda>c. ensure (name_char c) (NameChar c)) name) (\<lambda>_. Inr name))"

text \<open>\<open>Path::join\<close> of a file name.\<close>

definition path_join :: "string \<Rightarrow> string \<Rightarrow> string" where
  "path_join dir f = (if dir = [] \<or> last dir = CHR ''/'' then dir @ f else dir @ CHR ''/'' # f)"

definition wallet_path_for :: "string \<Rightarrow> string \<Rightarrow> (WalletsError, string) result" where
  "wallet_path_for wallets_dir name =
     rbind (validate_name name) (\<lambda>name. Inr (path_join wallets_dir (name @ ''.json'')))"

datatype DirEntry = RegularFile FileContent | Symlink | Subdirectory

datatype HomeOp = HomeMkdir | HomeReadDir | HomeRename

record WalletHome =
  legacy_file :: "FileContent option"
  wallets_dir :: "(string \<times> DirEntry) list option"
  home_fault :: "HomeOp \<Rightarrow> bool"

definition ensure_wallets_dir :: "(WalletHome, WalletsError, unit) act" where
  "ensure_wallets_dir = op_write (\<lambda>h.
     if home_fault h HomeMkdir then Inl MkdirFailed
     else Inr (h\<lparr>wallets_dir := Some (case wallets_dir h of Some es \<Rightarrow> es | None \<Rightarrow> [])\<rparr>))"

definition strip_suffix :: "string \<Rightarrow> string \<Rightarrow> string option" where
  "strip_suffix suf s =
     (if length suf \<le> length s \<and> drop (length s - length suf) s = suf then Some (take (length s - length suf) s) else None)"

definition listed_stem :: "string \<times> DirEntry \<Rightarrow> string option" where
  "listed_stem e = (case e of
     (name, RegularFile _) \<Rightarrow>
       (case strip_suffix ''.json'' name of
          Some stem \<Rightarrow> if is_ok (validate_name stem) then Some stem else None
        | None \<Rightarrow> None)
   | _ \<Rightarrow> None)"

definition list_wallet_files :: "WalletHome \<Rightarrow> (WalletsError, string list) result" where
  "list_wallet_files h =
     (case wallets_dir h of
        None \<Rightarrow> Inr []
      | Some es \<Rightarrow> if home_fault h HomeReadDir then Inl ReadDirFailed else Inr (sort (List.map_filter listed_stem es)))"

text \<open>A rename into the directory replaces a file or a link and is refused on a directory.\<close>

definition rename_into :: "string \<Rightarrow> (WalletHome, WalletsError, unit) act" where
  "rename_into name = op_write (\<lambda>h.
     case (legacy_file h, wallets_dir h) of
       (Some content, Some es) \<Rightarrow>
         if home_fault h HomeRename \<or> map_of es name = Some Subdirectory then Inl RenameFailed
         else Inr (h\<lparr>legacy_file := None, wallets_dir := Some (AList.update name (RegularFile content) es)\<rparr>)
     | _ \<Rightarrow> Inl RenameFailed)"

definition migrate_legacy_wallet :: "(WalletHome, WalletsError, unit) act" where
  "migrate_legacy_wallet =
     op_bind (op_gets legacy_file) (\<lambda>legacy. case legacy of
       None \<Rightarrow> op_return ()
     | Some _ \<Rightarrow>
         op_bind ensure_wallets_dir (\<lambda>_.
         op_bind (op_result list_wallet_files) (\<lambda>names.
         if names \<noteq> [] then op_return ()
         else
           op_bind (op_result (\<lambda>_. validate_name ''default'')) (\<lambda>name. rename_into (name @ ''.json'')))))"

section \<open>Names and paths\<close>

lemma validate_name_iff:
  "validate_name name = Inr n \<longleftrightarrow> n = name \<and> name \<noteq> [] \<and> length name \<le> MAX_NAME_LEN \<and> (\<forall>c\<in>set name. name_char c)"
  by (auto simp: validate_name_def rbind_eq_Inr rall_eq_Inr)

lemma name_char_plain: "name_char c \<Longrightarrow> c \<noteq> CHR ''/'' \<and> c \<noteq> CHR ''.''"
  by (auto simp: name_char_def is_ascii_alphanumeric_def Let_def)

lemma path_join_inj: "path_join dir f = path_join dir g \<longleftrightarrow> f = g"
  by (simp add: path_join_def)

lemma strip_suffix_append [simp]: "strip_suffix suf (s @ suf) = Some s"
  by (simp add: strip_suffix_def)

lemma strip_suffix_eq: "strip_suffix suf s = Some t \<longleftrightarrow> s = t @ suf"
  by (auto simp: strip_suffix_def) (metis append_take_drop_id)

section \<open>Migration\<close>

lemma default_name: "validate_name ''default'' = Inr ''default''"
  by (simp add: validate_name_iff MAX_NAME_LEN_def name_char_def is_ascii_alphanumeric_def Let_def)

lemma listed_default: "listed_stem (''default.json'', RegularFile c) = Some ''default''"
proof -
  have "strip_suffix ''.json'' ''default.json'' = Some ''default''" by (simp add: strip_suffix_eq)
  then show ?thesis by (simp add: listed_stem_def default_name)
qed

lemma sort_Nil_iff: "sort xs = [] \<longleftrightarrow> xs = []"
  by (metis length_0_conv length_sort)

lemma nothing_listed:
  "list_wallet_files h = Inr [] \<Longrightarrow> wallets_dir h = Some es \<Longrightarrow> (n, RegularFile c) \<in> set es \<Longrightarrow> n \<noteq> ''default.json''"
proof
  assume a: "list_wallet_files h = Inr []" "wallets_dir h = Some es" "(n, RegularFile c) \<in> set es" "n = ''default.json''"
  then have "List.map_filter listed_stem es = []" by (auto simp: list_wallet_files_def sort_Nil_iff split: if_splits)
  then have "\<forall>e\<in>set es. listed_stem e = None" by (auto simp: List.map_filter_def filter_empty_conv)
  with a listed_default [of c] show False by auto
qed

definition holds_wallet :: "WalletHome \<Rightarrow> string \<Rightarrow> FileContent \<Rightarrow> bool" where
  "holds_wallet h name c \<longleftrightarrow> (\<exists>es. wallets_dir h = Some es \<and> map_of es name = Some (RegularFile c))"

lemma ensure_keeps:
  "ensure_wallets_dir h = (r, h') \<Longrightarrow> legacy_file h' = legacy_file h \<and> home_fault h' = home_fault h \<and>
     (\<forall>n c. holds_wallet h' n c \<longleftrightarrow> holds_wallet h n c) \<and> (r = Inr () \<longrightarrow> wallets_dir h' \<noteq> None)"
  by (auto simp: ensure_wallets_dir_def op_write_def holds_wallet_def split: option.splits if_splits)

lemma rename_keeps:
  assumes "rename_into ''default.json'' h = (r, h')" and "list_wallet_files h = Inr []"
  shows "(holds_wallet h n c \<longrightarrow> holds_wallet h' n c) \<and>
    (legacy_file h = Some l \<longrightarrow> legacy_file h' = Some l \<or> holds_wallet h' ''default.json'' l)"
proof (cases r)
  case (Inl e)
  then have "h' = h" using assms(1) by (simp add: rename_into_def op_write_Inl)
  then show ?thesis by simp
next
  case (Inr u)
  then obtain k es where h: "legacy_file h = Some k" "wallets_dir h = Some es"
    "h' = h\<lparr>legacy_file := None, wallets_dir := Some (AList.update ''default.json'' (RegularFile k) es)\<rparr>"
    using assms(1) by (auto simp: rename_into_def op_write_Inr split: option.splits if_splits)
  have "n \<noteq> ''default.json''" if "holds_wallet h n c"
    using that nothing_listed [OF assms(2) h(2)] h(2) by (auto simp: holds_wallet_def dest: map_of_SomeD)
  then show ?thesis using h by (auto simp: holds_wallet_def update_conv')
qed

text \<open>Whatever fails and wherever it stops: every wallet in the directory stays, and the legacy
  wallet is in its old place or the new.\<close>

lemma migrate_keeps:
  assumes "migrate_legacy_wallet h = (r, h')"
  shows "(holds_wallet h n c \<longrightarrow> holds_wallet h' n c) \<and>
    (legacy_file h = Some l \<longrightarrow> legacy_file h' = Some l \<or> holds_wallet h' ''default.json'' l)"
proof (cases "legacy_file h")
  case None
  then show ?thesis using assms by (simp add: migrate_legacy_wallet_def op_bind_def)
next
  case (Some k)
  obtain r1 h1 where e: "ensure_wallets_dir h = (r1, h1)" by (cases "ensure_wallets_dir h")
  note keep = ensure_keeps [OF e]
  have moves: "\<not> (is_ok r1 \<and> list_wallet_files h1 = Inr []) \<Longrightarrow> h' = h1"
    "is_ok r1 \<Longrightarrow> list_wallet_files h1 = Inr [] \<Longrightarrow> rename_into ''default.json'' h1 = (r, h')"
    using assms Some e
    by (auto simp: migrate_legacy_wallet_def op_bind_def op_result_def default_name split: sum.splits if_splits)
  show ?thesis
  proof (cases "is_ok r1 \<and> list_wallet_files h1 = Inr []")
    case True
    with moves(2) have "rename_into ''default.json'' h1 = (r, h')" "list_wallet_files h1 = Inr []" by auto
    from rename_keeps [OF this] keep show ?thesis by metis
  next
    case False
    with moves(1) keep show ?thesis by auto
  qed
qed

end
