(* ===== verification/WalletSample.thy ===== *)
theory WalletSample
  imports WalletInvariant Wallets SeqSample
begin

text \<open>A concrete wallet for closed witnesses: Alice's, whose every key is the one of theory \<open>Sample\<close>,
  with the deposit of that theory as its first mint, and the services of that theory behind its
  URLs.\<close>

definition toy_vault :: vault where
  "toy_vault = \<lparr> argon2id = (\<lambda>_ pw salt. Some (pw @ salt)), argon2_default = \<lparr> m_cost = 19456, t_cost = 2, p_cost = 1 \<rparr>,
     aead_encrypt = (\<lambda>k n p. Some (p @ k)),
     aead_decrypt = (\<lambda>k n c. if drop (length c - length k) c = k then Some (take (length c - length k) c) else None),
     b64_encode = map (\<lambda>b. char_of (unat b)), b64_decode = (\<lambda>s. Some (bytes_of s)),
     from_utf8 = (\<lambda>bs. Some (map (\<lambda>b. char_of (unat b)) bs)),
     bip39_parse = Some, bip39_generate = (\<lambda>_. ''word''), derive_keypair = (\<lambda>_ _ _. Some 1) \<rparr>"

lemma vault_ok_toy: "vault_ok toy_vault"
  by (simp add: vault_ok_def toy_vault_def bytes_of_def o_def of_char_of_u8 unat_u8_of_char)

definition toy_btc :: btc where
  "toy_btc = \<lparr> address_from_str = Some, is_on_network = (\<lambda>_ _. True), address_script = bytes_of,
     control_block_of = (\<lambda>_ _. Some [0xc0]), commitment_ok = (\<lambda>_ _ _. True),
     script_spend_sighash = (\<lambda>_ _ _ _. Some 5), sign_no_aux_rand = (\<lambda>m kp. word_cat m kp),
     tap_signature_bytes = be_bytes 64 \<rparr>"

definition deposit_address :: string where
  "deposit_address = (case mint_address toy_ext 144 alice NetRegtest of Inr a \<Rightarrow> a | Inl _ \<Rightarrow> [])"

lemma deposit_address: "mint_address toy_ext 144 alice NetRegtest = Inr deposit_address"
  using mint_address_ok [of toy_ext 144 alice NetRegtest] lock_144
  by (auto simp: deposit_address_def is_ok_iff)

definition sample_mint :: MintRecord where
  "sample_mint = \<lparr> mr_mint_address = deposit_address, mr_lock_blocks = 144, mr_bip32_index = 0,
     mr_outpoint = Some (show_outpoint toy_ext deposit), mr_value_sat = Some 1000, mr_funded_at_height = Some 100,
     mr_minted = False, mr_reclaimed = False \<rparr>"

definition sample_wallet :: WalletFile where
  "sample_wallet = \<lparr> wf_network = Regtest, wf_mnemonic = ''word'', wf_sequencer_url = ''seq'', wf_node_url = Some ''node'',
     wf_esplora_url = ''l1'', wf_next_mint_index = 1, wf_mints = [sample_mint], wf_verified_head = Some head0,
     wf_transactions = [], wf_encryption_ctx = None \<rparr>"

definition sample_net :: Internet where
  "sample_net = \<lparr> service_at = (\<lambda>_. sample_service), esplora_at = (\<lambda>_. sample_esplora),
     broadcast_at = (\<lambda>_ _. Inr 12) \<rparr>"

definition sample_supply :: Supply where
  "sample_supply = \<lparr> now_at = (\<lambda>i. 1700001000 + of_nat i), random_at = of_nat \<rparr>"

lemma toy_keys [simp]: "mint_keypair toy_vault w i = Inr 1" "l2_identity_keypair toy_vault w = Inr 1"
  by (simp_all add: mint_keypair_def l2_identity_keypair_def wallet_key_def toy_vault_def)

lemma toy_xonly [simp]: "keypair_xonly toy_ext 1 = alice" "l2_identity_xonly toy_ext toy_vault w = Inr alice"
  by (simp_all add: l2_identity_xonly_def) (simp_all add: toy_ext_def alice_def)

lemma sample_wallet_ok: "wallet_ok toy_ext toy_vault sample_wallet"
  by (simp add: wallet_ok_def mint_ok_def mint_derived_def sample_wallet_def sample_mint_def deposit_address)

lemma sample_find: "find_mint_by_index 0 sample_wallet = Some sample_mint"
  by (simp add: find_mint_by_index_def sample_wallet_def sample_mint_def)

lemma sample_clients:
  "ApiClient_new sample_net sample_wallet = sample_api"
  "EsploraClient_new sample_net sample_wallet = sample_esplora"
  by (simp_all add: ApiClient_new_def EsploraClient_new_def sample_net_def sample_wallet_def sample_api_def)

lemma wallet_parse_show: "txid_str_ok x \<Longrightarrow> wallet_parse_outpoint x (show_outpoint x p) = Inr p"
proof -
  assume "txid_str_ok x"
  moreover from this have "split_once CHR '':'' (show_outpoint x p) = Some (txid_to_string x (txid p), u32_to_string (vout p))"
    using split_once_append by (simp add: show_outpoint_def txid_str_ok_def)
  ultimately show ?thesis by (simp add: wallet_parse_outpoint_def txid_str_ok_def)
qed

lemma toy_address_inj: "p2tr_tweaked_address toy_ext k n = p2tr_tweaked_address toy_ext k' n \<Longrightarrow> k = k'"
proof -
  assume "p2tr_tweaked_address toy_ext k n = p2tr_tweaked_address toy_ext k' n"
  then have "map (\<lambda>b. char_of (unat b) :: char) (serialize k) = map (\<lambda>b. char_of (unat b)) (serialize k')"
    by (simp add: toy_ext_def)
  then have "map (of_char :: char \<Rightarrow> u8) (map (\<lambda>b. char_of (unat b)) (serialize k)) =
      map of_char (map (\<lambda>b. char_of (unat b)) (serialize k'))" by (simp only:)
  then show ?thesis by (simp add: o_def of_char_of_u8 enc_injs)
qed

end
