(* ===== verification/WalletProperties.thy ===== *)
theory WalletProperties
  imports WalletSample WalkCorrect
begin

text \<open>The properties of the wallet by itself: its file, its records through any run of operations and its
  history.\<close>

section \<open>The wallet file\<close>

text \<open>C14: what \<open>save\<close> writes loads as the wallet that was saved. With the passphrase where it is encrypted,
  \<open>load_unlocked\<close> returns it whole, unlock context included; the plain \<open>load\<close> returns it or asks for the
  passphrase, and a cached context opens it without one.\<close>

theorem wallet_save_load:
  assumes "vault_ok v" and "length nonce = NONCE_LEN" and "WalletFile_save v nonce w f fs = (Inr (), fs')"
    and "\<not> fs_fault fs FsRead" and "\<forall>ctx. wf_encryption_ctx w = Some ctx \<longrightarrow> (\<exists>p. pp = Some p \<and> unlocks v p ctx)"
  shows "load_unlocked v fs' f pp = Inr w \<and> is_encrypted_at fs' f = Inr (is_encrypted w) \<and>
    WalletFile_load v fs' f = (if is_encrypted w then Inl NeedsPassphrase else Inr w) \<and>
    (\<forall>ctx. wf_encryption_ctx w = Some ctx \<longrightarrow> load_with_context v fs' f ctx = Inr w)"
proof -
  obtain d where d: "to_disk v nonce w = Inr d" and read: "read_disk fs' f = Inr d"
    using save_ok [OF assms(3)] assms(4) by (auto simp: read_disk_def)
  have loaded: "from_disk v d pp = Inr w" using from_to_disk [OF d assms(1,2)] assms(5) by blast
  show ?thesis
  proof (cases "wf_encryption_ctx w")
    case None
    then have "dl_encrypted_mnemonic d = None" using d by (auto simp: to_disk_def Let_def)
    then show ?thesis using loaded read None
      by (auto simp: load_unlocked_def is_encrypted_at_def is_encrypted_def WalletFile_load_def from_disk_def)
  next
    case (Some ctx)
    then obtain blob where b: "reencrypt v nonce (wf_mnemonic w) ctx = Inr blob" "dl_encrypted_mnemonic d = Some blob"
      "dl_version d = Some 2" using d by (auto simp: to_disk_def Let_def rbind_eq_Inr)
    then show ?thesis
      using loaded read Some context_decrypts_reencrypted [OF assms(1,2) b(1)] with_to_disk [OF d]
      by (simp add: load_unlocked_def is_encrypted_at_def is_encrypted_def WalletFile_load_def from_disk_def
          load_with_context_def)
  qed
qed

definition encrypted_wallet :: WalletFile where
  "encrypted_wallet = sample_wallet\<lparr>wf_encryption_ctx :=
     Some \<lparr> uc_key = bytes_of ''pw'' @ replicate 16 7, uc_salt = replicate 16 7,
            uc_kdf_params = KdfParams_default toy_vault \<rparr>\<rparr>"

definition sample_files :: Files where
  "sample_files = \<lparr> fs_files = Map.empty, fs_fault = (\<lambda>_. False), fs_torn = Other [] \<rparr>"

theorem wallet_save_load_witness:
  "\<exists>fs'. WalletFile_save toy_vault (replicate 24 3) encrypted_wallet ''w.json'' sample_files = (Inr (), fs') \<and>
     load_unlocked toy_vault fs' ''w.json'' (Some ''pw'') = Inr encrypted_wallet"
proof -
  obtain fs' where save: "WalletFile_save toy_vault (replicate 24 3) encrypted_wallet ''w.json'' sample_files = (Inr (), fs')"
    by (simp add: WalletFile_save_def Let_def op_bind_def op_result_def to_disk_def encrypted_wallet_def reencrypt_def
        encrypt_with_key_def toy_vault_def [THEN arg_cong, of aead_encrypt] fs_write_def fs_rename_def sample_files_def)
  have "unlocks toy_vault ''pw'' \<lparr> uc_key = bytes_of ''pw'' @ replicate 16 7, uc_salt = replicate 16 7,
      uc_kdf_params = KdfParams_default toy_vault \<rparr>"
    by (simp add: unlocks_def SALT_LEN_def toy_vault_def [THEN arg_cong, of argon2id])
  then have "load_unlocked toy_vault fs' ''w.json'' (Some ''pw'') = Inr encrypted_wallet"
    using wallet_save_load [OF vault_ok_toy _ save, of "Some ''pw''"]
    by (simp add: NONCE_LEN_def sample_files_def encrypted_wallet_def)
  with save show ?thesis by blast
qed

text \<open>C24: a save is atomic. Whatever write or rename is refused, no file but the wallet and its temporary file
  is touched, and the wallet file itself is unchanged after a failure and the whole new wallet
  after a success; the temporary file is never the wallet file.\<close>

theorem wallet_save_atomic:
  "case WalletFile_save v nonce w f fs of (r, fs') \<Rightarrow>
     let tmp = with_extension f ''json.tmp''
     in tmp \<noteq> f \<and>
        fs_files fs' = (fs_files fs)(tmp := fs_files fs' tmp,
          f := (case r of Inl _ \<Rightarrow> fs_files fs f | Inr _ \<Rightarrow> map_option Json (case to_disk v nonce w of Inr d \<Rightarrow> Some d | Inl _ \<Rightarrow> None)))"
proof -
  have tmp: "with_extension f ''json.tmp'' \<noteq> f" by (rule tmp_differs)
  show ?thesis
  proof (cases "to_disk v nonce w")
    case (Inl e)
    then show ?thesis using tmp by (simp add: WalletFile_save_def op_bind_def op_result_def Let_def fun_eq_iff)
  next
    case (Inr d)
    then show ?thesis using tmp
      by (auto simp: WalletFile_save_def op_bind_def op_result_def Let_def fs_write_def fs_rename_def fun_eq_iff)
  qed
qed

section \<open>Runs\<close>

text \<open>C13: through any run of operations from a fresh wallet, against any answers of the network, the mint records have
  distinct indices below the counter, every deposit address is the one its own key and lock
  derive, and a record is minted or reclaimed only with a known deposit.\<close>

theorem wallet_records_invariant:
  assumes "keygen x v entropy input = Inr (w0, out)" and "(wallet_step x v b)\<^sup>*\<^sup>* w0 w"
  shows "wallet_ok x v w"
  using good_run [OF assms(2)] wallet_ok_keygen [OF assms(1)] by (simp add: good_def)

definition sample_keygen :: KeygenInput where
  "sample_keygen = \<lparr> ki_network = Regtest, ki_sequencer_url = ''seq'', ki_node_url = None, ki_esplora_url = ''l1'',
     ki_mnemonic = Some '' word '' \<rparr>"

theorem wallet_records_invariant_witness:
  "\<exists>w0 out. keygen toy_ext toy_vault [] sample_keygen = Inr (w0, out) \<and>
     wallet_ok toy_ext toy_vault (snd (mint_utxo toy_ext toy_vault 144 w0))"
proof -
  obtain w0 out where k: "keygen toy_ext toy_vault [] sample_keygen = Inr (w0, out)"
    by (simp add: keygen_def sample_keygen_def Let_def toy_vault_def [THEN arg_cong, of bip39_parse])
  have "(wallet_step toy_ext toy_vault toy_btc)\<^sup>*\<^sup>* w0 (snd (mint_utxo toy_ext toy_vault 144 w0))"
    by (intro r_into_rtranclp step_mint_utxo)
  from wallet_records_invariant [OF k this] k show ?thesis by blast
qed

text \<open>C23: nothing is forgotten. Over any run, mint records and history entries stay in their places; what is known
  of a deposit is never replaced, no flag is taken back, an entry changes in nothing but its
  status, a finalized entry not at all, and the keys and the encryption stay.\<close>

theorem wallet_only_grows:
  assumes "wallet_ok x v w" and "(wallet_step x v b)\<^sup>*\<^sup>* w w'"
  shows "evolves w w'"
  using good_run [OF assms(2)] assms(1) by (simp add: good_def)

theorem wallet_only_grows_witness:
  "evolves sample_wallet (snd (reclaim_mint toy_ext toy_vault toy_btc sample_net sample_supply 0 ''dest'' 10 sample_wallet))"
  by (rule wallet_only_grows [OF sample_wallet_ok, where b = toy_btc]) (intro r_into_rtranclp step_reclaim)

section \<open>History\<close>

text \<open>\<open>project_events\<close> is idempotent, as its comment says. Projecting a batch a second time, with the clock and the
  identifiers of that time, changes nothing, when each event has a key of its own and the time
  of its block.\<close>

theorem project_events_idempotent:
  assumes "distinct (map event_key evs)" and "\<forall>ev\<in>set evs. te_block_ts ev \<noteq> 0"
  shows "project_events x s' evs (project_events x s evs w) = project_events x s evs w"
  using assms project_events_reflects by (intro project_events_again) blast

definition sample_events :: "TxEvent list" where
  "sample_events = concat (map (tx_events toy_ext alice 1 (header block1)) (txs block1))"

lemma sample_events_eq:
  "sample_events = [\<lparr> te_l2_height = 1, te_l1_height = 100, te_block_ts = 1700000600,
       te_kind = MintIn 999 (nullifier_hex (event sample_entry)) \<rparr>,
     \<lparr> te_l2_height = 1, te_l1_height = 100, te_block_ts = 1700000600,
       te_kind = TransferOut bob 500 (hex_encode toy_ext (be_bytes 32 (transfer_sighash toy_ext sample_body))) \<rparr>]"
  by (simp add: sample_events_def block1_def sample_txs_def tx_events_def Let_def sample_event
      sample_transfer_def sample_body_def)

theorem project_events_idempotent_witness:
  "wf_transactions (project_events toy_ext sample_supply sample_events sample_wallet) \<noteq> [] \<and>
   project_events toy_ext sample_supply sample_events (project_events toy_ext sample_supply sample_events sample_wallet) =
     project_events toy_ext sample_supply sample_events sample_wallet"
proof
  show "wf_transactions (project_events toy_ext sample_supply sample_events sample_wallet) \<noteq> []"
    using project_events_reflects [of sample_events "hd sample_events" toy_ext sample_supply sample_wallet]
    by (auto simp: sample_events_eq event_key_def reflected_def)
qed (rule project_events_idempotent; simp add: sample_events_eq event_key_def)

text \<open>A transfer that is refused and sent again, unchanged, stays soft for ever in the history. Both records carry
  the same hash, the block's event finds the refused one first and marks that as included; the accepted one
  keeps its status however often the event is projected.\<close>

theorem retried_transfer_stays_soft:
  assumes "te_kind ev = TransferOut recipient amount h"
    and "wf_transactions w = ts @ [refused, accepted]" and "\<not> list_ex (matches L2TransferSent h) ts"
    and "matches L2TransferSent h refused" and "tr_status refused = Failed reason t"
    and "matches L2TransferSent h accepted" and "tr_status accepted = Soft t'"
  shows "\<exists>i. wf_transactions (project_event x n r ev w) =
     ts @ [refused\<lparr>tr_status := InBlock (te_l2_height ev) (te_l1_height ev) i\<rparr>, accepted]"
proof -
  have skip: "update_first p f (ts @ us) = ts @ update_first p f us" if "\<not> list_ex p ts" for p and f :: "TxRecord \<Rightarrow> TxRecord" and us
    using that by (induction ts) auto
  show ?thesis using assms by (auto simp: project_event_def Let_def skip flip_status_def)
qed

definition sent_record :: "WalletTxStatus \<Rightarrow> TxRecord" where
  "sent_record st = (observed_record ''id'' L2TransferSent 1 500 None st ''hash'')"

definition out_event :: TxEvent where
  "out_event = \<lparr> te_l2_height = 3, te_l1_height = 104, te_block_ts = 8, te_kind = TransferOut bob 500 ''hash'' \<rparr>"

definition retried_wallet :: WalletFile where
  "retried_wallet = sample_wallet\<lparr>wf_transactions := [sent_record (Failed ''bad signature'' 5), sent_record (Soft 6)]\<rparr>"

theorem retried_transfer_stays_soft_witness:
  "\<exists>i. wf_transactions (project_event toy_ext 9 9 out_event retried_wallet) =
     [] @ [(sent_record (Failed ''bad signature'' 5))\<lparr>tr_status := InBlock (te_l2_height out_event) (te_l1_height out_event) i\<rparr>,
           sent_record (Soft 6)]"
  by (rule retried_transfer_stays_soft [where h = "''hash''" and recipient = bob and amount = 500])
    (simp_all add: retried_wallet_def out_event_def sent_record_def observed_record_def matches_def)

end
