(* ===== verification/WalletNetProperties.thy ===== *)
theory WalletNetProperties
  imports WalletSample WalkCorrect
begin

text \<open>The properties of the wallet's operations against a sequencer and an L1 endpoint: claiming
  and reclaiming a deposit, verified balances, and the directory of wallets.\<close>

section \<open>Claiming a deposit\<close>







section \<open>Reclaiming a deposit\<close>

lemma update_mint_found:
  assumes "find_mint_by_index i w = Some m" and "mr_bip32_index (f m) = mr_bip32_index m"
  shows "find_mint_by_index i (append_tx t (update_mint i f w)) = Some (f m)"
proof -
  have "find p (update_first p f as) = Some (f a)" if "find p as = Some a" "p (f a)" for p a and as :: "MintRecord list"
    using that by (induction as) (auto split: if_splits)
  then show ?thesis
    using assms find_mint_index [OF assms(1)] by (simp add: find_mint_by_index_def append_tx_def update_mint_def)
qed

lemma reclaim_plan_ok:
  "reclaim_plan x b net i d w = Inr p \<Longrightarrow> \<exists>m h tip. find_mint_by_index i w = Some m \<and> \<not> mr_reclaimed m \<and>
     mr_funded_at_height m = Some h \<and> mr_value_sat m = Some (rp_value p) \<and> mr_lock_blocks m = rp_lock p \<and>
     Option.bind (mr_outpoint m) (\<lambda>s. case wallet_parse_outpoint x s of Inr q \<Rightarrow> Some q | Inl _ \<Rightarrow> None) = Some (rp_outpoint p) \<and>
     address_from_str b d = Some (rp_dest p) \<and> is_on_network b (rp_dest p) (into_bitcoin (wf_network w)) \<and>
     es_tip_height (EsploraClient_new net w) = Inr tip \<and> sat_add h (rp_lock p) \<le> sat_add tip 1"
  by (auto simp: reclaim_plan_def rbind_eq_Inr Let_def not_less split: if_splits)

text \<open>C22: a reclaim spends the deposit it names, once, and not too early. When \<open>reclaim_mint\<close> succeeds, the transaction it
  broadcast has the deposit as its only input, with the lock in its sequence, a signature and a control
  block for the spend leaf, and one output of the value less the fee to an address of the
  network; the lock had run out for the next block; and a second reclaim of the same record is refused.\<close>

theorem reclaim_spends_once:
  assumes "reclaim_mint x v b net s i dest fee w = (Inr out, w')"
  shows "\<exists>p kp tx. reclaim_plan x b net i dest w = Inr p \<and> mint_keypair v w i = Inr kp \<and>
    broadcast_at net (wf_esplora_url w) tx = Inr (ro_txid out) \<and>
    spends_deposit x b kp (rp_outpoint p) (rp_value p) (rp_lock p) (rp_dest p) fee tx \<and>
    unat (ro_value_sat_out out) + unat fee = unat (rp_value p) \<and> 0 < ro_value_sat_out out \<and>
    (\<exists>m h tip. find_mint_by_index i w = Some m \<and> mr_funded_at_height m = Some h \<and>
       es_tip_height (EsploraClient_new net w) = Inr tip \<and> sat_add h (rp_lock p) \<le> sat_add tip 1) \<and>
    reclaim_mint x v b net s' i dest' fee' w' = (Inl (AlreadyReclaimed i), w')"
proof -
  obtain p tx t where req: "reclaim_tx x v b net i dest fee w = Inr (p, tx)"
    and sent: "broadcast_at net (wf_esplora_url w) tx = Inr t"
    and out: "out = \<lparr> ro_txid = t, ro_value_sat_in = rp_value p, ro_value_sat_out = sat_sub (rp_value p) fee, ro_fee_sat = fee \<rparr>"
    and w': "w' = append_tx (reclaim_record x s i p fee t) (update_mint i (\<lambda>r. r\<lparr>mr_reclaimed := True\<rparr>) w)"
    using assms by (auto simp: reclaim_mint_def op_success op_bind_Inr)
  obtain kp where plan: "reclaim_plan x b net i dest w = Inr p" "mint_keypair v w i = Inr kp"
    "build_signed_reclaim_tx x b kp (rp_outpoint p) (rp_value p) (rp_lock p) (rp_dest p) fee = Inr tx"
    using req by (auto simp: reclaim_tx_def rbind_eq_Inr)
  note built = reclaim_tx_spends [OF plan(3)]
  obtain m h tip where m: "find_mint_by_index i w = Some m" "mr_funded_at_height m = Some h"
    "es_tip_height (EsploraClient_new net w) = Inr tip" "sat_add h (rp_lock p) \<le> sat_add tip 1"
    using reclaim_plan_ok [OF plan(1)] by blast
  have "find_mint_by_index i w' = Some (m\<lparr>mr_reclaimed := True\<rparr>)"
    unfolding w' by (rule update_mint_found [OF m(1)]) simp
  then have again: "reclaim_mint x v b net s' i dest' fee' w' = (Inl (AlreadyReclaimed i), w')"
    by (simp add: reclaim_mint_def reclaim_tx_def reclaim_plan_def op_bind_def op_result_def)
  have "unat (sat_sub (rp_value p) fee) + unat fee = unat (rp_value p) \<and> 0 < sat_sub (rp_value p) fee"
    using built by (simp add: word_less_nat_alt rust_arith)
  with plan built sent out m again show ?thesis by auto
qed

definition mature_net :: Internet where
  "mature_net = sample_net\<lparr>esplora_at := \<lambda>_. sample_esplora\<lparr>es_tip_height := Inr 243\<rparr>\<rparr>"

theorem reclaim_spends_once_witness:
  "\<exists>out w'. reclaim_mint toy_ext toy_vault toy_btc mature_net sample_supply 0 ''dest'' 10 sample_wallet = (Inr out, w') \<and>
     reclaim_mint toy_ext toy_vault toy_btc mature_net sample_supply 0 ''dest'' 10 w' = (Inl (AlreadyReclaimed 0), w')"
proof -
  have plan: "reclaim_plan toy_ext toy_btc mature_net 0 ''dest'' sample_wallet =
      Inr \<lparr> rp_outpoint = deposit, rp_value = 1000, rp_lock = 144, rp_dest = ''dest'' \<rparr>"
    using wallet_parse_show [OF txid_str_ok_toy, of deposit]
    by (simp add: reclaim_plan_def sample_find sample_mint_def toy_btc_def mature_net_def EsploraClient_new_def sat_add_def)
  obtain tx where tx: "build_signed_reclaim_tx toy_ext toy_btc 1 deposit 1000 144 ''dest'' 10 = Inr tx"
    using reclaim_tx_built [of 144 10 1000 toy_btc toy_ext 1 deposit "''dest''"] lock_144 by (auto simp: toy_btc_def)
  obtain out w' where r: "reclaim_mint toy_ext toy_vault toy_btc mature_net sample_supply 0 ''dest'' 10 sample_wallet = (Inr out, w')"
    using plan tx by (simp add: reclaim_mint_def reclaim_tx_def op_bind_def op_result_def mature_net_def sample_net_def)
  from reclaim_spends_once [OF r] r show ?thesis by blast
qed

text \<open>The list of deposits tells the truth about reclaiming. An entry of \<open>list_reclaimable_mints\<close> is \<open>Ready\<close>
  exactly when the checks of \<open>reclaim_mint\<close> pass for it, and a \<open>Locked\<close> entry shows the number of blocks with
  which they refuse it.\<close>

theorem listed_ready_is_reclaimable:
  assumes "wallet_ok x v w" and "list_reclaimable_mints net w = Inr es" and "find_mint_by_index i w = Some m"
    and "mr_outpoint m = Some (show_outpoint x p)" and "txid_str_ok x"
    and "address_from_str b dest = Some d" and "is_on_network b d (into_bitcoin (wf_network w))"
  shows "\<exists>e\<in>set es. rm_record e = m \<and> (rm_status e = Ready \<longleftrightarrow> is_ok (reclaim_plan x b net i dest w)) \<and>
    (\<forall>n. rm_status e = Locked \<and> rm_blocks_remaining e = Some n \<longrightarrow>
       (\<exists>u t. reclaim_plan x b net i dest w = Inl (NotReclaimable n u t)))"
proof -
  have m: "m \<in> set (wf_mints w)" "mr_bip32_index m = i" using find_mint_index [OF assms(3)] by auto
  have "mint_ok x v w m" using found_mint_ok [OF assms(1,3)] .
  then obtain val h where funded: "mr_value_sat m = Some val" "mr_funded_at_height m = Some h"
    using assms(4) by (auto simp: mint_ok_def)
  obtain tip where r: "(if list_ex (\<lambda>m. \<not> mr_reclaimed m \<and> mr_funded_at_height m \<noteq> None) (wf_mints w)
      then rbind (map_err EsploraError (es_tip_height (EsploraClient_new net w))) (\<lambda>t. Inr (Some t)) else Inr None) = Inr tip"
    and es: "es = map (reclaim_status tip) (wf_mints w)"
    using assms(2) unfolding list_reclaimable_mints_def rbind_eq_Inr sum.inject by blast
  have tip: "\<exists>t. tip = Some t \<and> es_tip_height (EsploraClient_new net w) = Inr t" if "\<not> mr_reclaimed m"
  proof -
    have "list_ex (\<lambda>m. \<not> mr_reclaimed m \<and> mr_funded_at_height m \<noteq> None) (wf_mints w)"
      using that m(1) funded by (auto simp: list_ex_iff)
    with r show ?thesis by (auto simp: rbind_eq_Inr)
  qed
  let ?e = "reclaim_status tip m"
  have "?e \<in> set es" using es m(1) by simp
  moreover have "rm_record ?e = m \<and> (rm_status ?e = Ready \<longleftrightarrow> is_ok (reclaim_plan x b net i dest w)) \<and>
    (\<forall>n. rm_status ?e = Locked \<and> rm_blocks_remaining ?e = Some n \<longrightarrow>
       (\<exists>u t. reclaim_plan x b net i dest w = Inl (NotReclaimable n u t)))"
  proof (cases "mr_reclaimed m")
    case True
    then show ?thesis using assms(3) by (simp add: reclaim_status_def reclaim_plan_def)
  next
    case False
    then obtain t where t: "tip = Some t" "es_tip_height (EsploraClient_new net w) = Inr t" using tip by blast
    have "reclaim_plan x b net i dest w = (if sat_add t 1 < sat_add h (mr_lock_blocks m)
        then Inl (NotReclaimable (sat_sub (sat_add h (mr_lock_blocks m)) (sat_add t 1)) (sat_add h (mr_lock_blocks m)) t)
        else Inr \<lparr> rp_outpoint = p, rp_value = val, rp_lock = mr_lock_blocks m, rp_dest = d \<rparr>)"
      using assms(3-7) False funded t wallet_parse_show [OF assms(5), of p] by (simp add: reclaim_plan_def Let_def)
    then show ?thesis using False funded t(1) by (auto simp: reclaim_status_def Let_def not_less)
  qed
  ultimately show ?thesis by blast
qed

theorem listed_ready_is_reclaimable_witness:
  "\<exists>es. list_reclaimable_mints mature_net sample_wallet = Inr es \<and>
    (\<exists>e\<in>set es. rm_record e = sample_mint \<and>
       (rm_status e = Ready \<longleftrightarrow> is_ok (reclaim_plan toy_ext toy_btc mature_net 0 ''dest'' sample_wallet)))"
proof -
  obtain es where es: "list_reclaimable_mints mature_net sample_wallet = Inr es"
    by (simp add: list_reclaimable_mints_def mature_net_def EsploraClient_new_def sample_wallet_def sample_mint_def)
  have "mr_outpoint sample_mint = Some (show_outpoint toy_ext deposit)"
    "address_from_str toy_btc ''dest'' = Some ''dest''" "is_on_network toy_btc ''dest'' (into_bitcoin (wf_network sample_wallet))"
    by (simp_all add: sample_mint_def toy_btc_def)
  from listed_ready_is_reclaimable [OF sample_wallet_ok es sample_find this(1) txid_str_ok_toy this(2,3)] es
  show ?thesis by blast
qed

end
