(* ===== verification/WalletReadProperties.thy ===== *)
theory WalletReadProperties
  imports WalletSample WalkCorrect
begin

text \<open>The properties of the wallet's verified readings, \<open>verify_balance\<close> and \<open>light_balance\<close>, and of the
  directory of wallets.\<close>

section \<open>A balance with a proof\<close>

definition response_preimages :: "ext \<Rightarrow> LedgerState \<Rightarrow> BalanceResponse \<Rightarrow> bytes list" where
  "response_preimages x S bal =
     [components_preimage (br_components bal), components_preimage (components x S)]
     @ proof_preimages x (br_proof bal) @ proof_preimages x (account_inclusion_proof x S (ip_address (br_proof bal)))"

lemma check_response_ok:
  "check_response x against bal = Inr u \<longleftrightarrow> components_state_root x (br_components bal) = br_state_root bal \<and>
     (case against of Some r \<Rightarrow> r = br_state_root bal | None \<Rightarrow> True) \<and> ip_address (br_proof bal) = br_address bal \<and>
     InclusionProof_verify x (br_proof bal) (sc_accounts_root (br_components bal)) \<and>
     ip_leaf (br_proof bal) \<in> {LeafAccount (br_balance bal) (br_nonce bal)} \<union>
       (if br_balance bal = 0 \<and> br_nonce bal = 0 then {LeafEmpty} else {})"
  by (auto simp: check_response_def check_reported_leaf_def Let_def rbind_eq_Inr split: LeafKind.splits option.splits)

lemma leaf_balance_nonce:
  "leaf_of S a = LeafAccount b n \<Longrightarrow> balance_of S a = b \<and> nonce_of S a = n"
  "leaf_of S a = LeafEmpty \<Longrightarrow> balance_of S a = 0 \<and> nonce_of S a = 0"
  by (auto simp: leaf_of_def balance_of_def nonce_of_def split: option.splits)

lemma response_sound:
  assumes "check_response x against bal = Inr ()" and "br_state_root bal = state_root x S"
  shows "(br_balance bal = balance_of S (br_address bal) \<and> br_nonce bal = nonce_of S (br_address bal)) \<or>
    collides (sha256 x) (response_preimages x S bal)"
proof (rule disjCI)
  assume no: "\<not> collides (sha256 x) (response_preimages x S bal)"
  note c = assms(1) [unfolded check_response_ok]
  have "br_components bal = components x S"
    using components_binding [of x "br_components bal" "components x S"] c assms(2) no
    by (auto simp: state_root_def response_preimages_def intro: collides_mono)
  then have "InclusionProof_verify x (br_proof bal) (smt_root x (leaf_of S))"
    using c by (simp add: components_def accounts_root_eq)
  from verify_sound [OF this] no have "br_proof bal = honest_proof x (leaf_of S) (br_address bal)"
    using c by (auto simp: response_preimages_def account_inclusion_proof_eq intro: collides_mono)
  then have "ip_leaf (br_proof bal) = leaf_of S (br_address bal)" by (simp add: honest_proof_def)
  then show "br_balance bal = balance_of S (br_address bal) \<and> br_nonce bal = nonce_of S (br_address bal)"
    using c leaf_balance_nonce [of S "br_address bal"] by (auto split: if_splits)
qed

text \<open>C25: a verified balance is the ledger's, for the account the response is about. If \<open>verify_balance\<close> returns and the state root of
  the response is that of a ledger, the reported balance and nonce are those of the response's
  address in it, and the root is the one to bind to where one was given; or two listed
  preimages collide.\<close>

theorem verify_balance_sound:
  assumes "balance_target x v addr w = Inr target" and "api_balance (ApiClient_new net w) target = Inr bal"
    and "verify_balance x v net addr against w = Inr out" and "br_state_root bal = state_root x S"
  shows "(vb_balance out = balance_of S (br_address bal) \<and> vb_nonce out = nonce_of S (br_address bal) \<and>
     vb_state_root out = state_root x S \<and> (vb_bound_to_l1 out \<longleftrightarrow> against = Some (state_root x S))) \<or>
    collides (sha256 x) (response_preimages x S bal)"
proof -
  have c: "check_response x against bal = Inr ()" and out: "vb_balance out = br_balance bal" "vb_nonce out = br_nonce bal"
    "vb_state_root out = br_state_root bal" "vb_bound_to_l1 out = (against \<noteq> None)"
    using assms(1-3) by (auto simp: verify_balance_def rbind_eq_Inr)
  then show ?thesis
    using response_sound [OF c assms(4)] assms(4) by (auto simp: check_response_ok split: option.splits)
qed

lemma honest_response: "check_response x None (seq_balance x a q) = Inr ()"
proof -
  have "ip_leaf (honest_proof x (leaf_of (sh_state q)) a) = leaf_of (sh_state q) a" by (simp add: honest_proof_def)
  moreover have "leaf_of (sh_state q) a = (if a |\<in>| fmdom (accounts (sh_state q)) then
      LeafAccount (balance_of (sh_state q) a) (nonce_of (sh_state q) a) else LeafEmpty)"
    by (auto simp: leaf_of_def balance_of_def nonce_of_def fmdomI split: option.split)
  moreover have "a |\<notin>| fmdom (accounts (sh_state q)) \<Longrightarrow> balance_of (sh_state q) a = 0 \<and> nonce_of (sh_state q) a = 0"
    by (simp add: balance_of_def nonce_of_def fmdom_notD)
  ultimately show ?thesis
    using honest_proof_verifies [of x "leaf_of (sh_state q)" a]
    by (auto simp: check_response_ok seq_balance_def Let_def account_inclusion_proof_eq components_def accounts_root_eq)
      (simp_all add: honest_proof_def)
qed

text \<open>\<open>verify_balance\<close> does not check whom the response is about. A server that answers with the
  true balance response of another account is believed: the result carries the wallet's own
  address, or whichever was asked for, with the other account's balance and nonce.\<close>

theorem verify_balance_wrong_account:
  assumes "balance_target x v addr w = Inr target" and "api_balance (ApiClient_new net w) target = Inr (seq_balance x other q)"
  shows "\<exists>out. verify_balance x v net addr None w = Inr out \<and> vb_address out = address_encode x target (wf_network w) \<and>
    vb_balance out = balance_of (sh_state q) other \<and> vb_nonce out = nonce_of (sh_state q) other"
  using assms honest_response [of x other q] by (simp add: verify_balance_def) (simp add: seq_balance_def Let_def)

definition lying_net :: Internet where
  "lying_net = sample_net\<lparr>service_at := \<lambda>_. sample_service\<lparr>srv_balance := \<lambda>_. Inr (seq_balance toy_ext bob sample_seq)\<rparr>\<rparr>"

lemma lying_answer:
  "balance_target toy_ext toy_vault None sample_wallet = Inr alice"
  "api_balance (ApiClient_new lying_net sample_wallet) alice = Inr (seq_balance toy_ext bob sample_seq)"
  by (simp_all add: balance_target_def api_balance_def api_base_def ApiClient_new_def lying_net_def sample_wallet_def)

theorem verify_balance_wrong_account_witness:
  "\<exists>out. verify_balance toy_ext toy_vault lying_net None None sample_wallet = Inr out \<and>
    vb_address out = address_encode toy_ext alice (wf_network sample_wallet) \<and>
    vb_balance out = balance_of (sh_state sample_seq) bob \<and> vb_nonce out = nonce_of (sh_state sample_seq) bob"
  by (rule verify_balance_wrong_account [OF lying_answer])

theorem verify_balance_sound_witness:
  "\<exists>out. verify_balance toy_ext toy_vault lying_net None None sample_wallet = Inr out \<and>
    (vb_balance out = balance_of (sh_state sample_seq) bob \<or>
     collides (sha256 toy_ext) (response_preimages toy_ext (sh_state sample_seq) (seq_balance toy_ext bob sample_seq)))"
proof -
  obtain out where out: "verify_balance toy_ext toy_vault lying_net None None sample_wallet = Inr out"
    using honest_response [of toy_ext bob sample_seq] by (simp add: verify_balance_def lying_answer)
  have "br_state_root (seq_balance toy_ext bob sample_seq) = state_root toy_ext (sh_state sample_seq)"
    "br_address (seq_balance toy_ext bob sample_seq) = bob"
    by (simp_all add: seq_balance_def Let_def state_root_def)
  with verify_balance_sound [OF lying_answer out, of "sh_state sample_seq"] out show ?thesis by auto
qed

section \<open>The light balance\<close>

lemma balance_from_own:
  "head_matches x h S \<Longrightarrow> vh_own_address h = own \<Longrightarrow> balance_from h own = (balance_of S own, nonce_of S own)"
  by (auto simp: balance_from_def head_matches_def own_proof_def honest_proof_def dest: leaf_balance_nonce split: LeafKind.splits)

lemma top_up_rest:
  "top_up_total api own h = Inr h' \<Longrightarrow> h' = h\<lparr>vh_total_minted := vh_total_minted h'\<rparr>"
  by (auto simp: top_up_total_def rbind_eq_Inr split: if_splits)

lemma map_option_ok: "map_option f a = Some b \<longleftrightarrow> (\<exists>c. a = Some c \<and> f c = b)"
  by auto

lemma light_walk_warm:
  "light_walk x api es own (Some h) = Some (Inr (h1, mode, n, evs)) \<longleftrightarrow>
     mode = WarmStart \<and> walk_forward x h api es = Some (Inr (h1, n, evs))"
  by (auto simp: light_walk_def map_option_ok rbind_eq_Inr)

lemma light_balance_ok:
  assumes "light_balance x v net s s' addr w = Some (Inr out, w')"
  shows "\<exists>own target head mode n evs network head'. light_start x v addr w = Inr (own, target) \<and>
    light_walk x (ApiClient_new net w) (EsploraClient_new net w) own (wf_verified_head w) = Some (Inr (head, mode, n, evs)) \<and>
    light_finish x (ApiClient_new net w) network own target mode n head = Inr (out, head') \<and>
    wf_verified_head w' = Some head'"
proof -
  obtain own target where start: "light_start x v addr w = Inr (own, target)"
    using assms by (auto simp: light_balance_def split: sum.splits)
  obtain walked where walk: "light_walk x (ApiClient_new net w) (EsploraClient_new net w) own (wf_verified_head w) = Some walked"
    using assms start by (auto simp: light_balance_def Let_def map_option_ok)
  show ?thesis
  proof (cases walked)
    case (Inl e)
    then show ?thesis using assms start walk by (simp add: light_balance_def Let_def)
  next
    case (Inr q)
    obtain head mode n evs where q: "q = (head, mode, n, evs)" by (cases q)
    obtain network where fin: "\<exists>head'. light_finish x (ApiClient_new net w) network own target mode n head = Inr (out, head') \<and>
        wf_verified_head w' = Some head'"
      using assms start walk Inr q by (auto simp: light_balance_def Let_def split: sum.splits)
    show ?thesis using start walk fin Inr q by blast
  qed
qed

lemma light_balance_succeeds:
  assumes "light_start x v addr w = Inr (own, target)"
    and "light_walk x (ApiClient_new net w) (EsploraClient_new net w) own (wf_verified_head w) = Some (Inr (head, mode, n, evs))"
    and "\<And>network. \<exists>out h. light_finish x (ApiClient_new net w) network own target mode n head = Inr (out, h) \<and> P out"
  shows "\<exists>out w'. light_balance x v net s s' addr w = Some (Inr out, w') \<and> P out"
proof -
  let ?taken = "w\<lparr>wf_verified_head := None\<rparr>"
  let ?tip = "case es_tip_height (EsploraClient_new net w) of Inr t \<Rightarrow> t | Inl _ \<Rightarrow> vh_l1_height head"
  let ?w = "snd (finalize_and_refresh x s' (EsploraClient_new net w) ?tip (if evs = [] then ?taken else project_events x s evs ?taken))"
  obtain out h where "light_finish x (ApiClient_new net w) (wf_network ?w) own target mode n head = Inr (out, h)" "P out"
    using assms(3) by blast
  then have "light_balance x v net s s' addr w = Some (Inr out, ?w\<lparr>wf_verified_head := Some h\<rparr>)"
    using assms(1,2) unfolding light_balance_def Let_def by simp
  with \<open>P out\<close> show ?thesis by blast
qed

lemma sample_light_balance:
  "\<exists>out w'. light_balance toy_ext toy_vault sample_net sample_supply sample_supply None sample_wallet = Some (Inr out, w') \<and>
     lb_l2_height out = 1"
proof -
  obtain head n evs where walk: "walk_forward toy_ext head0 sample_api sample_esplora = Some (Inr (head, n, evs))"
    and h1: "vh_l2_height head = 1" using sample_walk by blast
  have w: "light_walk toy_ext (ApiClient_new sample_net sample_wallet) (EsploraClient_new sample_net sample_wallet) alice (Some head0) =
      Some (Inr (head, WarmStart, n, evs))"
    unfolding light_walk_warm sample_clients using walk by simp
  have start: "light_start toy_ext toy_vault None sample_wallet = Inr (alice, alice)"
    by (simp add: light_start_def destination_or_def sample_wallet_def)
  have "\<exists>t. top_up_total sample_api alice head = Inr (head\<lparr>vh_total_minted := t\<rparr>)"
    by (auto simp: top_up_total_def api_balance_def api_base_def sample_api_def sample_service_def
        intro: exI [of _ "vh_total_minted head"])
  then obtain t where top: "top_up_total sample_api alice head = Inr (head\<lparr>vh_total_minted := t\<rparr>)" ..
  have fin: "\<exists>out h. light_finish toy_ext (ApiClient_new sample_net sample_wallet) network alice alice WarmStart n head = Inr (out, h) \<and>
      lb_l2_height out = 1" for network
    using top h1 by (simp add: light_finish_def sample_clients split: prod.split)
  have head: "wf_verified_head sample_wallet = Some head0" by (simp add: sample_wallet_def)
  show ?thesis
    using light_balance_succeeds [OF start, where P = "\<lambda>out. lb_l2_height out = 1"] w fin unfolding head by blast
qed

text \<open>C11: the light balance of a wallet that was in step is the chain's. If the persisted head matches a full ledger and
  \<open>light_balance\<close> returns for the wallet's own key, then replaying the served blocks up to the reported
  height on that ledger succeeds, the balance, nonce and state root reported are those of the ledger
  reached, and the persisted head matches it in all but the mint total, which may be the server's
  word; or listed preimages of the run collide.\<close>

theorem light_balance_sound:
  assumes "wf_verified_head w = Some h" and "head_matches x h S" and "l2_identity_xonly x v w = Inr own"
    and "light_balance x v net s s' None w = Some (Inr out, w')"
  shows "(\<exists>S' h'. apply_txs x (served_txs (ApiClient_new net w) (blocks_above (vh_l2_height h) (lb_l2_height out))) S = Inr S' \<and>
      lb_balance out = balance_of S' own \<and> lb_nonce out = nonce_of S' own \<and> lb_state_root out = state_root x S' \<and>
      wf_verified_head w' = Some h' \<and> head_matches x (h'\<lparr>vh_total_minted := total_minted_atoms S'\<rparr>) S') \<or>
    collides (sha256 x) (run_preimages x (ApiClient_new net w) S (blocks_above (vh_l2_height h) (lb_l2_height out)))"
proof -
  let ?api = "ApiClient_new net w"
  obtain own' target head mode n evs network h' where
    start: "light_start x v None w = Inr (own', target)"
    and walk: "light_walk x ?api (EsploraClient_new net w) own' (wf_verified_head w) = Some (Inr (head, mode, n, evs))"
    and fin: "light_finish x ?api network own' target mode n head = Inr (out, h')" and w': "wf_verified_head w' = Some h'"
    using light_balance_ok [OF assms(4)] by blast
  have own: "own' = own" "target = own" "vh_own_address h = own"
    using start assms(1,3) by (auto simp: light_start_def destination_or_def split: if_splits)
  have fwd: "walk_forward x h ?api (EsploraClient_new net w) = Some (Inr (head, n, evs))"
    using walk assms(1) by (simp add: light_walk_warm)
  have top: "top_up_total ?api own head = Inr h'" and out: "lb_l2_height out = vh_l2_height h'" "lb_state_root out = vh_state_root h'"
    "(lb_balance out, lb_nonce out) = balance_from h' own"
    using fin own
    by (cases "top_up_total ?api own head"; cases "balance_from (projr (top_up_total ?api own head)) own";
        auto simp: light_finish_def)+
  have same: "vh_l2_height h' = vh_l2_height head" "vh_state_root h' = vh_state_root head"
    "balance_from h' own = balance_from head own"
    by (subst top_up_rest [OF top]; simp add: balance_from_def)+
  show ?thesis
  proof (rule disjE [OF walk_forward_refines [OF fwd assms(2)]])
    assume "\<exists>S'. apply_txs x (served_txs ?api (blocks_above (vh_l2_height h) (vh_l2_height head))) S = Inr S' \<and> head_matches x head S'"
    then obtain S' where S': "apply_txs x (served_txs ?api (blocks_above (vh_l2_height h) (vh_l2_height head))) S = Inr S'"
      "head_matches x head S'" by blast
    have "head_matches x (h'\<lparr>vh_total_minted := total_minted_atoms S'\<rparr>) S'"
      using S'(2) by (subst top_up_rest [OF top]) (simp add: head_matches_def own_proof_def)
    moreover have "vh_own_address head = own" using walk_forward_own [OF fwd] own(3) by simp
    ultimately show ?thesis
      using S' out same w' balance_from_own [OF S'(2)] by (auto simp: head_matches_def)
  next
    assume "collides (sha256 x) (run_preimages x ?api S (blocks_above (vh_l2_height h) (vh_l2_height head)))"
    then show ?thesis using out(1) same(1) by simp
  qed
qed

theorem light_balance_sound_witness:
  "\<exists>out w'. light_balance toy_ext toy_vault sample_net sample_supply sample_supply None sample_wallet = Some (Inr out, w') \<and>
    lb_l2_height out = 1 \<and>
    (lb_state_root out = state_root toy_ext ledger2 \<or>
     collides (sha256 toy_ext) (run_preimages toy_ext (ApiClient_new sample_net sample_wallet) ledger0 (blocks_above 0 1)))"
proof -
  obtain out w' where lb: "light_balance toy_ext toy_vault sample_net sample_supply sample_supply None sample_wallet = Some (Inr out, w')"
    and h: "lb_l2_height out = 1"
    using sample_light_balance by blast
  have head: "wf_verified_head sample_wallet = Some head0" by (simp add: sample_wallet_def)
  have "l2_identity_xonly toy_ext toy_vault sample_wallet = Inr alice" by simp
  from light_balance_sound [OF head head0_matches this lb] apply_sample_txs lb h show ?thesis
    using sample_served(1) by (auto simp: served_txs_def blocks_above_def sample_clients block1_def)
qed

text \<open>On a chain without attestations \<open>light_head\<close> reports the root of the empty ledger. The genesis ledger of a
  chain with a fee address has another root, unless the two preimages collide.\<close>

theorem light_head_not_genesis:
  "lh_state_root (light_head_of x []) \<noteq> state_root x (genesis_ledger (Some pk)) \<or>
   collides (sha256 x) [components_preimage (components x LedgerState_new),
     components_preimage (components x (genesis_ledger (Some pk)))]"
  using components_binding [of x "components x LedgerState_new" "components x (genesis_ledger (Some pk))"]
  by (auto simp: light_head_of_def state_root_def components_def genesis_ledger_def LedgerState_new_def)

section \<open>The directory of wallets\<close>

text \<open>A wallet name stays in its directory. The path of a name exists exactly for the names of the policy; it is the
  directory, one separator and a file name without one, so no name leads out of the directory, and
  different names have different files.\<close>

theorem wallet_path_contained:
  "(is_ok (wallet_path_for dir name) \<longleftrightarrow> name \<noteq> [] \<and> length name \<le> 32 \<and> list_all name_char name) \<and>
   (case wallet_path_for dir name of
      Inr p \<Rightarrow> (\<exists>f. p = path_join dir f \<and> f = name @ ''.json'' \<and> CHR ''/'' \<notin> set f \<and> CHR ''.'' \<notin> set name)
    | Inl _ \<Rightarrow> True)"
proof (cases "validate_name name")
  case (Inl e)
  then show ?thesis using validate_name_iff [of name name]
    by (auto simp: wallet_path_for_def MAX_NAME_LEN_def list_all_iff)
next
  case (Inr n)
  then have n: "n = name" "name \<noteq> []" "length name \<le> 32" "\<forall>c\<in>set name. name_char c"
    by (auto simp: validate_name_iff MAX_NAME_LEN_def)
  then have "CHR ''/'' \<notin> set name \<and> CHR ''.'' \<notin> set name" using name_char_plain by blast
  then show ?thesis using n Inr by (simp add: wallet_path_for_def list_all_iff)
qed

text \<open>The migration of an old wallet loses nothing. Whichever step fails, every wallet that was in the directory is still there with
  its content, and the old wallet is still in its place or is the wallet \<open>default\<close>.\<close>

theorem migration_loses_nothing:
  assumes "migrate_legacy_wallet h = (r, h')" and "legacy_file h = Some l" and "holds_wallet h n c"
  shows "holds_wallet h' n c \<and> (legacy_file h' = Some l \<or> holds_wallet h' ''default.json'' l)"
  using migrate_keeps [OF assms(1)] assms(2,3) by blast

definition sample_home :: WalletHome where
  "sample_home = \<lparr> legacy_file = Some (Other ''old''), wallets_dir = Some [(''notes.txt'', RegularFile (Other ''notes''))],
     home_fault = (\<lambda>_. False) \<rparr>"

theorem migration_loses_nothing_witness:
  "\<exists>h'. migrate_legacy_wallet sample_home = (Inr (), h') \<and> legacy_file h' = None \<and>
     holds_wallet h' ''notes.txt'' (Other ''notes'') \<and> holds_wallet h' ''default.json'' (Other ''old'')"
proof -
  obtain r h' where m: "migrate_legacy_wallet sample_home = (r, h')" by (cases "migrate_legacy_wallet sample_home")
  have "listed_stem (''notes.txt'', RegularFile (Other ''notes'')) = None"
    by (simp add: listed_stem_def strip_suffix_def)
  then have "r = Inr () \<and> legacy_file h' = None"
    using m by (auto simp: migrate_legacy_wallet_def sample_home_def op_bind_def op_result_def op_write_def
        ensure_wallets_dir_def list_wallet_files_def List.map_filter_def default_name rename_into_def)
  moreover have "holds_wallet sample_home ''notes.txt'' (Other ''notes'')" "legacy_file sample_home = Some (Other ''old'')"
    by (simp_all add: holds_wallet_def sample_home_def)
  ultimately show ?thesis using m migration_loses_nothing [OF m, of "Other ''old''" "''notes.txt''" "Other ''notes''"] by auto
qed

end
