(* ===== verification/WalletStored.thy ===== *)
theory WalletStored
  imports WalletInvariant
begin

text \<open>
  A wallet at rest: what it means that a file holds a wallet (\<open>stored\<close>), what a save does to its own
  file and to every other, and the contract of the operations that change a wallet
  (\<open>wallet_change\<close>), from which the front ends get that a command keeps the wallet it runs on.
\<close>

section \<open>Files that hold a wallet\<close>

definition stored :: "vault \<Rightarrow> Files \<Rightarrow> string \<Rightarrow> string option \<Rightarrow> WalletFile \<Rightarrow> bool" where
  "stored v fs file pp w \<longleftrightarrow> (\<exists>d. fs_files fs file = Some (Json d) \<and> from_disk v d pp = Inr w)"

text \<open>The passphrase of a wallet is the one its unlock context was derived from.\<close>

definition opened_by :: "vault \<Rightarrow> string option \<Rightarrow> WalletFile \<Rightarrow> bool" where
  "opened_by v pp w \<longleftrightarrow> (\<forall>ctx. wf_encryption_ctx w = Some ctx \<longrightarrow> (\<exists>p. pp = Some p \<and> unlocks v p ctx))"

lemma decrypt_unlocks: "decrypt v blob p = Inr (m, ctx) \<Longrightarrow> unlocks v p ctx"
  by (auto simp: decrypt_def rbind_eq_Inr derive_key_def unlocks_def split: if_splits)

lemma from_disk_opened: "from_disk v d pp = Inr w \<Longrightarrow> opened_by v pp w"
  by (auto simp: from_disk_def rbind_eq_Inr with_disk_def opened_by_def
      split: option.splits if_splits dest: decrypt_unlocks)

lemma from_disk_encrypted: "from_disk v d pp = Inr w \<Longrightarrow> (dl_encrypted_mnemonic d \<noteq> None) = (wf_encryption_ctx w \<noteq> None)"
  by (auto simp: from_disk_def rbind_eq_Inr with_disk_def split: option.splits if_splits)

lemma from_disk_plain: "dl_encrypted_mnemonic d = None \<Longrightarrow> from_disk v d pp = from_disk v d pp'"
  by (simp add: from_disk_def)

lemma stored_opened: "stored v fs file pp w \<Longrightarrow> opened_by v pp w"
  by (auto simp: stored_def dest: from_disk_opened)

lemma stored_same: "fs_files fs' file = fs_files fs file \<Longrightarrow> stored v fs' file pp w = stored v fs file pp w"
  by (simp add: stored_def)

lemma stored_unique: "stored v fs file pp w \<Longrightarrow> stored v fs file pp w' \<Longrightarrow> w' = w"
  by (auto simp: stored_def)

text \<open>A save leaves its file as it was or holding the wallet saved; it touches no other file but
  its temporary one.\<close>

lemma save_own:
  assumes "WalletFile_save v nonce w f fs = (r, fs')" and "vault_ok v" and "length nonce = NONCE_LEN" and "opened_by v pp w"
  shows "case r of Inl _ \<Rightarrow> fs_files fs' f = fs_files fs f | Inr _ \<Rightarrow> stored v fs' f pp w"
proof (cases r)
  case (Inr u)
  then obtain d where d: "to_disk v nonce w = Inr d" "fs_files fs' f = Some (Json d)"
    using save_ok [of v nonce w f fs fs'] assms(1) by auto
  have "from_disk v d pp = Inr w"
    using from_to_disk [OF d(1) assms(2,3)] assms(4) by (auto simp: opened_by_def)
  with d(2) Inr show ?thesis by (auto simp: stored_def)
next
  case (Inl e)
  have "with_extension f ''json.tmp'' \<noteq> f" by (rule tmp_differs)
  with assms(1) Inl show ?thesis
    by (auto simp: WalletFile_save_def Let_def op_failure op_success fs_write_def fs_rename_def
        split: option.splits if_splits)
qed

lemma save_other:
  assumes "WalletFile_save v nonce w f fs = (r, fs')" and "g \<noteq> f" and "g \<noteq> with_extension f ''json.tmp''"
  shows "fs_files fs' g = fs_files fs g"
proof (cases "to_disk v nonce w")
  case (Inl e)
  with assms(1) show ?thesis by (auto simp: WalletFile_save_def op_bind_def op_result_def Let_def)
next
  case (Inr d)
  with assms show ?thesis
    by (auto simp: WalletFile_save_def op_bind_def op_result_def Let_def fs_write_def fs_rename_def
        split: option.splits if_splits prod.splits sum.splits)
qed

section \<open>A wallet kept\<close>

text \<open>The file holds a sound wallet that grew out of the given one.\<close>

definition kept :: "ext \<Rightarrow> vault \<Rightarrow> string option \<Rightarrow> string \<Rightarrow> WalletFile \<Rightarrow> Files \<Rightarrow> bool" where
  "kept x v pp file w fs \<longleftrightarrow> (\<exists>w'. stored v fs file pp w' \<and> wallet_ok x v w' \<and> evolves w w')"

lemma kept_stored: "stored v fs file pp w \<Longrightarrow> wallet_ok x v w \<Longrightarrow> kept x v pp file w fs"
  by (auto simp: kept_def)

lemma kept_same: "fs_files fs' file = fs_files fs file \<Longrightarrow> kept x v pp file w fs' = kept x v pp file w fs"
  by (simp add: kept_def stored_def)

lemma opened_evolves: "opened_by v pp w \<Longrightarrow> evolves w w' \<Longrightarrow> opened_by v pp w'"
  by (simp add: opened_by_def evolves_def)

lemma kept_save:
  assumes save: "WalletFile_save v nonce w' file fs = (r, fs')" and vault: "vault_ok v" "length nonce = NONCE_LEN"
    and kept: "kept x v pp file w0 fs" and at_rest: "stored v fs0 file pp w" "wallet_ok x v w" "evolves w0 w" "good x v w w'"
  shows "kept x v pp file w0 fs'"
proof -
  have w': "wallet_ok x v w'" "evolves w w'" using at_rest by (auto simp: good_def)
  then have "opened_by v pp w'" using stored_opened [OF at_rest(1)] opened_evolves by blast
  note saved = save_own [OF save vault this]
  show ?thesis
  proof (cases r)
    case (Inl e)
    with saved have "fs_files fs' file = fs_files fs file" by simp
    with kept show ?thesis using kept_same by blast
  next
    case (Inr u)
    with saved have "stored v fs' file pp w'" by simp
    then show ?thesis using w' evolves_trans [OF at_rest(3)] by (auto simp: kept_def)
  qed
qed

section \<open>The contract of an operation on a wallet\<close>

locale wallet_change =
  fixes x :: ext and v :: vault and m :: "'a wallet_op"
  assumes sound: "good x v w (snd (m w))"
begin

lemma keeps_ok: "wallet_ok x v w \<Longrightarrow> wallet_ok x v (snd (m w))"
  using sound [of w] by (simp add: good_def)

lemma evolves: "wallet_ok x v w \<Longrightarrow> evolves w (snd (m w))"
  using sound [of w] by (simp add: good_def)

text \<open>Saving what the operation made of the wallet that the file holds keeps it.\<close>

lemma save_kept:
  assumes "stored v fs file pp w" and "wallet_ok x v w" and "evolves w0 w" and "vault_ok v" and "length nonce = NONCE_LEN"
  shows "kept x v pp file w0 (snd (WalletFile_save v nonce (snd (m w)) file fs))"
proof -
  have "kept x v pp file w0 fs" using assms(1-3) by (auto simp: kept_def)
  from kept_save [OF _ assms(4,5) this assms(1-3) sound] show ?thesis by (metis surjective_pairing)
qed

end

interpretation wc_mint_utxo: wallet_change x v "mint_utxo x v lock" for x v lock
  by unfold_locales (rule good_mint_utxo)

interpretation wc_check: wallet_change x v "check_mint_funding x b net s i" for x v b net s i
  by unfold_locales (rule good_check_mint_funding)

interpretation wc_mint: wallet_change x v "mint_message x v net s i dest" for x v net s i dest
  by unfold_locales (rule good_mint_message)

interpretation wc_transfer: wallet_change x v "wallet_transfer x v net s dest amount" for x v net s dest amount
  by unfold_locales (rule good_wallet_transfer)

interpretation wc_reclaim: wallet_change x v "reclaim_mint x v b net s i dest fee" for x v b net s i dest fee
  by unfold_locales (rule good_reclaim_mint)

end
