(* ===== verification/WalletCli.thy ===== *)
theory WalletCli
  imports WalletStored
begin

text \<open>
  The command line of the wallet (\<open>hodl-wallet/src/main.rs\<close>): every command loads the wallet file, runs one
  operation and, when that succeeds and may have changed something, saves the file. A command is
  an operation on the files; what it prints is what it returns. Argument parsing and the terminal are
  left out: the passphrase typed at the prompt and the outcome of reading a mnemonic file are arguments.
\<close>

type_synonym 'a command = "(Files, WalletError, 'a) act"

definition load_wallet :: "vault \<Rightarrow> string option \<Rightarrow> Files \<Rightarrow> string \<Rightarrow> (WalletError, WalletFile) result" where
  "load_wallet v typed fs file =
     rbind (is_encrypted_at fs file) (\<lambda>encrypted.
     if encrypted then rbind (ok_or typed PromptFailed) (\<lambda>pp. load_unlocked v fs file (Some pp))
     else WalletFile_load v fs file)"

text \<open>The two shapes of a command: one that reads, and one that changes and saves.\<close>

definition cmd_read :: "vault \<Rightarrow> string option \<Rightarrow> string \<Rightarrow> (WalletFile \<Rightarrow> (WalletError, 'a) result) \<Rightarrow> 'a command" where
  "cmd_read v typed file f = op_result (\<lambda>fs. rbind (load_wallet v typed fs file) f)"

definition save_after :: "vault \<Rightarrow> bytes \<Rightarrow> string \<Rightarrow> (WalletError, 'a) result \<times> WalletFile \<Rightarrow> 'a command" where
  "save_after v nonce file r =
     (case r of
        (Inl e, _) \<Rightarrow> op_result (\<lambda>_. Inl e)
      | (Inr a, w) \<Rightarrow> op_bind (WalletFile_save v nonce w file) (\<lambda>_. op_return a))"

definition cmd_change :: "vault \<Rightarrow> string option \<Rightarrow> bytes \<Rightarrow> string \<Rightarrow> 'a wallet_op \<Rightarrow> 'a command" where
  "cmd_change v typed nonce file m =
     op_bind (op_result (\<lambda>fs. load_wallet v typed fs file)) (\<lambda>w. save_after v nonce file (m w))"

definition cmd_keygen ::
    "ext \<Rightarrow> vault \<Rightarrow> bytes \<Rightarrow> bytes \<Rightarrow> string \<Rightarrow> bool \<Rightarrow> string \<Rightarrow> (WalletError, string option) result \<Rightarrow>
     string \<Rightarrow> string option \<Rightarrow> string \<Rightarrow> KeygenOutput command" where
  "cmd_keygen x v entropy nonce file force network mnemonic_file seq_url n_url esplora_url =
     op_bind (op_gets fs_files) (\<lambda>files.
     if files file \<noteq> None \<and> \<not> force then op_result (\<lambda>_. Inl (WalletExists file))
     else
       op_bind (op_result (\<lambda>_. network_from_str network)) (\<lambda>network.
       op_bind (op_result (\<lambda>_. mnemonic_file)) (\<lambda>mnemonic.
       op_bind (op_result (\<lambda>_. keygen x v entropy \<lparr> ki_network = network, ki_sequencer_url = seq_url,
         ki_node_url = n_url, ki_esplora_url = esplora_url, ki_mnemonic = mnemonic \<rparr>)) (\<lambda>(w, out).
       op_bind (WalletFile_save v nonce w file) (\<lambda>_. op_return out)))))"

definition cmd_address :: "ext \<Rightarrow> vault \<Rightarrow> string option \<Rightarrow> string \<Rightarrow> string command" where
  "cmd_address x v typed file =
     cmd_read v typed file (\<lambda>w. rbind (wallet_address x v w) (\<lambda>a. Inr (address_encode x a (wf_network w))))"

definition cmd_mint_utxo :: "ext \<Rightarrow> vault \<Rightarrow> string option \<Rightarrow> bytes \<Rightarrow> string \<Rightarrow> u32 \<Rightarrow> MintUtxoOutput command" where
  "cmd_mint_utxo x v typed nonce file lock_blocks = cmd_change v typed nonce file (mint_utxo x v lock_blocks)"

definition cmd_list_mints :: "vault \<Rightarrow> string option \<Rightarrow> string \<Rightarrow> MintRecord list command" where
  "cmd_list_mints v typed file = cmd_read v typed file (\<lambda>w. Inr (list_mints w))"

definition cmd_mint_watch ::
    "ext \<Rightarrow> vault \<Rightarrow> btc \<Rightarrow> Internet \<Rightarrow> Supply \<Rightarrow> string option \<Rightarrow> bytes \<Rightarrow> string \<Rightarrow> u32 \<Rightarrow> CheckMintFundingOutput command" where
  "cmd_mint_watch x v b net s typed nonce file i = cmd_change v typed nonce file (check_mint_funding x b net s i)"

definition cmd_mint_message ::
    "ext \<Rightarrow> vault \<Rightarrow> Internet \<Rightarrow> Supply \<Rightarrow> string option \<Rightarrow> bytes \<Rightarrow> string \<Rightarrow> u32 \<Rightarrow> string option \<Rightarrow> MintMessageOutput command" where
  "cmd_mint_message x v net s typed nonce file i dest = cmd_change v typed nonce file (mint_message x v net s i dest)"

definition cmd_transfer ::
    "ext \<Rightarrow> vault \<Rightarrow> Internet \<Rightarrow> Supply \<Rightarrow> string option \<Rightarrow> bytes \<Rightarrow> string \<Rightarrow> string \<Rightarrow> u64 \<Rightarrow> TransferOutput command" where
  "cmd_transfer x v net s typed nonce file dest amount =
     cmd_change v typed nonce file (wallet_transfer x v net s dest amount)"

definition cmd_balance :: "ext \<Rightarrow> vault \<Rightarrow> Internet \<Rightarrow> string option \<Rightarrow> string \<Rightarrow> string option \<Rightarrow> BalanceOutput command" where
  "cmd_balance x v net typed file addr = cmd_read v typed file (wallet_balance x v net addr)"

definition cmd_verify_balance ::
    "ext \<Rightarrow> vault \<Rightarrow> Internet \<Rightarrow> string option \<Rightarrow> string \<Rightarrow> string option \<Rightarrow> string option \<Rightarrow> VerifyBalanceOutput command" where
  "cmd_verify_balance x v net typed file addr against =
     op_bind (op_result (\<lambda>_. case against of None \<Rightarrow> Inr None
       | Some s \<Rightarrow> rbind (map_err (\<lambda>_. BadHash) (H256_from_hex x s)) (\<lambda>h. Inr (Some h)))) (\<lambda>against.
     cmd_read v typed file (verify_balance x v net addr against))"

definition cmd_head :: "vault \<Rightarrow> Internet \<Rightarrow> string option \<Rightarrow> string \<Rightarrow> HeadResponse command" where
  "cmd_head v net typed file = cmd_read v typed file (sequencer_head net)"

text \<open>The two commands that walk the attestation chain may not return.\<close>

definition cmd_light_head ::
    "ext \<Rightarrow> vault \<Rightarrow> Internet \<Rightarrow> string option \<Rightarrow> string \<Rightarrow> Files \<Rightarrow> ((WalletError, LightHeadOutput) result \<times> Files) option" where
  "cmd_light_head x v net typed file fs =
     (case load_wallet v typed fs file of
        Inl e \<Rightarrow> Some (Inl e, fs)
      | Inr w \<Rightarrow> map_option (\<lambda>r. (r, fs)) (light_head x net w))"

definition cmd_light_balance ::
    "ext \<Rightarrow> vault \<Rightarrow> Internet \<Rightarrow> Supply \<Rightarrow> Supply \<Rightarrow> string option \<Rightarrow> bytes \<Rightarrow> string \<Rightarrow> string option \<Rightarrow> Files \<Rightarrow>
     ((WalletError, LightBalanceOutput) result \<times> Files) option" where
  "cmd_light_balance x v net s s' typed nonce file addr fs =
     (case load_wallet v typed fs file of
        Inl e \<Rightarrow> Some (Inl e, fs)
      | Inr w \<Rightarrow> map_option (\<lambda>r. save_after v nonce file r fs) (light_balance x v net s s' addr w))"

definition cmd_reclaim_list :: "vault \<Rightarrow> Internet \<Rightarrow> string option \<Rightarrow> string \<Rightarrow> ReclaimableMint list command" where
  "cmd_reclaim_list v net typed file = cmd_read v typed file (list_reclaimable_mints net)"

definition cmd_reclaim ::
    "ext \<Rightarrow> vault \<Rightarrow> btc \<Rightarrow> Internet \<Rightarrow> Supply \<Rightarrow> string option \<Rightarrow> bytes \<Rightarrow> string \<Rightarrow> u32 \<Rightarrow> string \<Rightarrow> u64 \<Rightarrow>
     ReclaimMintOutput command" where
  "cmd_reclaim x v b net s typed nonce file i dest fee_sat =
     cmd_change v typed nonce file (reclaim_mint x v b net s i dest fee_sat)"

section \<open>Commands keep the wallet\<close>

lemma load_wallet_stored:
  assumes "stored v fs file pp w" and "load_wallet v pp fs file = Inr u"
  shows "u = w"
proof -
  obtain d where d: "fs_files fs file = Some (Json d)" "from_disk v d pp = Inr w" using assms(1) by (auto simp: stored_def)
  show ?thesis
    using assms(2) d from_disk_plain [of d v None pp]
    by (auto simp: load_wallet_def is_encrypted_at_def read_disk_def rbind_eq_Inr load_unlocked_def WalletFile_load_def
        split: if_splits)
qed

text \<open>What is typed at the prompt opens nothing but what the wallet's own passphrase opens.\<close>

definition typed_right :: "vault \<Rightarrow> string option \<Rightarrow> string \<Rightarrow> Files \<Rightarrow> string option \<Rightarrow> bool" where
  "typed_right v pp file fs typed \<longleftrightarrow> (\<forall>w. load_wallet v typed fs file = Inr w \<longrightarrow> load_wallet v pp fs file = Inr w)"

lemma cmd_read_unchanged: "snd (cmd_read v typed file f fs) = fs"
  by (simp add: cmd_read_def op_result_def)

lemma reads_unchanged [simp]:
  "snd (cmd_address x v typed file fs) = fs" "snd (cmd_list_mints v typed file fs) = fs"
  "snd (cmd_balance x v net typed file addr fs) = fs" "snd (cmd_verify_balance x v net typed file addr against fs) = fs"
  "snd (cmd_head v net typed file fs) = fs" "snd (cmd_reclaim_list v net typed file fs) = fs"
  by (auto simp: cmd_address_def cmd_list_mints_def cmd_balance_def cmd_verify_balance_def cmd_head_def
      cmd_reclaim_list_def cmd_read_unchanged op_bind_def op_result_def split: sum.split)

context wallet_change
begin

lemma command_kept:
  assumes "kept x v pp file w0 fs" and "typed_right v pp file fs typed" and "vault_ok v" and "length nonce = NONCE_LEN"
  shows "kept x v pp file w0 (snd (cmd_change v typed nonce file m fs))"
proof (cases "load_wallet v typed fs file")
  case (Inl e)
  with assms(1) show ?thesis by (simp add: cmd_change_def op_bind_def op_result_def)
next
  case (Inr w)
  obtain w1 where w1: "stored v fs file pp w1" "wallet_ok x v w1" "evolves w0 w1" using assms(1) by (auto simp: kept_def)
  have "w = w1" using load_wallet_stored [OF w1(1)] assms(2) Inr by (auto simp: typed_right_def)
  then have saved: "kept x v pp file w0 (snd (WalletFile_save v nonce (snd (m w)) file fs))"
    using save_kept w1 assms(3,4) by simp
  obtain r w' where r: "m w = (r, w')" by (cases "m w")
  show ?thesis
  proof (cases r)
    case (Inl e)
    with Inr r assms(1) show ?thesis by (simp add: cmd_change_def save_after_def op_bind_def op_result_def)
  next
    case ok: (Inr a)
    have "snd (cmd_change v typed nonce file m fs) = snd (WalletFile_save v nonce w' file fs)"
      using Inr r ok by (auto simp: cmd_change_def save_after_def op_bind_def op_result_def split: prod.split sum.split)
    then show ?thesis using saved r by simp
  qed
qed

end

lemma light_balance_kept:
  assumes "kept x v pp file w0 fs" and "typed_right v pp file fs typed" and "vault_ok v" and "length nonce = NONCE_LEN"
    and "cmd_light_balance x v net s s' typed nonce file addr fs = Some (r, fs')"
  shows "kept x v pp file w0 fs'"
proof (cases "load_wallet v typed fs file")
  case (Inl e)
  with assms(1,5) show ?thesis by (simp add: cmd_light_balance_def)
next
  case (Inr w)
  then obtain q w' where q: "light_balance x v net s s' addr w = Some (q, w')" "save_after v nonce file (q, w') fs = (r, fs')"
    using assms(5) by (auto simp: cmd_light_balance_def)
  obtain w1 where w1: "stored v fs file pp w1" "wallet_ok x v w1" "evolves w0 w1" using assms(1) by (auto simp: kept_def)
  have w: "w = w1" using load_wallet_stored [OF w1(1)] assms(2) Inr by (auto simp: typed_right_def)
  obtain r' fs1 where save: "WalletFile_save v nonce w' file fs = (r', fs1)" by (cases "WalletFile_save v nonce w' file fs")
  have "fs' = (if is_ok q then fs1 else fs)"
    using q(2) save by (cases q) (auto simp: save_after_def op_bind_def op_result_def split: sum.splits)
  then show ?thesis
    using assms(1) kept_save [OF save assms(3,4,1) w1] good_light_balance [OF q(1)] w by auto
qed

lemma keygen_refused: "fs_files fs file \<noteq> None \<Longrightarrow> cmd_keygen x v entropy nonce file False network mn su nu eu fs = (Inl (WalletExists file), fs)"
  by (auto simp: cmd_keygen_def op_bind_def op_result_def)

text \<open>Commands on one wallet file, one after another, each meeting whatever network, faults and typing;
  \<open>keygen\<close> is never forced.\<close>

inductive cli_step :: "ext \<Rightarrow> vault \<Rightarrow> btc \<Rightarrow> string option \<Rightarrow> string \<Rightarrow> Files \<Rightarrow> Files \<Rightarrow> bool" for x v b pp wfile where
  cli_keygen: "cli_step x v b pp wfile fs (snd (cmd_keygen x v entropy nonce wfile False network mn su nu eu fs))"
| cli_address: "cli_step x v b pp wfile fs (snd (cmd_address x v typed wfile fs))"
| cli_list_mints: "cli_step x v b pp wfile fs (snd (cmd_list_mints v typed wfile fs))"
| cli_balance: "cli_step x v b pp wfile fs (snd (cmd_balance x v net typed wfile addr fs))"
| cli_verify_balance: "cli_step x v b pp wfile fs (snd (cmd_verify_balance x v net typed wfile addr against fs))"
| cli_head: "cli_step x v b pp wfile fs (snd (cmd_head v net typed wfile fs))"
| cli_reclaim_list: "cli_step x v b pp wfile fs (snd (cmd_reclaim_list v net typed wfile fs))"
| cli_light_head: "cmd_light_head x v net typed wfile fs = Some (r, fs') \<Longrightarrow> cli_step x v b pp wfile fs fs'"
| cli_mint_utxo: "typed_right v pp wfile fs typed \<Longrightarrow> length nonce = NONCE_LEN \<Longrightarrow>
    cli_step x v b pp wfile fs (snd (cmd_mint_utxo x v typed nonce wfile lock fs))"
| cli_mint_watch: "typed_right v pp wfile fs typed \<Longrightarrow> length nonce = NONCE_LEN \<Longrightarrow>
    cli_step x v b pp wfile fs (snd (cmd_mint_watch x v b net s typed nonce wfile i fs))"
| cli_mint_message: "typed_right v pp wfile fs typed \<Longrightarrow> length nonce = NONCE_LEN \<Longrightarrow>
    cli_step x v b pp wfile fs (snd (cmd_mint_message x v net s typed nonce wfile i dest fs))"
| cli_transfer: "typed_right v pp wfile fs typed \<Longrightarrow> length nonce = NONCE_LEN \<Longrightarrow>
    cli_step x v b pp wfile fs (snd (cmd_transfer x v net s typed nonce wfile dest' amount fs))"
| cli_light_balance: "typed_right v pp wfile fs typed \<Longrightarrow> length nonce = NONCE_LEN \<Longrightarrow>
    cmd_light_balance x v net s s' typed nonce wfile addr fs = Some (r, fs') \<Longrightarrow> cli_step x v b pp wfile fs fs'"
| cli_reclaim: "typed_right v pp wfile fs typed \<Longrightarrow> length nonce = NONCE_LEN \<Longrightarrow>
    cli_step x v b pp wfile fs (snd (cmd_reclaim x v b net s typed nonce wfile i dest' fee fs))"
| cli_faults: "cli_step x v b pp wfile fs (fs\<lparr>fs_fault := g, fs_torn := torn\<rparr>)"

lemma cli_step_kept:
  assumes "cli_step x v b pp file fs fs'" and "kept x v pp file w0 fs" and "vault_ok v"
  shows "kept x v pp file w0 fs'"
  using assms
proof (induction rule: cli_step.induct)
  case (cli_keygen fs)
  then have "fs_files fs file \<noteq> None" by (auto simp: kept_def stored_def)
  with cli_keygen show ?case by (simp add: keygen_refused)
next
  case (cli_light_head net typed fs r fs')
  then have "fs' = fs" by (auto simp: cmd_light_head_def split: sum.splits)
  with cli_light_head show ?case by simp
next
  case (cli_faults fs g torn)
  then show ?case by (simp add: kept_def stored_def)
qed (auto simp: cmd_mint_utxo_def cmd_mint_watch_def cmd_mint_message_def cmd_transfer_def cmd_reclaim_def
    intro: wc_mint_utxo.command_kept wc_check.command_kept wc_mint.command_kept wc_transfer.command_kept
      wc_reclaim.command_kept light_balance_kept)

lemma cli_run_kept:
  "(cli_step x v b pp file)\<^sup>*\<^sup>* fs fs' \<Longrightarrow> kept x v pp file w0 fs \<Longrightarrow> vault_ok v \<Longrightarrow> kept x v pp file w0 fs'"
  by (induction rule: rtranclp_induct) (auto intro: cli_step_kept)

end
