(* ===== verification/Desktop.thy ===== *)
theory Desktop
  imports WalletStored Wallets
begin

text \<open>
  The desktop application (\<open>hodl-desktop/src/state.rs\<close>, \<open>commands.rs\<close>): the session state \<open>AppState\<close>
  with the wallet directory, the selected wallet and the cached unlock contexts, and the commands
  that the user interface calls. The files of the directory are a field of the state. A command that
  changes a wallet is two steps, \<open>desk_begin\<close> (load the selected wallet and run the operation) and
  \<open>desk_finish\<close> (save): between them an asynchronous command waits for the network, and other commands
  may run. What crosses to the user interface as text is the result itself.
\<close>

record AppState =
  ap_wallets_dir :: string
  ap_current_wallet :: "string option"
  ap_unlocked :: "string \<rightharpoonup> UnlockContext"
  ap_files :: Files

type_synonym 'a desk = "(AppState, WalletError, 'a) act"

section \<open>AppState\<close>

text \<open>The regular files of the wallet directory, by path.\<close>

definition dir_files :: "string \<Rightarrow> (string \<times> DirEntry) list \<Rightarrow> string \<rightharpoonup> FileContent" where
  "dir_files dir es = map_of (List.map_filter (\<lambda>(name, e).
     case e of RegularFile c \<Rightarrow> Some (path_join dir name, c) | _ \<Rightarrow> None) es)"

definition AppState_init :: "string \<Rightarrow> (FsOp \<Rightarrow> bool) \<Rightarrow> FileContent \<Rightarrow> (WalletHome, WalletsError, AppState) act" where
  "AppState_init dir faults torn =
     op_bind migrate_legacy_wallet (\<lambda>_.
     op_bind ensure_wallets_dir (\<lambda>_.
     op_result (\<lambda>h. Inr \<lparr> ap_wallets_dir = dir, ap_current_wallet = None, ap_unlocked = Map.empty,
       ap_files = \<lparr> fs_files = (case wallets_dir h of Some es \<Rightarrow> dir_files dir es | None \<Rightarrow> Map.empty),
                    fs_fault = faults, fs_torn = torn \<rparr> \<rparr>)))"

definition wallet_file :: "AppState \<Rightarrow> string \<Rightarrow> (WalletError, string) result" where
  "wallet_file s name = map_err (\<lambda>_. BadName name) (wallet_path_for (ap_wallets_dir s) name)"

definition resolve_current_path :: "AppState \<Rightarrow> (WalletError, string) result" where
  "resolve_current_path s = rbind (ok_or (ap_current_wallet s) NoSelection) (\<lambda>name. wallet_file s name)"

text \<open>The second half of \<open>load_current\<close>, under both locks: the selection is read again, and its absence
  is a panic.\<close>

definition load_cached :: "vault \<Rightarrow> string \<Rightarrow> AppState \<Rightarrow> (WalletError, WalletFile) result" where
  "load_cached v file s =
     rbind (ok_or (ap_current_wallet s) ExpectFailed) (\<lambda>name.
     rbind (ok_or (ap_unlocked s name) (WalletLocked name)) (\<lambda>ctx.
     load_with_context v (ap_files s) file ctx))"

definition load_current :: "vault \<Rightarrow> AppState \<Rightarrow> (WalletError, WalletFile) result" where
  "load_current v s =
     rbind (resolve_current_path s) (\<lambda>file.
     rbind (is_encrypted_at (ap_files s) file) (\<lambda>encrypted.
     if encrypted then load_cached v file s else WalletFile_load v (ap_files s) file))"

definition on_files :: "(Files, WalletError, 'a) act \<Rightarrow> 'a desk" where
  "on_files m s = (case m (ap_files s) of (r, fs) \<Rightarrow> (r, s\<lparr>ap_files := fs\<rparr>))"

definition save_current :: "vault \<Rightarrow> bytes \<Rightarrow> WalletFile \<Rightarrow> unit desk" where
  "save_current v nonce w =
     op_bind (op_result resolve_current_path) (\<lambda>file. on_files (WalletFile_save v nonce w file))"

definition cache_context :: "string \<Rightarrow> UnlockContext \<Rightarrow> AppState \<Rightarrow> AppState" where
  "cache_context name ctx s = s\<lparr>ap_unlocked := (ap_unlocked s)(name \<mapsto> ctx)\<rparr>"

definition select_name :: "string \<Rightarrow> AppState \<Rightarrow> AppState" where
  "select_name name s = s\<lparr>ap_current_wallet := Some name\<rparr>"

definition unlock_for_select :: "vault \<Rightarrow> string \<Rightarrow> string \<Rightarrow> string option \<Rightarrow> unit desk" where
  "unlock_for_select v file name passphrase =
     op_bind (op_result (\<lambda>s. rbind (ok_or passphrase NeedsPassphrase) (\<lambda>pp. load_unlocked v (ap_files s) file (Some pp)))) (\<lambda>w.
     op_bind (op_result (\<lambda>_. ok_or (fst (take_encryption_ctx w)) ExpectFailed)) (\<lambda>ctx.
     op_modify (cache_context name ctx)))"

definition select_wallet :: "vault \<Rightarrow> string \<Rightarrow> string option \<Rightarrow> unit desk" where
  "select_wallet v name passphrase =
     op_bind (op_result (\<lambda>s. wallet_file s name)) (\<lambda>file.
     op_bind (op_result (\<lambda>s. if fs_files (ap_files s) file = None then Inl (NoSuchWallet name) else Inr ())) (\<lambda>_.
     op_bind (op_result (\<lambda>s. is_encrypted_at (ap_files s) file)) (\<lambda>encrypted.
     op_bind (if encrypted then unlock_for_select v file name passphrase else op_return ()) (\<lambda>_.
     op_modify (select_name name)))))"

definition deselect_wallet :: "AppState \<Rightarrow> AppState" where
  "deselect_wallet s =
     s\<lparr>ap_unlocked := (case ap_current_wallet s of Some n \<Rightarrow> (ap_unlocked s)(n := None) | None \<Rightarrow> ap_unlocked s),
       ap_current_wallet := None\<rparr>"

section \<open>Commands on names\<close>

definition list_wallets :: "WalletHome \<Rightarrow> (WalletsError, string list) result" where
  "list_wallets h = list_wallet_files h"

definition current_wallet :: "AppState \<Rightarrow> string option" where
  "current_wallet s = ap_current_wallet s"

definition is_wallet_encrypted :: "AppState \<Rightarrow> string \<Rightarrow> (WalletError, bool) result" where
  "is_wallet_encrypted s name =
     rbind (wallet_file s name) (\<lambda>file.
     if fs_files (ap_files s) file = None then Inl (NoSuchWallet name) else is_encrypted_at (ap_files s) file)"

record GuiKeygenInput =
  gk_name :: string
  gk_force :: bool
  gk_encryption_passphrase :: "string option"
  gk_keygen :: KeygenInput

definition save_encrypted :: "vault \<Rightarrow> bytes \<Rightarrow> bytes \<Rightarrow> bytes \<Rightarrow> string \<Rightarrow> string \<Rightarrow> string \<Rightarrow> WalletFile \<Rightarrow> unit desk" where
  "save_encrypted v salt nonce nonce' file name pp w =
     (case encrypt_in_place v salt nonce pp w of
        (Inl e, _) \<Rightarrow> op_result (\<lambda>_. Inl e)
      | (Inr _, w) \<Rightarrow>
          op_bind (on_files (WalletFile_save v nonce' w file)) (\<lambda>_.
          op_modify (case fst (take_encryption_ctx w) of Some ctx \<Rightarrow> cache_context name ctx | None \<Rightarrow> id)))"

definition save_new :: "vault \<Rightarrow> bytes \<Rightarrow> bytes \<Rightarrow> bytes \<Rightarrow> string \<Rightarrow> GuiKeygenInput \<Rightarrow> WalletFile \<Rightarrow> unit desk" where
  "save_new v salt nonce nonce' file input w =
     (case gk_encryption_passphrase input of
        Some pp \<Rightarrow>
          if pp \<noteq> [] then save_encrypted v salt nonce nonce' file (gk_name input) pp w
          else on_files (WalletFile_save v nonce' w file)
      | None \<Rightarrow> on_files (WalletFile_save v nonce' w file))"

definition desk_keygen :: "ext \<Rightarrow> vault \<Rightarrow> bytes \<Rightarrow> bytes \<Rightarrow> bytes \<Rightarrow> bytes \<Rightarrow> GuiKeygenInput \<Rightarrow> KeygenOutput desk" where
  "desk_keygen x v entropy salt nonce nonce' input =
     op_bind (op_result (\<lambda>s. wallet_file s (gk_name input))) (\<lambda>file.
     op_bind (op_result (\<lambda>s. if fs_files (ap_files s) file \<noteq> None \<and> \<not> gk_force input then Inl (WalletExists file) else Inr ())) (\<lambda>_.
     op_bind (op_result (\<lambda>_. keygen x v entropy (gk_keygen input))) (\<lambda>(w, out).
     op_bind (save_new v salt nonce nonce' file input w) (\<lambda>_.
     op_bind (op_modify (select_name (gk_name input))) (\<lambda>_. op_return out)))))"

section \<open>Commands on the selected wallet\<close>

definition desk_read :: "vault \<Rightarrow> (WalletFile \<Rightarrow> (WalletError, 'a) result) \<Rightarrow> 'a desk" where
  "desk_read v f = op_result (\<lambda>s. rbind (load_current v s) f)"

definition desk_begin :: "vault \<Rightarrow> 'a wallet_op \<Rightarrow> AppState \<Rightarrow> (WalletError, 'a \<times> WalletFile) result" where
  "desk_begin v m s = rbind (load_current v s) (\<lambda>w. case m w of (Inl e, _) \<Rightarrow> Inl e | (Inr a, w) \<Rightarrow> Inr (a, w))"

definition desk_finish :: "vault \<Rightarrow> bytes \<Rightarrow> 'a \<times> WalletFile \<Rightarrow> 'a desk" where
  "desk_finish v nonce r = op_bind (save_current v nonce (snd r)) (\<lambda>_. op_return (fst r))"

definition desk_change :: "vault \<Rightarrow> bytes \<Rightarrow> 'a wallet_op \<Rightarrow> 'a desk" where
  "desk_change v nonce m = op_bind (op_result (desk_begin v m)) (desk_finish v nonce)"

definition desk_address :: "ext \<Rightarrow> vault \<Rightarrow> string desk" where
  "desk_address x v = desk_read v (\<lambda>w. rbind (wallet_address x v w) (\<lambda>a. Inr (address_encode x a (wf_network w))))"

definition desk_list_mints :: "vault \<Rightarrow> MintRecord list desk" where
  "desk_list_mints v = desk_read v (\<lambda>w. Inr (list_mints w))"

definition desk_list_transactions :: "vault \<Rightarrow> TxRecord list desk" where
  "desk_list_transactions v = desk_read v (\<lambda>w. Inr (list_transactions w))"

definition desk_mint_utxo :: "ext \<Rightarrow> vault \<Rightarrow> bytes \<Rightarrow> u32 \<Rightarrow> MintUtxoOutput desk" where
  "desk_mint_utxo x v nonce lock_blocks = desk_change v nonce (mint_utxo x v lock_blocks)"

definition desk_check_mint_funding :: "ext \<Rightarrow> vault \<Rightarrow> btc \<Rightarrow> Internet \<Rightarrow> Supply \<Rightarrow> bytes \<Rightarrow> u32 \<Rightarrow> CheckMintFundingOutput desk" where
  "desk_check_mint_funding x v b net s nonce i = desk_change v nonce (check_mint_funding x b net s i)"

definition desk_mint_message :: "ext \<Rightarrow> vault \<Rightarrow> Internet \<Rightarrow> Supply \<Rightarrow> bytes \<Rightarrow> u32 \<Rightarrow> string option \<Rightarrow> MintMessageOutput desk" where
  "desk_mint_message x v net s nonce i dest = desk_change v nonce (mint_message x v net s i dest)"

definition desk_transfer :: "ext \<Rightarrow> vault \<Rightarrow> Internet \<Rightarrow> Supply \<Rightarrow> bytes \<Rightarrow> string \<Rightarrow> u64 \<Rightarrow> TransferOutput desk" where
  "desk_transfer x v net s nonce dest amount = desk_change v nonce (wallet_transfer x v net s dest amount)"

definition desk_balance :: "ext \<Rightarrow> vault \<Rightarrow> Internet \<Rightarrow> string option \<Rightarrow> BalanceOutput desk" where
  "desk_balance x v net addr = desk_read v (wallet_balance x v net addr)"

definition desk_verify_balance :: "ext \<Rightarrow> vault \<Rightarrow> Internet \<Rightarrow> string option \<Rightarrow> H256 option \<Rightarrow> VerifyBalanceOutput desk" where
  "desk_verify_balance x v net addr against = desk_read v (verify_balance x v net addr against)"

definition desk_sequencer_head :: "vault \<Rightarrow> Internet \<Rightarrow> HeadResponse desk" where
  "desk_sequencer_head v net = desk_read v (sequencer_head net)"

definition desk_list_reclaimable_mints :: "vault \<Rightarrow> Internet \<Rightarrow> ReclaimableMint list desk" where
  "desk_list_reclaimable_mints v net = desk_read v (list_reclaimable_mints net)"

definition desk_reclaim_mint ::
    "ext \<Rightarrow> vault \<Rightarrow> btc \<Rightarrow> Internet \<Rightarrow> Supply \<Rightarrow> bytes \<Rightarrow> u32 \<Rightarrow> string \<Rightarrow> u64 \<Rightarrow> ReclaimMintOutput desk" where
  "desk_reclaim_mint x v b net s nonce i dest fee_sat = desk_change v nonce (reclaim_mint x v b net s i dest fee_sat)"

text \<open>The two commands that walk the attestation chain may not return.\<close>

definition desk_light_head :: "ext \<Rightarrow> vault \<Rightarrow> Internet \<Rightarrow> AppState \<Rightarrow> ((WalletError, LightHeadOutput) result \<times> AppState) option" where
  "desk_light_head x v net s =
     (case load_current v s of
        Inl e \<Rightarrow> Some (Inl e, s)
      | Inr w \<Rightarrow> map_option (\<lambda>r. (r, s)) (light_head x net w))"

definition desk_light_balance ::
    "ext \<Rightarrow> vault \<Rightarrow> Internet \<Rightarrow> Supply \<Rightarrow> Supply \<Rightarrow> bytes \<Rightarrow> string option \<Rightarrow> AppState \<Rightarrow>
     ((WalletError, LightBalanceOutput) result \<times> AppState) option" where
  "desk_light_balance x v net t t' nonce addr s =
     (case load_current v s of
        Inl e \<Rightarrow> Some (Inl e, s)
      | Inr w \<Rightarrow> map_option (\<lambda>r. case r of (Inl e, _) \<Rightarrow> (Inl e, s) | (Inr a, w) \<Rightarrow> desk_finish v nonce (a, w) s)
          (light_balance x v net t t' addr w))"

end
