(* ===== verification/DesktopCorrect.thy ===== *)
theory DesktopCorrect
  imports Desktop
begin

text \<open>
  What a session of the desktop application does to one wallet of its directory: while commands run
  one at a time, selecting, creating and changing other wallets leaves it alone, and its own
  commands keep it, with its cached unlock context the one of its file.
\<close>

definition wallet_at :: "string \<Rightarrow> string \<Rightarrow> string" where
  "wallet_at dir name = path_join dir (name @ ''.json'')"

lemma wallet_file_Inr: "wallet_file s name = Inr file \<Longrightarrow> file = wallet_at (ap_wallets_dir s) name"
  by (auto simp: wallet_file_def wallet_path_for_def rbind_eq_Inr validate_name_iff wallet_at_def map_err_def split: sum.splits)

lemma wallet_at_inj: "wallet_at dir m = wallet_at dir n \<longleftrightarrow> m = n"
  by (simp add: wallet_at_def path_join_inj)

lemma wallet_at_not_tmp: "wallet_at dir n \<noteq> with_extension file ''json.tmp''"
proof -
  have "last (wallet_at dir n) = CHR ''n''" by (simp add: wallet_at_def path_join_def)
  moreover have "last (with_extension file ''json.tmp'') = CHR ''p''" by (simp add: with_extension_def Let_def)
  ultimately show ?thesis by auto
qed

lemma save_elsewhere:
  "WalletFile_save v nonce w (wallet_at dir m) fs = (r, fs') \<Longrightarrow> m \<noteq> n \<Longrightarrow>
     fs_files fs' (wallet_at dir n) = fs_files fs (wallet_at dir n)"
  by (rule save_other) (auto simp: wallet_at_inj wallet_at_not_tmp)

text \<open>The context a passphrase gave opens its file to the same mnemonic.\<close>

lemma decrypt_context:
  "decrypt v blob p = Inr (m, ctx) \<Longrightarrow> UnlockContext_decrypt v ctx blob = Inr m' \<Longrightarrow> m' = m"
  by (cases ctx) (auto simp: decrypt_def UnlockContext_decrypt_def rbind_eq_Inr split: if_splits)

lemma load_with_context_stored:
  assumes "stored v fs file pp w" and "wf_encryption_ctx w = Some ctx" and "load_with_context v fs file ctx = Inr u"
  shows "u = w"
proof -
  obtain d where d: "fs_files fs file = Some (Json d)" "from_disk v d pp = Inr w" using assms(1) by (auto simp: stored_def)
  obtain blob m where u: "dl_encrypted_mnemonic d = Some blob" "UnlockContext_decrypt v ctx blob = Inr m"
    "u = with_disk d m (Some ctx)"
    using assms(3) d(1) by (auto simp: load_with_context_def read_disk_def rbind_eq_Inr split: if_splits)
  obtain p m' where p: "decrypt v blob p = Inr (m', ctx)" "w = with_disk d m' (Some ctx)"
    using d(2) u(1) assms(2) by (auto simp: from_disk_def rbind_eq_Inr with_disk_def split: if_splits)
  show ?thesis using decrypt_context [OF p(1) u(2)] u(3) p(2) by simp
qed

lemma load_stored:
  assumes "stored v fs file pp w" and "load_unlocked v fs file pp = Inr u"
  shows "u = w"
  using assms by (auto simp: stored_def load_unlocked_def read_disk_def rbind_eq_Inr split: if_splits)

lemma load_plain_stored:
  assumes "stored v fs file pp w" and "WalletFile_load v fs file = Inr u" and "is_encrypted_at fs file = Inr False"
  shows "u = w"
  using assms from_disk_plain [of _ v pp None]
  by (auto simp: stored_def WalletFile_load_def is_encrypted_at_def read_disk_def rbind_eq_Inr split: if_splits)

section \<open>One wallet of the directory\<close>

definition wallet_kept ::
    "ext \<Rightarrow> vault \<Rightarrow> string option \<Rightarrow> string \<Rightarrow> string \<Rightarrow> WalletFile \<Rightarrow> AppState \<Rightarrow> bool" where
  "wallet_kept x v pp dir n w0 s \<longleftrightarrow> ap_wallets_dir s = dir \<and> kept x v pp (wallet_at dir n) w0 (ap_files s) \<and>
     (\<forall>ctx. ap_unlocked s n = Some ctx \<longrightarrow> wf_encryption_ctx w0 = Some ctx)"

lemma wallet_kept_same:
  assumes "wallet_kept x v pp dir n w0 s" and "ap_wallets_dir s' = ap_wallets_dir s"
    and "fs_files (ap_files s') (wallet_at dir n) = fs_files (ap_files s) (wallet_at dir n)"
    and "ap_unlocked s' n = ap_unlocked s n \<or> ap_unlocked s' n = None"
  shows "wallet_kept x v pp dir n w0 s'"
  using assms kept_same [OF assms(3)] by (auto simp: wallet_kept_def)

lemma load_current_kept:
  assumes "wallet_kept x v pp dir n w0 s" and "ap_current_wallet s = Some n" and "load_current v s = Inr u"
  shows "stored v (ap_files s) (wallet_at dir n) pp u \<and> wallet_ok x v u \<and> evolves w0 u"
proof -
  let ?file = "wallet_at dir n"
  obtain w where w: "stored v (ap_files s) ?file pp w" "wallet_ok x v w" "evolves w0 w"
    using assms(1) by (auto simp: wallet_kept_def kept_def)
  have at_n: "resolve_current_path s = Inr f \<Longrightarrow> f = ?file" for f
    using assms(1,2) by (auto simp: resolve_current_path_def wallet_kept_def dest: wallet_file_Inr)
  obtain e where e: "is_encrypted_at (ap_files s) ?file = Inr e"
    "(if e then load_cached v ?file s else WalletFile_load v (ap_files s) ?file) = Inr u"
    using assms(3) at_n by (fastforce simp: load_current_def rbind_eq_Inr)
  have "u = w"
  proof (cases e)
    case False
    then show ?thesis using load_plain_stored [OF w(1)] e by simp
  next
    case True
    then obtain ctx where c: "ap_unlocked s n = Some ctx" "load_with_context v (ap_files s) ?file ctx = Inr u"
      using e(2) assms(2) by (auto simp: load_cached_def rbind_eq_Inr)
    have "wf_encryption_ctx w = Some ctx" using c(1) assms(1) w(3) by (simp add: wallet_kept_def evolves_def)
    then show ?thesis using load_with_context_stored [OF w(1) _ c(2)] by simp
  qed
  with w show ?thesis by simp
qed

lemma save_current_cases:
  assumes "save_current v nonce w s = (r, s')"
  obtains "s' = s" | c fs' where "ap_current_wallet s = Some c"
    and "WalletFile_save v nonce w (wallet_at (ap_wallets_dir s) c) (ap_files s) = (r, fs')" and "s' = s\<lparr>ap_files := fs'\<rparr>"
proof (cases "resolve_current_path s")
  case (Inl e)
  with assms that(1) show ?thesis by (simp add: save_current_def op_bind_def op_result_def)
next
  case (Inr f)
  then obtain c where c: "ap_current_wallet s = Some c" "f = wallet_at (ap_wallets_dir s) c"
    by (auto simp: resolve_current_path_def rbind_eq_Inr dest: wallet_file_Inr)
  obtain r' fs' where save: "WalletFile_save v nonce w f (ap_files s) = (r', fs')"
    by (cases "WalletFile_save v nonce w f (ap_files s)")
  with Inr assms have "r' = r" "s' = s\<lparr>ap_files := fs'\<rparr>"
    by (auto simp: save_current_def op_bind_def op_result_def on_files_def)
  with that(2) c save show ?thesis by blast
qed

lemma finish_state: "snd (desk_finish v nonce r s) = snd (save_current v nonce (snd r) s)"
  by (auto simp: desk_finish_def op_bind_def split: prod.split sum.split)

text \<open>A command that loads, changes and saves the selected wallet keeps every wallet.\<close>

lemma finish_kept:
  assumes inv: "wallet_kept x v pp dir n w0 s" and loaded: "load_current v s = Inr w" and "good x v w w'"
    and "vault_ok v" and "length nonce = NONCE_LEN"
  shows "wallet_kept x v pp dir n w0 (snd (desk_finish v nonce (a, w') s))"
proof -
  obtain r s' where save: "save_current v nonce w' s = (r, s')" by (cases "save_current v nonce w' s")
  from save have "wallet_kept x v pp dir n w0 s'"
  proof (cases rule: save_current_cases)
    case 1
    with inv show ?thesis by simp
  next
    case (2 c fs')
    have dir: "ap_wallets_dir s = dir" using inv by (simp add: wallet_kept_def)
    show ?thesis
    proof (cases "c = n")
      case False
      with 2 dir save_elsewhere have "fs_files fs' (wallet_at dir n) = fs_files (ap_files s) (wallet_at dir n)" by metis
      with inv 2(3) show ?thesis by (auto intro: wallet_kept_same)
    next
      case True
      note w = load_current_kept [OF inv 2(1) [unfolded True] loaded]
      have "kept x v pp (wallet_at dir n) w0 (ap_files s)" using inv by (simp add: wallet_kept_def)
      then have "kept x v pp (wallet_at dir n) w0 fs'"
        using kept_save [OF 2(2) [unfolded True dir] assms(4,5)] w assms(3) by blast
      with inv 2(3) show ?thesis by (simp add: wallet_kept_def)
    qed
  qed
  with save show ?thesis by (simp add: finish_state)
qed

lemma desk_begin_Inr:
  assumes "desk_begin v m s = Inr r"
  obtains w where "load_current v s = Inr w" and "m w = (Inr (fst r), snd r)"
proof -
  obtain w where w: "load_current v s = Inr w" "(case m w of (Inl e, _) \<Rightarrow> Inl e | (Inr a, w) \<Rightarrow> Inr (a, w)) = Inr r"
    using assms by (auto simp: desk_begin_def rbind_eq_Inr)
  then have "m w = (Inr (fst r), snd r)" by (cases "m w") (auto split: sum.splits)
  with w(1) that show ?thesis by blast
qed

context wallet_change
begin

lemma desk_kept:
  assumes "wallet_kept x v pp dir n w0 s" and "vault_ok v" and "length nonce = NONCE_LEN"
  shows "wallet_kept x v pp dir n w0 (snd (desk_change v nonce m s))"
proof (cases "desk_begin v m s")
  case (Inl e)
  with assms(1) show ?thesis by (simp add: desk_change_def op_bind_def op_result_def)
next
  case (Inr r)
  then obtain w where w: "load_current v s = Inr w" "m w = (Inr (fst r), snd r)" by (rule desk_begin_Inr)
  have "good x v w (snd r)" using sound [of w] w(2) by simp
  from finish_kept [OF assms(1) w(1) this assms(2,3), of "fst r"] Inr show ?thesis
    by (simp add: desk_change_def op_bind_def op_result_def)
qed

end

lemma desk_light_balance_kept:
  assumes "wallet_kept x v pp dir n w0 s" and "vault_ok v" and "length nonce = NONCE_LEN"
    and "desk_light_balance x v net t t' nonce addr s = Some (r, s')"
  shows "wallet_kept x v pp dir n w0 s'"
proof (cases "load_current v s")
  case (Inl e)
  with assms(1,4) show ?thesis by (simp add: desk_light_balance_def)
next
  case (Inr w)
  then obtain q w' where q: "light_balance x v net t t' addr w = Some (q, w')"
    "(case q of Inl e \<Rightarrow> (Inl e, s) | Inr a \<Rightarrow> desk_finish v nonce (a, w') s) = (r, s')"
    using assms(4) by (auto simp: desk_light_balance_def)
  show ?thesis
  proof (cases q)
    case (Inl e)
    with q(2) assms(1) show ?thesis by simp
  next
    case a: (Inr a)
    then have "s' = snd (desk_finish v nonce (a, w') s)" using q(2) by (metis old.sum.simps(6) snd_conv)
    with finish_kept [OF assms(1) Inr good_light_balance [OF q(1)] assms(2,3)] show ?thesis by simp
  qed
qed

section \<open>Selecting and creating\<close>

lemma deselect_kept: "wallet_kept x v pp dir n w0 s \<Longrightarrow> wallet_kept x v pp dir n w0 (deselect_wallet s)"
  by (rule wallet_kept_same) (auto simp: deselect_wallet_def split: option.split)

lemma select_name_kept: "wallet_kept x v pp dir n w0 (select_name m s) = wallet_kept x v pp dir n w0 s"
  by (simp add: wallet_kept_def select_name_def)

lemma cache_other_kept:
  "m \<noteq> n \<Longrightarrow> wallet_kept x v pp dir n w0 (cache_context m ctx s) = wallet_kept x v pp dir n w0 s"
  by (simp add: wallet_kept_def cache_context_def)

lemma cache_own_kept:
  "wallet_kept x v pp dir n w0 s \<Longrightarrow> wf_encryption_ctx w0 = Some ctx \<Longrightarrow> wallet_kept x v pp dir n w0 (cache_context n ctx s)"
  by (simp add: wallet_kept_def cache_context_def)

text \<open>What is typed for the wallet opens nothing but what its own passphrase opens.\<close>

definition chosen_right :: "vault \<Rightarrow> string option \<Rightarrow> string \<Rightarrow> string \<Rightarrow> AppState \<Rightarrow> string \<Rightarrow> string option \<Rightarrow> bool" where
  "chosen_right v pp dir n s name typed \<longleftrightarrow> name \<noteq> n \<or>
     (\<forall>w. load_unlocked v (ap_files s) (wallet_at dir n) typed = Inr w \<longrightarrow> load_unlocked v (ap_files s) (wallet_at dir n) pp = Inr w)"

lemma unlock_kept:
  assumes inv: "wallet_kept x v pp dir n w0 s" and right: "chosen_right v pp dir n s name typed"
  shows "wallet_kept x v pp dir n w0 (snd (unlock_for_select v (wallet_at dir name) name typed s))"
proof (cases "\<exists>t w ctx. typed = Some t \<and> load_unlocked v (ap_files s) (wallet_at dir name) typed = Inr w \<and> wf_encryption_ctx w = Some ctx")
  case False
  then have "snd (unlock_for_select v (wallet_at dir name) name typed s) = s"
    by (auto simp: unlock_for_select_def op_bind_def op_result_def take_encryption_ctx_def rbind_def ok_or_def
        split: sum.splits option.splits)
  with inv show ?thesis by simp
next
  case True
  then obtain t w ctx where t: "typed = Some t" and w: "load_unlocked v (ap_files s) (wallet_at dir name) typed = Inr w"
    and ctx: "wf_encryption_ctx w = Some ctx" by blast
  have snd: "snd (unlock_for_select v (wallet_at dir name) name typed s) = cache_context name ctx s"
    using t w ctx by (simp add: unlock_for_select_def op_bind_def op_result_def take_encryption_ctx_def ok_or_def)
  show ?thesis
  proof (cases "name = n")
    case False
    with inv show ?thesis by (simp add: snd cache_other_kept)
  next
    case True
    obtain w1 where w1: "stored v (ap_files s) (wallet_at dir n) pp w1" "evolves w0 w1"
      using inv by (auto simp: wallet_kept_def kept_def)
    have "load_unlocked v (ap_files s) (wallet_at dir n) pp = Inr w" using right True w by (simp add: chosen_right_def)
    then have "w = w1" using load_stored [OF w1(1)] by blast
    with w1(2) ctx have "wf_encryption_ctx w0 = Some ctx" by (simp add: evolves_def)
    then show ?thesis unfolding snd using cache_own_kept [OF inv] True by simp
  qed
qed

lemma select_kept:
  assumes inv: "wallet_kept x v pp dir n w0 s" and right: "chosen_right v pp dir n s name typed"
  shows "wallet_kept x v pp dir n w0 (snd (select_wallet v name typed s))"
proof (cases "wallet_file s name")
  case (Inl e)
  with inv show ?thesis by (simp add: select_wallet_def op_bind_def op_result_def)
next
  case (Inr f)
  then have f: "f = wallet_at dir name" using inv wallet_file_Inr by (auto simp: wallet_kept_def)
  note unlocked = unlock_kept [OF inv right]
  show ?thesis
    using inv unlocked Inr f
    by (auto simp: select_wallet_def op_bind_def op_result_def select_name_kept split: sum.split prod.split)
qed

lemma on_files_elsewhere:
  assumes "wallet_kept x v pp dir n w0 s" and "m \<noteq> n"
  shows "wallet_kept x v pp dir n w0 (snd (on_files (WalletFile_save v nonce w (wallet_at dir m)) s))"
proof -
  obtain r fs' where save: "WalletFile_save v nonce w (wallet_at dir m) (ap_files s) = (r, fs')"
    by (cases "WalletFile_save v nonce w (wallet_at dir m) (ap_files s)")
  show ?thesis
    by (rule wallet_kept_same [OF assms(1)]) (simp_all add: on_files_def save save_elsewhere [OF save assms(2)])
qed

lemma save_encrypted_elsewhere:
  assumes "wallet_kept x v pp dir n w0 s" and "m \<noteq> n"
  shows "wallet_kept x v pp dir n w0 (snd (save_encrypted v salt nonce nonce' (wallet_at dir m) m p w s))"
proof -
  obtain r w' where e: "encrypt_in_place v salt nonce p w = (r, w')" by (cases "encrypt_in_place v salt nonce p w")
  obtain q s2 where saved: "on_files (WalletFile_save v nonce' w' (wallet_at dir m)) s = (q, s2)"
    by (cases "on_files (WalletFile_save v nonce' w' (wallet_at dir m)) s")
  have "wallet_kept x v pp dir n w0 s2" using on_files_elsewhere [OF assms] saved by (metis snd_conv)
  then show ?thesis
    using assms
    by (cases r; cases q) (auto simp: save_encrypted_def e saved op_bind_def op_result_def cache_other_kept split: option.split)
qed

lemma desk_keygen_kept:
  assumes inv: "wallet_kept x v pp dir n w0 s" and "\<not> gk_force input"
  shows "wallet_kept x v pp dir n w0 (snd (desk_keygen x v entropy salt nonce nonce' input s))"
proof (cases "wallet_file s (gk_name input)")
  case (Inl e)
  with inv show ?thesis by (simp add: desk_keygen_def op_bind_def op_result_def)
next
  case (Inr f)
  then have f: "f = wallet_at dir (gk_name input)" using inv wallet_file_Inr by (auto simp: wallet_kept_def)
  show ?thesis
  proof (cases "gk_name input = n")
    case True
    then have "fs_files (ap_files s) f \<noteq> None" using inv f by (auto simp: wallet_kept_def kept_def stored_def)
    with inv Inr assms(2) show ?thesis by (auto simp: desk_keygen_def op_bind_def op_result_def)
  next
    case False
    have saved: "wallet_kept x v pp dir n w0 (snd (save_new v salt nonce nonce' f input w s))" for w
      using on_files_elsewhere [OF inv False] save_encrypted_elsewhere [OF inv False]
      by (simp add: save_new_def f split: option.split)
    show ?thesis
    proof (cases "keygen x v entropy (gk_keygen input)")
      case (Inl e)
      with inv Inr show ?thesis by (simp add: desk_keygen_def op_bind_def op_result_def split: if_split)
    next
      case made: (Inr q)
      obtain r s2 where "save_new v salt nonce nonce' f input (fst q) s = (r, s2)"
        by (cases "save_new v salt nonce nonce' f input (fst q) s")
      with saved [of "fst q"] inv Inr made show ?thesis
        by (cases q; cases r) (simp_all add: desk_keygen_def op_bind_def op_result_def select_name_kept split: if_split)
    qed
  qed
qed

section \<open>Sessions\<close>

text \<open>The commands of a session, one at a time, each meeting whatever network and faults; \<open>keygen\<close> is
  never forced.\<close>

inductive desk_step :: "ext \<Rightarrow> vault \<Rightarrow> btc \<Rightarrow> string option \<Rightarrow> string \<Rightarrow> string \<Rightarrow> AppState \<Rightarrow> AppState \<Rightarrow> bool"
  for x v b pp dir n where
  desk_select: "chosen_right v pp dir n s name typed \<Longrightarrow> desk_step x v b pp dir n s (snd (select_wallet v name typed s))"
| desk_deselect: "desk_step x v b pp dir n s (deselect_wallet s)"
| desk_create: "\<not> gk_force input \<Longrightarrow> desk_step x v b pp dir n s (snd (desk_keygen x v entropy salt nonce nonce' input s))"
| desk_mint_utxo: "length nonce = NONCE_LEN \<Longrightarrow> desk_step x v b pp dir n s (snd (desk_mint_utxo x v nonce lock s))"
| desk_check: "length nonce = NONCE_LEN \<Longrightarrow>
    desk_step x v b pp dir n s (snd (desk_check_mint_funding x v b net t nonce i s))"
| desk_mint: "length nonce = NONCE_LEN \<Longrightarrow> desk_step x v b pp dir n s (snd (desk_mint_message x v net t nonce i dest s))"
| desk_transfer: "length nonce = NONCE_LEN \<Longrightarrow>
    desk_step x v b pp dir n s (snd (desk_transfer x v net t nonce dest' amount s))"
| desk_light: "length nonce = NONCE_LEN \<Longrightarrow> desk_light_balance x v net t t' nonce addr s = Some (r, s') \<Longrightarrow>
    desk_step x v b pp dir n s s'"
| desk_reclaim: "length nonce = NONCE_LEN \<Longrightarrow>
    desk_step x v b pp dir n s (snd (desk_reclaim_mint x v b net t nonce i dest' fee s))"
| desk_faults: "desk_step x v b pp dir n s (s\<lparr>ap_files := (ap_files s)\<lparr>fs_fault := g, fs_torn := torn\<rparr>\<rparr>)"

lemma desk_step_kept:
  assumes "desk_step x v b pp dir n s s'" and "wallet_kept x v pp dir n w0 s" and "vault_ok v"
  shows "wallet_kept x v pp dir n w0 s'"
  using assms
proof (induction rule: desk_step.induct)
  case (desk_faults s g torn)
  then show ?case by (auto simp: wallet_kept_def kept_def stored_def)
qed (auto simp: desk_mint_utxo_def desk_check_mint_funding_def desk_mint_message_def desk_transfer_def desk_reclaim_mint_def
    intro: select_kept deselect_kept desk_keygen_kept wc_mint_utxo.desk_kept wc_check.desk_kept wc_mint.desk_kept
      wc_transfer.desk_kept wc_reclaim.desk_kept desk_light_balance_kept)

lemma desk_run_kept:
  "(desk_step x v b pp dir n)\<^sup>*\<^sup>* s s' \<Longrightarrow> wallet_kept x v pp dir n w0 s \<Longrightarrow> vault_ok v \<Longrightarrow> wallet_kept x v pp dir n w0 s'"
  by (induction rule: rtranclp_induct) (auto intro: desk_step_kept)

lemma desk_reads_unchanged:
  "snd (desk_address x v s) = s" "snd (desk_list_mints v s) = s" "snd (desk_list_transactions v s) = s"
  "snd (desk_balance x v net addr s) = s" "snd (desk_verify_balance x v net addr against s) = s"
  "snd (desk_sequencer_head v net s) = s" "snd (desk_list_reclaimable_mints v net s) = s"
  by (simp_all add: desk_address_def desk_list_mints_def desk_list_transactions_def desk_balance_def
      desk_verify_balance_def desk_sequencer_head_def desk_list_reclaimable_mints_def desk_read_def op_result_def)

end
