(* ===== verification/DesktopRaces.thy ===== *)
theory DesktopRaces
  imports DesktopCorrect
begin

text \<open>
  Commands of the desktop application that overlap. An asynchronous command loads the selected wallet,
  waits for the network and saves to whatever is selected then; nothing stops another command in
  between. These lemmas say what a save leaves to be loaded, and what the operations that
  poll the network take from the wallet they started on.
\<close>

section \<open>What a finished command leaves\<close>

lemma load_current_file:
  assumes "load_current v s = Inr w"
  obtains c d where "ap_current_wallet s = Some c" and "wallet_file s c = Inr (wallet_at (ap_wallets_dir s) c)"
    and "\<not> fs_fault (ap_files s) FsRead"
    and "fs_files (ap_files s) (wallet_at (ap_wallets_dir s) c) = Some (Json d)"
    and "if dl_encrypted_mnemonic d = None then from_disk v d None = Inr w \<and> wf_encryption_ctx w = None
      else \<exists>ctx. ap_unlocked s c = Some ctx \<and> wf_encryption_ctx w = Some ctx"
proof -
  obtain f where f: "resolve_current_path s = Inr f" using assms by (auto simp: load_current_def rbind_eq_Inr)
  obtain c where c: "ap_current_wallet s = Some c" "wallet_file s c = Inr f"
    using f by (auto simp: resolve_current_path_def rbind_eq_Inr)
  have at: "f = wallet_at (ap_wallets_dir s) c" by (rule wallet_file_Inr [OF c(2)])
  obtain e where e: "is_encrypted_at (ap_files s) f = Inr e"
    "(if e then load_cached v f s else WalletFile_load v (ap_files s) f) = Inr w"
    using assms f by (auto simp: load_current_def rbind_eq_Inr)
  obtain d where d: "read_disk (ap_files s) f = Inr d" "e = (dl_encrypted_mnemonic d \<noteq> None)"
    using e(1) by (auto simp: is_encrypted_at_def rbind_eq_Inr)
  have on_disk: "\<not> fs_fault (ap_files s) FsRead" "fs_files (ap_files s) f = Some (Json d)"
    using d(1) by (auto simp: read_disk_def split: if_splits option.splits FileContent.splits)
  have "if dl_encrypted_mnemonic d = None then from_disk v d None = Inr w \<and> wf_encryption_ctx w = None
      else \<exists>ctx. ap_unlocked s c = Some ctx \<and> wf_encryption_ctx w = Some ctx"
  proof (cases e)
    case False
    then have "from_disk v d None = Inr w" using e(2) d(1) by (simp add: WalletFile_load_def)
    with False d(2) from_disk_encrypted [OF this] show ?thesis by simp
  next
    case True
    then show ?thesis
      using e(2) d c(1) by (auto simp: load_cached_def load_with_context_def with_disk_def rbind_eq_Inr)
  qed
  with that c at on_disk show ?thesis by simp
qed

lemma finish_ok:
  assumes "desk_finish v nonce (a, w) s = (Inr a', s')"
  obtains c d fs' where "ap_current_wallet s = Some c" and "wallet_file s c = Inr (wallet_at (ap_wallets_dir s) c)"
    and "a' = a" and "s' = s\<lparr>ap_files := fs'\<rparr>" and "to_disk v nonce w = Inr d"
    and "fs_files fs' = (fs_files (ap_files s))(with_extension (wallet_at (ap_wallets_dir s) c) ''json.tmp'' := None,
      wallet_at (ap_wallets_dir s) c := Some (Json d))"
    and "fs_fault fs' = fs_fault (ap_files s)"
proof -
  have save: "save_current v nonce w s = (Inr (), s')" "a' = a"
    using assms by (auto simp: desk_finish_def op_bind_Inr)
  obtain f where f: "resolve_current_path s = Inr f" "on_files (WalletFile_save v nonce w f) s = (Inr (), s')"
    using save(1) by (auto simp: save_current_def op_bind_Inr op_result_Inr)
  obtain c where c: "ap_current_wallet s = Some c" "wallet_file s c = Inr f"
    using f(1) by (auto simp: resolve_current_path_def rbind_eq_Inr)
  have at: "f = wallet_at (ap_wallets_dir s) c" by (rule wallet_file_Inr [OF c(2)])
  obtain fs' where fs': "WalletFile_save v nonce w f (ap_files s) = (Inr (), fs')" "s' = s\<lparr>ap_files := fs'\<rparr>"
    using f(2) by (auto simp: on_files_def split: prod.splits)
  show ?thesis using that save_ok [OF fs'(1)] c at save(2) fs'(2) by blast
qed

text \<open>A command that finished on the selected wallet is what the next command loads.\<close>

lemma load_after_finish:
  assumes loaded: "load_current v s = Inr w" and fin: "desk_finish v nonce (a, w') s = (Inr a', s')"
    and ctx: "wf_encryption_ctx w' = wf_encryption_ctx w" and vault: "vault_ok v" "length nonce = NONCE_LEN"
  shows "load_current v s' = Inr w'"
proof -
  obtain c d0 where cur: "ap_current_wallet s = Some c" and valid: "wallet_file s c = Inr (wallet_at (ap_wallets_dir s) c)"
    and readable: "\<not> fs_fault (ap_files s) FsRead"
    and "fs_files (ap_files s) (wallet_at (ap_wallets_dir s) c) = Some (Json d0)"
    and keys: "if dl_encrypted_mnemonic d0 = None then from_disk v d0 None = Inr w \<and> wf_encryption_ctx w = None
      else \<exists>ctx. ap_unlocked s c = Some ctx \<and> wf_encryption_ctx w = Some ctx"
    by (rule load_current_file [OF loaded])
  obtain d fs' where d: "s' = s\<lparr>ap_files := fs'\<rparr>" "to_disk v nonce w' = Inr d"
    "fs_files fs' (wallet_at (ap_wallets_dir s) c) = Some (Json d)" "fs_fault fs' = fs_fault (ap_files s)"
    using cur by (rule_tac finish_ok [OF fin]) simp
  have here: "wallet_file s' c = Inr (wallet_at (ap_wallets_dir s) c)" "ap_current_wallet s' = Some c"
    "ap_unlocked s' = ap_unlocked s" "ap_files s' = fs'" using cur valid d(1) by (simp_all add: wallet_file_def)
  have resolved: "resolve_current_path s' = Inr (wallet_at (ap_wallets_dir s) c)"
    using here by (simp add: resolve_current_path_def ok_or_def)
  have read: "read_disk fs' (wallet_at (ap_wallets_dir s) c) = Inr d"
    using d readable by (simp add: read_disk_def)
  show ?thesis
  proof (cases "wf_encryption_ctx w'")
    case None
    then have "dl_encrypted_mnemonic d = None" "from_disk v d None = Inr w'"
      using d(2) from_to_disk [OF d(2) vault] by (auto simp: to_disk_def Let_def)
    then show ?thesis using resolved read here
      by (simp add: load_current_def is_encrypted_at_def WalletFile_load_def)
  next
    case (Some k)
    then have cached: "ap_unlocked s c = Some k" using keys ctx by (auto split: if_splits)
    obtain blob where b: "reencrypt v nonce (wf_mnemonic w') k = Inr blob" "dl_encrypted_mnemonic d = Some blob"
      using d(2) Some by (auto simp: to_disk_def Let_def rbind_eq_Inr)
    show ?thesis
      using resolved read here cached b context_decrypts_reencrypted [OF vault b(1)] with_to_disk [OF d(2)] Some
      by (simp add: load_current_def is_encrypted_at_def load_cached_def load_with_context_def ok_or_def)
  qed
qed

lemma selected_state:
  "select_wallet v name typed s = (Inr (), s') \<Longrightarrow>
     ap_current_wallet s' = Some name \<and> ap_wallets_dir s' = ap_wallets_dir s \<and> ap_files s' = ap_files s"
  by (auto simp: select_wallet_def op_bind_Inr op_result_Inr unlock_for_select_def op_modify_def op_return_def
      select_name_def cache_context_def split: if_splits)

lemma desk_change_ok:
  assumes "desk_change v nonce m s = (Inr a, s')"
  shows "\<exists>w w'. load_current v s = Inr w \<and> m w = (Inr a, w') \<and> desk_finish v nonce (a, w') s = (Inr a, s')"
proof -
  obtain r where r: "desk_begin v m s = Inr r" "desk_finish v nonce r s = (Inr a, s')"
    using assms by (auto simp: desk_change_def op_bind_Inr op_result_Inr)
  obtain w where w: "load_current v s = Inr w" "m w = (Inr (fst r), snd r)" using r(1) by (rule desk_begin_Inr)
  have "fst r = a" using r(2) by (auto simp: desk_finish_def op_bind_Inr)
  then show ?thesis using w r(2) by (cases r) auto
qed

lemma finish_plain:
  assumes "ap_current_wallet s = Some c" and "wallet_file s c = Inr f" and "wf_encryption_ctx w = None"
    and "fs_fault (ap_files s) = (\<lambda>_. False)"
  shows "\<exists>fs'. desk_finish v nonce (a, w) s = (Inr a, s\<lparr>ap_files := fs'\<rparr>) \<and> fs_fault fs' = (\<lambda>_. False)"
  using assms
  by (simp add: desk_finish_def save_current_def resolve_current_path_def ok_or_def op_bind_def op_result_def on_files_def
      WalletFile_save_def to_disk_def Let_def fs_write_def fs_rename_def) (intro exI conjI, rule refl, simp)

lemma desk_change_plain:
  assumes "ap_current_wallet s = Some c" and "wallet_file s c = Inr f" and "fs_fault (ap_files s) = (\<lambda>_. False)"
    and "load_current v s = Inr w" and "m w = (Inr a, u)" and "wf_encryption_ctx u = None"
  shows "\<exists>fs'. desk_change v nonce m s = (Inr a, s\<lparr>ap_files := fs'\<rparr>) \<and> fs_fault fs' = (\<lambda>_. False)"
  using finish_plain [OF assms(1,2,6,3), of v nonce a] assms(4,5)
  by (simp add: desk_change_def desk_begin_def op_bind_def op_result_def)

section \<open>What an operation takes from the wallet it started on\<close>

lemma allocate_index:
  "allocate_mint_keypair v w = (Inr (kp, i), w') \<Longrightarrow> i = wf_next_mint_index w \<and> mint_keypair v w i = Inr kp \<and>
     wf_mnemonic w' = wf_mnemonic w \<and> wf_network w' = wf_network w \<and> wf_encryption_ctx w' = wf_encryption_ctx w"
  by (auto simp: allocate_mint_keypair_def op_bind_Inr op_result_Inr op_write_Inr op_gets_def op_return_def rbind_eq_Inr)

text \<open>What \<open>mint_utxo\<close> hands out is a function of the counter, the keys and the lock.\<close>

lemma mint_utxo_out:
  assumes "mint_utxo x v lock w = (Inr out, w')"
  shows "mu_bip32_index out = wf_next_mint_index w \<and> mu_lock_blocks out = lock \<and>
    (\<exists>kp. mint_keypair v w (wf_next_mint_index w) = Inr kp \<and>
       mint_address x lock (keypair_xonly x kp) (into_bitcoin (wf_network w)) = Inr (mu_mint_address out)) \<and>
    wf_encryption_ctx w' = wf_encryption_ctx w"
  using assms
  by (auto simp: mint_utxo_def op_bind_Inr op_result_Inr op_return_def op_modify_def append_mint_def
      dest!: allocate_index)

lemma mint_utxo_again:
  assumes "mint_utxo x v lock w = (Inr out, w')" and "mint_utxo x v lock u = (Inr out', u')"
    and "wf_next_mint_index u = wf_next_mint_index w" and "wf_mnemonic u = wf_mnemonic w" and "wf_network u = wf_network w"
  shows "out' = out"
  using mint_utxo_out [OF assms(1)] mint_utxo_out [OF assms(2)] mint_keypair_same [OF assms(4,5)] assms(3,5)
  by (auto intro!: MintUtxoOutput.equality)

lemma check_mint_funding_same:
  assumes "check_mint_funding x b net t i w = (r, w')"
  shows "wf_next_mint_index w' = wf_next_mint_index w \<and> wf_mnemonic w' = wf_mnemonic w \<and> wf_network w' = wf_network w \<and>
    wf_encryption_ctx w' = wf_encryption_ctx w \<and> map mr_bip32_index (wf_mints w') = map mr_bip32_index (wf_mints w)"
  using assms
  by (auto simp: check_mint_funding_def op_bind_def op_result_def op_return_def op_modify_def Let_def record_funding_def
      append_tx_def update_mint_def update_first_map split: sum.splits list.splits option.splits if_splits prod.splits)

lemma find_mint_none: "find_mint_by_index i w = None \<longleftrightarrow> i \<notin> set (map mr_bip32_index (wf_mints w))"
  by (auto simp: find_mint_by_index_def find_None_iff)

lemma unused_index: "wallet_ok x v w \<Longrightarrow> wf_next_mint_index w \<notin> set (map mr_bip32_index (wf_mints w))"
  by (auto simp: wallet_ok_def mint_ok_def)

section \<open>Selection and cache\<close>

text \<open>A wallet deselected between the two halves of \<open>load_current\<close> is a panic, with both mutexes held.\<close>

lemma deselected_load_panics: "load_cached v f (deselect_wallet s) = Inl ExpectFailed"
  by (simp add: load_cached_def deselect_wallet_def ok_or_def)

text \<open>Selecting another wallet leaves the contexts cached before where they are.\<close>

lemma select_keeps_contexts:
  "select_wallet v m typed s = (r, s') \<Longrightarrow> m \<noteq> n \<Longrightarrow> ap_unlocked s' n = ap_unlocked s n"
  by (auto simp: select_wallet_def op_bind_def op_result_def unlock_for_select_def cache_context_def select_name_def
      split: sum.splits prod.splits if_splits)

end
