(* ===== verification/DesktopLocks.thy ===== *)
theory DesktopLocks
  imports Prelude
begin

text \<open>
  The two mutexes of \<open>AppState\<close> (\<open>hodl-desktop/src/state.rs\<close>). Synchronous commands run on the main
  thread and asynchronous ones on the runtime's, so the methods run side by side, and each is here the
  sequence of locks it takes and releases; a guard is released where it goes out of scope. A thread
  waits while another holds the mutex it wants.
\<close>

datatype Mutex = CurrentWallet | UnlockedCache

datatype LockOp = Acquire Mutex | Release Mutex

section \<open>What the methods lock\<close>

definition resolve_locks :: "LockOp list" where
  "resolve_locks = [Acquire CurrentWallet, Release CurrentWallet]"

text \<open>The flag: the wallet is encrypted.\<close>

definition load_current_locks :: "bool \<Rightarrow> LockOp list" where
  "load_current_locks encrypted = resolve_locks @
     (if encrypted
      then [Acquire UnlockedCache, Acquire CurrentWallet, Release CurrentWallet, Release UnlockedCache] else [])"

definition save_current_locks :: "LockOp list" where
  "save_current_locks = resolve_locks"

definition cache_locks :: "LockOp list" where
  "cache_locks = [Acquire UnlockedCache, Release UnlockedCache]"

definition set_current_locks :: "LockOp list" where
  "set_current_locks = [Acquire CurrentWallet, Release CurrentWallet]"

definition select_locks :: "bool \<Rightarrow> LockOp list" where
  "select_locks encrypted = (if encrypted then cache_locks else []) @ set_current_locks"

text \<open>The flag: a wallet is selected.\<close>

definition deselect_locks :: "bool \<Rightarrow> LockOp list" where
  "deselect_locks selected = [Acquire CurrentWallet] @ (if selected then cache_locks else []) @ [Release CurrentWallet]"

definition keygen_locks :: "bool \<Rightarrow> LockOp list" where
  "keygen_locks encrypted = (if encrypted then cache_locks else []) @ set_current_locks"

datatype DeskCommand =
    QueryCurrent
  | Select bool
  | Deselect bool
  | Keygen bool
  | ReadWallet bool
  | ChangeWallet bool

fun command_locks :: "DeskCommand \<Rightarrow> LockOp list" where
  "command_locks QueryCurrent = [Acquire CurrentWallet, Release CurrentWallet]"
| "command_locks (Select encrypted) = select_locks encrypted"
| "command_locks (Deselect selected) = deselect_locks selected"
| "command_locks (Keygen encrypted) = keygen_locks encrypted"
| "command_locks (ReadWallet encrypted) = load_current_locks encrypted"
| "command_locks (ChangeWallet encrypted) = load_current_locks encrypted @ save_current_locks"

section \<open>Threads\<close>

record Thread =
  th_held :: "Mutex list"
  th_todo :: "LockOp list"

definition taken :: "Thread list \<Rightarrow> Mutex \<Rightarrow> bool" where
  "taken ts m \<longleftrightarrow> (\<exists>t\<in>set ts. m \<in> set (th_held t))"

inductive lock_step :: "Thread list \<Rightarrow> Thread list \<Rightarrow> bool" where
  acquires: "i < length ts \<Longrightarrow> th_todo (ts ! i) = Acquire m # rest \<Longrightarrow> \<not> taken ts m \<Longrightarrow>
     lock_step ts (ts[i := \<lparr> th_held = m # th_held (ts ! i), th_todo = rest \<rparr>])"
| releases: "i < length ts \<Longrightarrow> th_todo (ts ! i) = Release m # rest \<Longrightarrow>
     lock_step ts (ts[i := \<lparr> th_held = remove1 m (th_held (ts ! i)), th_todo = rest \<rparr>])"

definition start :: "DeskCommand list \<Rightarrow> Thread list" where
  "start cs = map (\<lambda>c. \<lparr> th_held = [], th_todo = command_locks c \<rparr>) cs"

definition finished :: "Thread list \<Rightarrow> bool" where
  "finished ts \<longleftrightarrow> (\<forall>t\<in>set ts. th_todo t = [])"

definition stuck :: "Thread list \<Rightarrow> bool" where
  "stuck ts \<longleftrightarrow> \<not> finished ts \<and> \<not> (\<exists>ts'. lock_step ts ts')"

section \<open>Ordered locking\<close>

text \<open>A thread takes a mutex only while those it holds have a lower rank, and ends with none.\<close>

fun ordered :: "(Mutex \<Rightarrow> nat) \<Rightarrow> Mutex list \<Rightarrow> LockOp list \<Rightarrow> bool" where
  "ordered rank held [] \<longleftrightarrow> held = []"
| "ordered rank held (Acquire m # rest) \<longleftrightarrow> (\<forall>k\<in>set held. rank k < rank m) \<and> ordered rank (m # held) rest"
| "ordered rank held (Release m # rest) \<longleftrightarrow> ordered rank (remove1 m held) rest"

definition all_ordered :: "(Mutex \<Rightarrow> nat) \<Rightarrow> Thread list \<Rightarrow> bool" where
  "all_ordered rank ts \<longleftrightarrow> (\<forall>t\<in>set ts. ordered rank (th_held t) (th_todo t))"

lemma step_ordered: "lock_step ts ts' \<Longrightarrow> all_ordered rank ts \<Longrightarrow> all_ordered rank ts'"
proof (induction rule: lock_step.induct)
  case (acquires i ts m rest)
  then have "ordered rank (th_held (ts ! i)) (Acquire m # rest)" by (metis all_ordered_def nth_mem)
  with acquires show ?case by (auto simp: all_ordered_def dest: set_update_subset_insert [THEN subsetD])
next
  case (releases i ts m rest)
  then have "ordered rank (th_held (ts ! i)) (Release m # rest)" by (metis all_ordered_def nth_mem)
  with releases show ?case by (auto simp: all_ordered_def dest: set_update_subset_insert [THEN subsetD])
qed

lemma run_ordered: "lock_step\<^sup>*\<^sup>* ts ts' \<Longrightarrow> all_ordered rank ts \<Longrightarrow> all_ordered rank ts'"
  by (induction rule: rtranclp_induct) (auto intro: step_ordered)

text \<open>Along the chain of threads that wait for each other the rank grows, so one of them can move.\<close>

lemma waiting_moves:
  assumes "all_ordered rank ts" and "\<forall>m. rank m < 2"
  shows "t \<in> set ts \<Longrightarrow> th_todo t = Acquire m # rest \<Longrightarrow> \<exists>ts'. lock_step ts ts'"
proof (induction "2 - rank m" arbitrary: t m rest rule: less_induct)
  case less
  show ?case
  proof (cases "taken ts m")
    case False
    with less.prems show ?thesis by (metis acquires in_set_conv_nth)
  next
    case True
    then obtain u where u: "u \<in> set ts" "m \<in> set (th_held u)" by (auto simp: taken_def)
    then have ord: "ordered rank (th_held u) (th_todo u)" using assms(1) by (simp add: all_ordered_def)
    show ?thesis
    proof (cases "th_todo u")
      case Nil
      with ord u(2) show ?thesis by simp
    next
      case (Cons a rest')
      show ?thesis
      proof (cases a)
        case (Release k)
        with Cons u(1) show ?thesis by (metis releases in_set_conv_nth)
      next
        case (Acquire k)
        then have "rank m < rank k" using ord u(2) Cons by simp
        then have "2 - rank k < 2 - rank m" using assms(2) by (simp add: diff_less_mono2 less_trans)
        from less.hyps [OF this u(1)] Cons Acquire show ?thesis by simp
      qed
    qed
  qed
qed

lemma ordered_not_stuck:
  assumes "all_ordered rank ts" and "\<forall>m. rank m < 2"
  shows "\<not> stuck ts"
proof
  assume stuck: "stuck ts"
  then obtain t where t: "t \<in> set ts" "th_todo t \<noteq> []" by (auto simp: stuck_def finished_def)
  then obtain a rest where a: "th_todo t = a # rest" by (cases "th_todo t") auto
  have "\<exists>ts'. lock_step ts ts'"
  proof (cases a)
    case (Acquire m)
    with a waiting_moves [OF assms t(1)] show ?thesis by simp
  next
    case (Release m)
    with a t(1) show ?thesis by (metis releases in_set_conv_nth)
  qed
  with stuck show False by (simp add: stuck_def)
qed

section \<open>Work left\<close>

definition work :: "Thread list \<Rightarrow> nat" where
  "work ts = (\<Sum>t\<leftarrow>ts. length (th_todo t))"

lemma sum_list_update_less: "i < length ts \<Longrightarrow> g t < g (ts ! i) \<Longrightarrow> (\<Sum>u\<leftarrow>ts[i := t]. g u) < (\<Sum>u\<leftarrow>ts. (g u :: nat))"
proof (induction ts arbitrary: i)
  case (Cons u ts)
  then show ?case by (cases i) auto
qed simp

lemma step_works: "lock_step ts ts' \<Longrightarrow> work ts' < work ts"
  by (induction rule: lock_step.induct) (auto simp: work_def intro!: sum_list_update_less)

text \<open>What cannot get stuck can always be run to its end.\<close>

lemma runs_to_end:
  assumes "\<And>us. lock_step\<^sup>*\<^sup>* ts us \<Longrightarrow> \<not> stuck us"
  shows "\<exists>us. lock_step\<^sup>*\<^sup>* ts us \<and> finished us"
  using assms
proof (induction "work ts" arbitrary: ts rule: less_induct)
  case less
  show ?case
  proof (cases "finished ts")
    case False
    with less.prems [of ts] obtain ts' where step: "lock_step ts ts'" by (auto simp: stuck_def)
    then have "\<exists>us. lock_step\<^sup>*\<^sup>* ts' us \<and> finished us"
      using less.prems by (intro less.hyps step_works) (auto intro: converse_rtranclp_into_rtranclp)
    with step show ?thesis by (meson converse_rtranclp_into_rtranclp)
  qed auto
qed

section \<open>The commands\<close>

definition cache_first :: "Mutex \<Rightarrow> nat" where
  "cache_first m = (case m of UnlockedCache \<Rightarrow> 0 | CurrentWallet \<Rightarrow> 1)"

definition current_first :: "Mutex \<Rightarrow> nat" where
  "current_first m = (case m of CurrentWallet \<Rightarrow> 0 | UnlockedCache \<Rightarrow> 1)"

lemma ranks_below: "\<forall>m. cache_first m < 2" "\<forall>m. current_first m < 2"
  by (simp_all add: cache_first_def current_first_def split: Mutex.split)

lemmas lock_programs = resolve_locks_def load_current_locks_def save_current_locks_def cache_locks_def
  set_current_locks_def select_locks_def deselect_locks_def keygen_locks_def

lemma ordered_cache_first: "c \<noteq> Deselect True \<Longrightarrow> ordered cache_first [] (command_locks c)"
  by (cases c rule: command_locks.cases) (auto simp: lock_programs cache_first_def)

lemma ordered_current_first:
  "c \<noteq> ReadWallet True \<Longrightarrow> c \<noteq> ChangeWallet True \<Longrightarrow> ordered current_first [] (command_locks c)"
  by (cases c rule: command_locks.cases) (auto simp: lock_programs current_first_def)

lemma start_ordered: "\<forall>c\<in>set cs. ordered rank [] (command_locks c) \<Longrightarrow> all_ordered rank (start cs)"
  by (auto simp: all_ordered_def start_def)

lemma no_deadlock:
  assumes "Deselect True \<notin> set cs \<or> ReadWallet True \<notin> set cs \<and> ChangeWallet True \<notin> set cs"
    and "lock_step\<^sup>*\<^sup>* (start cs) ts"
  shows "\<not> stuck ts"
  using assms(1)
proof
  assume "Deselect True \<notin> set cs"
  then have "all_ordered cache_first (start cs)" by (intro start_ordered) (metis ordered_cache_first)
  from ordered_not_stuck [OF run_ordered [OF assms(2) this] ranks_below(1)] show ?thesis .
next
  assume "ReadWallet True \<notin> set cs \<and> ChangeWallet True \<notin> set cs"
  then have "all_ordered current_first (start cs)" by (intro start_ordered) (metis ordered_current_first)
  from ordered_not_stuck [OF run_ordered [OF assms(2) this] ranks_below(2)] show ?thesis .
qed

section \<open>The deadlock\<close>

text \<open>\<open>load_current\<close> takes the cache and then the selection, \<open>deselect\<close> the selection and then the cache:
  each can be left holding what the other wants.\<close>

lemma taken_start: "\<not> taken (start cs) m"
  by (auto simp: taken_def start_def)

lemma taken_nth: "taken ts m \<longleftrightarrow> (\<exists>k<length ts. m \<in> set (th_held (ts ! k)))"
  unfolding taken_def by (metis in_set_conv_nth)

lemma taken_update:
  "i < length ts \<Longrightarrow> taken (ts[i := t]) m \<longleftrightarrow> m \<in> set (th_held t) \<or> (\<exists>k<length ts. k \<noteq> i \<and> m \<in> set (th_held (ts ! k)))"
  unfolding taken_nth by (auto simp: nth_list_update)

lemma all_waiting_stuck:
  assumes "ts \<noteq> []" and "\<And>m. taken ts m" and wait: "\<And>k. k < length ts \<Longrightarrow> \<exists>m r. th_todo (ts ! k) = Acquire m # r"
  shows "stuck ts"
proof -
  have "\<not> lock_step ts ts'" for ts'
  proof
    assume "lock_step ts ts'"
    then show False by cases (use assms(2) wait in fastforce)+
  qed
  moreover have "\<not> finished ts" using assms(1) wait [of 0] by (auto simp: finished_def intro!: bexI [of _ "ts ! 0"])
  ultimately show ?thesis by (simp add: stuck_def)
qed

lemma start_held [simp]: "k < length cs \<Longrightarrow> th_held (start cs ! k) = []" "length (start cs) = length cs"
  "k < length cs \<Longrightarrow> th_todo (start cs ! k) = command_locks (cs ! k)"
  by (simp_all add: start_def)

lemma commands_acquire: "\<exists>m rest. command_locks c = Acquire m # rest"
  by (cases c rule: command_locks.cases) (auto simp: lock_programs)

lemma loads_then_waits:
  assumes "j < length cs" and "cs ! j = ReadWallet True \<or> cs ! j = ChangeWallet True"
  shows "\<exists>rest. lock_step\<^sup>*\<^sup>* (start cs)
    ((start cs)[j := \<lparr> th_held = [UnlockedCache], th_todo = Acquire CurrentWallet # rest \<rparr>])"
proof -
  obtain rest where todo: "command_locks (cs ! j) = Acquire CurrentWallet # Release CurrentWallet # Acquire UnlockedCache #
      Acquire CurrentWallet # rest" using assms(2) by (auto simp: lock_programs)
  let ?t = "\<lambda>held r. (start cs)[j := \<lparr> th_held = held, th_todo = r \<rparr>]"
  have free: "\<not> taken (?t [] r) m" for r m using assms(1) by (simp add: taken_update)
  have "lock_step (start cs) (?t [CurrentWallet] (Release CurrentWallet # Acquire UnlockedCache # Acquire CurrentWallet # rest))"
    using acquires [of j "start cs" CurrentWallet] assms(1) todo taken_start by simp
  moreover have "lock_step (?t [CurrentWallet] (Release CurrentWallet # Acquire UnlockedCache # Acquire CurrentWallet # rest))
      (?t [] (Acquire UnlockedCache # Acquire CurrentWallet # rest))"
    using releases [of j "?t [CurrentWallet] (Release CurrentWallet # Acquire UnlockedCache # Acquire CurrentWallet # rest)"
        CurrentWallet] assms(1) by simp
  moreover have "lock_step (?t [] (Acquire UnlockedCache # Acquire CurrentWallet # rest))
      (?t [UnlockedCache] (Acquire CurrentWallet # rest))"
    using acquires [of j "?t [] (Acquire UnlockedCache # Acquire CurrentWallet # rest)" UnlockedCache] assms(1) free by simp
  ultimately show ?thesis by (meson r_into_rtranclp rtranclp_trans)
qed

lemma deadlock:
  assumes i: "i < length cs" "cs ! i = Deselect True" and j: "j < length cs" "cs ! j = ReadWallet True \<or> cs ! j = ChangeWallet True"
  shows "\<exists>ts. lock_step\<^sup>*\<^sup>* (start cs) ts \<and> stuck ts"
proof -
  have ij: "i \<noteq> j" using i(2) j(2) by auto
  obtain rest where run: "lock_step\<^sup>*\<^sup>* (start cs)
      ((start cs)[j := \<lparr> th_held = [UnlockedCache], th_todo = Acquire CurrentWallet # rest \<rparr>])" (is "lock_step\<^sup>*\<^sup>* _ ?s")
    using loads_then_waits [OF j] by blast
  let ?ti = "\<lparr> th_held = [CurrentWallet], th_todo = [Acquire UnlockedCache, Release UnlockedCache, Release CurrentWallet] \<rparr>"
  have "th_todo (?s ! i) = Acquire CurrentWallet # [Acquire UnlockedCache, Release UnlockedCache, Release CurrentWallet]"
    using i ij by (simp add: lock_programs)
  moreover have "\<not> taken ?s CurrentWallet" using j(1) by (simp add: taken_update)
  moreover have "th_held (?s ! i) = []" using i(1) ij by simp
  ultimately have step: "lock_step ?s (?s[i := ?ti])" using acquires [of i ?s CurrentWallet] i(1) by simp
  have "taken (?s[i := ?ti]) m" for m
    using i(1) j(1) ij by (cases m) (auto simp: taken_update intro!: exI [of _ j])
  moreover have "\<exists>m r. th_todo ((?s[i := ?ti]) ! k) = Acquire m # r" if "k < length cs" for k
    using that commands_acquire by (cases "k = i"; cases "k = j") (auto simp: i(1) j(1))
  moreover have "start cs \<noteq> []" using i(1) by (cases cs) (auto simp: start_def)
  ultimately have "stuck (?s[i := ?ti])" by (intro all_waiting_stuck) auto
  with run step show ?thesis by (meson rtranclp.rtrancl_into_rtrancl)
qed

end
