(* ===== verification/FrontProperties.thy ===== *)
theory FrontProperties
  imports WalletReadProperties WalletCli DesktopRaces DesktopLocks
begin

text \<open>The properties of the two front ends: a run of the command line or a session of the desktop application
  keeps the wallets, unless commands overlap; and when its commands can wait for each other for
  ever.\<close>

section \<open>The command line\<close>


definition sample_disk :: DiskLoad where
  "sample_disk = \<lparr> dl_version = None, dl_network = Regtest, dl_mnemonic = Some ''word'', dl_encrypted_mnemonic = None,
     dl_sequencer_url = ''seq'', dl_node_url = Some ''node'', dl_esplora_url = ''l1'', dl_next_mint_index = 1,
     dl_mints = [sample_mint], dl_verified_head = Some head0, dl_transactions = [] \<rparr>"

definition other_disk :: DiskLoad where
  "other_disk = sample_disk\<lparr>dl_mnemonic := Some ''other'', dl_mints := []\<rparr>"

definition two_files :: Files where
  "two_files = \<lparr> fs_files = [''d/alice.json'' \<mapsto> Json sample_disk, ''d/bob.json'' \<mapsto> Json other_disk],
     fs_fault = (\<lambda>_. False), fs_torn = Other [] \<rparr>"

lemma sample_disk_loads: "from_disk v sample_disk pp = Inr sample_wallet"
  by (simp add: from_disk_def with_disk_def sample_disk_def sample_wallet_def)

lemma alice_stored: "stored v two_files ''d/alice.json'' pp sample_wallet"
  by (simp add: stored_def two_files_def sample_disk_loads)

lemma bob_file: "wallet_path_for ''d'' ''bob'' = Inr ''d/bob.json''"
proof -
  have "validate_name ''bob'' = Inr ''bob''"
    by (simp add: validate_name_iff MAX_NAME_LEN_def name_char_def is_ascii_alphanumeric_def Let_def)
  then show ?thesis by (simp add: wallet_path_for_def path_join_def)
qed


section \<open>A session of the desktop application\<close>

text \<open>C16: a session whose commands run one at a time keeps every wallet of the directory. Through any selecting, deselecting,
  creating (not forced) and changing of wallets, with refused reads, writes and renames, the file of a
  wallet holds a sound wallet that grew out of the first one and opens with the same passphrase, and a
  context cached for it is the one of its file.\<close>

theorem desktop_keeps_wallet:
  assumes "vault_ok v" and "stored v (ap_files s) (wallet_at (ap_wallets_dir s) n) pp w" and "wallet_ok x v w"
    and "ap_unlocked s n = None" and "(desk_step x v b pp (ap_wallets_dir s) n)\<^sup>*\<^sup>* s s'"
  shows "\<exists>w'. stored v (ap_files s') (wallet_at (ap_wallets_dir s) n) pp w' \<and> wallet_ok x v w' \<and> evolves w w' \<and>
    ap_unlocked s' n \<in> {None, wf_encryption_ctx w'}"
proof -
  have "wallet_kept x v pp (ap_wallets_dir s) n w s"
    using kept_stored [OF assms(2,3)] assms(4) by (simp add: wallet_kept_def)
  from desk_run_kept [OF assms(5) this assms(1)] show ?thesis
    by (cases "ap_unlocked s' n") (auto simp: wallet_kept_def kept_def evolves_def)
qed

definition desk_state :: "string \<Rightarrow> AppState" where
  "desk_state name = \<lparr> ap_wallets_dir = ''d'', ap_current_wallet = Some name, ap_unlocked = Map.empty, ap_files = two_files \<rparr>"

lemma wallet_at_d: "wallet_at ''d'' n = ''d/'' @ n @ ''.json''"
  by (simp add: wallet_at_def path_join_def)

theorem desktop_keeps_wallet_witness:
  "\<exists>w'. stored toy_vault (ap_files (snd (select_wallet toy_vault ''bob'' None
         (snd (desk_mint_utxo toy_ext toy_vault (replicate 24 3) 144 (desk_state ''alice''))))))
      (wallet_at (ap_wallets_dir (desk_state ''alice'')) ''alice'') None w' \<and> evolves sample_wallet w'"
proof -
  have at_rest: "stored toy_vault (ap_files (desk_state ''alice'')) (wallet_at (ap_wallets_dir (desk_state ''alice'')) ''alice'') None sample_wallet"
    using alice_stored by (simp add: desk_state_def wallet_at_d)
  let ?step = "desk_step toy_ext toy_vault toy_btc None (ap_wallets_dir (desk_state ''alice'')) ''alice''"
  have "?step (desk_state ''alice'') (snd (desk_mint_utxo toy_ext toy_vault (replicate 24 3) 144 (desk_state ''alice'')))"
    by (rule desk_mint_utxo) (simp add: NONCE_LEN_def)
  moreover have "?step s (snd (select_wallet toy_vault ''bob'' None s))" for s
    by (rule desk_select) (simp add: chosen_right_def)
  ultimately have "?step\<^sup>*\<^sup>* (desk_state ''alice'') (snd (select_wallet toy_vault ''bob'' None
      (snd (desk_mint_utxo toy_ext toy_vault (replicate 24 3) 144 (desk_state ''alice'')))))"
    by (meson r_into_rtranclp rtranclp.rtrancl_into_rtrancl)
  from desktop_keeps_wallet [OF vault_ok_toy at_rest sample_wallet_ok _ this] show ?thesis
    by (auto simp: desk_state_def)
qed

section \<open>Commands that overlap\<close>

text \<open>C17: a command still waiting for the network when the user switches wallets destroys the wallet switched to.
  \<open>save_current\<close> looks up the selection when it saves: a \<open>light_balance\<close> begun on wallet \<open>a\<close> and finished after \<open>b\<close> has been selected
  writes \<open>a\<close>, keys and all, to the file of \<open>b\<close>, and changes no other file but the temporary one, so what \<open>b\<close> held is
  gone.\<close>

theorem late_save_overwrites_other_wallet:
  assumes "vault_ok v" and "length nonce = NONCE_LEN"
    and "stored v (ap_files s) (wallet_at (ap_wallets_dir s) a) pp w" and "wallet_ok x v w"
    and "light_balance x v net t t' addr w = Some (Inr out, w')"
    and "select_wallet v b typed (deselect_wallet s) = (Inr (), s')"
    and "desk_finish v nonce (out, w') s' = (Inr out', s'')"
  shows "stored v (ap_files s'') (wallet_at (ap_wallets_dir s) b) pp w' \<and> wf_mnemonic w' = wf_mnemonic w \<and>
    (\<exists>tmp d. fs_files (ap_files s'') = (fs_files (ap_files s))(tmp := None, wallet_at (ap_wallets_dir s) b := Some (Json d)))"
proof -
  have ev: "evolves w w'" using good_light_balance [OF assms(5)] assms(4) by (simp add: good_def)
  have opened: "opened_by v pp w'" using opened_evolves [OF stored_opened [OF assms(3)] ev] .
  have b: "ap_current_wallet s' = Some b" "ap_wallets_dir s' = ap_wallets_dir s" "ap_files s' = ap_files s"
    using selected_state [OF assms(6)] by (simp_all add: deselect_wallet_def)
  obtain c d fs' where c: "ap_current_wallet s' = Some c" "s'' = s'\<lparr>ap_files := fs'\<rparr>" "to_disk v nonce w' = Inr d"
    "fs_files fs' = (fs_files (ap_files s'))(with_extension (wallet_at (ap_wallets_dir s') c) ''json.tmp'' := None,
      wallet_at (ap_wallets_dir s') c := Some (Json d))"
    by (rule finish_ok [OF assms(7)])
  have "from_disk v d pp = Inr w'" using from_to_disk [OF c(3) assms(1,2)] opened by (auto simp: opened_by_def)
  then have "stored v (ap_files s'') (wallet_at (ap_wallets_dir s) b) pp w'" using c b by (simp add: stored_def)
  moreover have "wf_mnemonic w' = wf_mnemonic w" using ev by (simp add: evolves_def)
  ultimately show ?thesis using c b by auto
qed

theorem late_save_overwrites_other_wallet_witness:
  "\<exists>w' out s''. light_balance toy_ext toy_vault sample_net sample_supply sample_supply None sample_wallet = Some (Inr out, w') \<and>
     desk_finish toy_vault (replicate 24 3) (out, w') (desk_state ''bob'') = (Inr out, s'') \<and>
     stored toy_vault (ap_files s'') ''d/bob.json'' None w' \<and> wf_mnemonic w' = ''word'' \<and>
     stored toy_vault (ap_files (desk_state ''bob'')) ''d/bob.json'' None (sample_wallet\<lparr>wf_mnemonic := ''other'', wf_mints := []\<rparr>)"
proof -
  obtain out w' where lb: "light_balance toy_ext toy_vault sample_net sample_supply sample_supply None sample_wallet = Some (Inr out, w')"
    using sample_light_balance by blast
  have sel: "select_wallet toy_vault ''bob'' None (deselect_wallet (desk_state ''alice'')) = (Inr (), desk_state ''bob'')"
    using bob_file by (simp add: select_wallet_def op_bind_def op_result_def deselect_wallet_def desk_state_def
        is_encrypted_at_def read_disk_def two_files_def other_disk_def sample_disk_def select_name_def wallet_file_def)
  have "wf_encryption_ctx w' = None"
    using good_light_balance [OF lb] sample_wallet_ok by (simp add: good_def evolves_def sample_wallet_def)
  then obtain s'' where fin: "desk_finish toy_vault (replicate 24 3) (out, w') (desk_state ''bob'') = (Inr out, s'')"
    using bob_file by (simp add: desk_finish_def save_current_def resolve_current_path_def wallet_file_def desk_state_def
        op_bind_def op_result_def on_files_def WalletFile_save_def to_disk_def Let_def fs_write_def fs_rename_def two_files_def)
  have at_rest: "stored toy_vault (ap_files (desk_state ''alice'')) (wallet_at (ap_wallets_dir (desk_state ''alice'')) ''alice'') None sample_wallet"
    using alice_stored by (simp add: desk_state_def wallet_at_d)
  have "stored toy_vault (ap_files (desk_state ''bob'')) ''d/bob.json'' None (sample_wallet\<lparr>wf_mnemonic := ''other'', wf_mints := []\<rparr>)"
    by (simp add: stored_def desk_state_def two_files_def other_disk_def sample_disk_def from_disk_def with_disk_def sample_wallet_def)
  with late_save_overwrites_other_wallet [OF vault_ok_toy _ at_rest sample_wallet_ok lb sel fin] lb fin show ?thesis
    by (auto simp: NONCE_LEN_def desk_state_def wallet_at_d sample_wallet_def)
qed

text \<open>C19: a poll that overlaps \<open>mint_utxo\<close> takes the new deposit address back. \<open>check_mint_funding\<close> works on the wallet it
  loaded; if an address is handed out before it saves, the saved wallet has neither the record nor the
  advanced counter, and the next \<open>mint_utxo\<close> with that lock hands out the same index and address again.\<close>

theorem overlapping_poll_reuses_address:
  assumes "vault_ok v" and "length nonce = NONCE_LEN" and "length nonce' = NONCE_LEN" and "wallet_ok x v w"
    and "load_current v s = Inr w"
    and "desk_begin v (check_mint_funding x b net t i) s = Inr (out, w')"
    and "desk_mint_utxo x v nonce lock s = (Inr first, s1)"
    and "desk_finish v nonce' (out, w') s1 = (Inr out', s2)"
    and "desk_mint_utxo x v nonce'' lock s2 = (Inr second, s3)"
  shows "second = first \<and> load_current v s2 = Inr w' \<and> find_mint_by_index (mu_bip32_index first) w' = None"
proof -
  have poll: "check_mint_funding x b net t i w = (Inr out, w')"
    using assms(5,6) by (auto elim: desk_begin_Inr)
  note same = check_mint_funding_same [OF poll]
  obtain w1 where mint: "mint_utxo x v lock w = (Inr first, w1)" "desk_finish v nonce (first, w1) s = (Inr first, s1)"
    using desk_change_ok [OF assms(7) [unfolded desk_mint_utxo_def]] assms(5) by auto
  have "load_current v s1 = Inr w1"
    using load_after_finish [OF assms(5) mint(2)] mint_utxo_out [OF mint(1)] assms(1,2) by blast
  then have s2: "load_current v s2 = Inr w'"
    using load_after_finish [OF _ assms(8)] mint_utxo_out [OF mint(1)] same assms(1,3) by metis
  obtain w2 where again: "mint_utxo x v lock w' = (Inr second, w2)"
    using desk_change_ok [OF assms(9) [unfolded desk_mint_utxo_def]] s2 by auto
  have "second = first" using mint_utxo_again [OF mint(1) again] same by simp
  moreover have "find_mint_by_index (mu_bip32_index first) w' = None"
    using mint_utxo_out [OF mint(1)] unused_index [OF assms(4)] same by (simp add: find_mint_none)
  ultimately show ?thesis using s2 by simp
qed

lemma alice_file: "wallet_path_for ''d'' ''alice'' = Inr ''d/alice.json''"
proof -
  have "validate_name ''alice'' = Inr ''alice''"
    by (simp add: validate_name_iff MAX_NAME_LEN_def name_char_def is_ascii_alphanumeric_def Let_def)
  then show ?thesis by (simp add: wallet_path_for_def path_join_def)
qed

theorem overlapping_poll_reuses_address_witness:
  "\<exists>out w' first s1 s2 s3.
     desk_begin toy_vault (check_mint_funding toy_ext toy_btc sample_net sample_supply 0) (desk_state ''alice'') = Inr (out, w') \<and>
     desk_mint_utxo toy_ext toy_vault (replicate 24 3) 144 (desk_state ''alice'') = (Inr first, s1) \<and>
     desk_finish toy_vault (replicate 24 3) (out, w') s1 = (Inr out, s2) \<and>
     desk_mint_utxo toy_ext toy_vault (replicate 24 3) 144 s2 = (Inr first, s3) \<and>
     mu_bip32_index first = 1 \<and> find_mint_by_index 1 w' = None"
proof -
  let ?s = "desk_state ''alice''"
  have loaded: "load_current toy_vault ?s = Inr sample_wallet"
    using alice_file sample_disk_loads
    by (simp add: load_current_def resolve_current_path_def wallet_file_def desk_state_def is_encrypted_at_def read_disk_def
        two_files_def WalletFile_load_def sample_disk_def)
  have poll: "\<exists>out. check_mint_funding toy_ext toy_btc sample_net sample_supply 0 sample_wallet = (Inr out, sample_wallet)"
    using sample_find by (simp add: check_mint_funding_def op_bind_def op_result_def Let_def sample_mint_def)
  then obtain out where beg: "desk_begin toy_vault (check_mint_funding toy_ext toy_btc sample_net sample_supply 0) ?s = Inr (out, sample_wallet)"
    using loaded by (auto simp: desk_begin_def)
  have mint: "\<exists>first u. mint_utxo toy_ext toy_vault 144 sample_wallet = (Inr first, u) \<and> wf_encryption_ctx u = None"
    using deposit_address by (simp add: mint_utxo_def allocate_mint_keypair_def op_bind_def op_result_def op_write_def
        validated [OF lock_144] sample_wallet_def MAX_LOCK_BLOCKS_def checked_add_def append_mint_def)
  then obtain first u where first: "mint_utxo toy_ext toy_vault 144 sample_wallet = (Inr first, u)" "wf_encryption_ctx u = None"
    by blast
  have cur: "ap_current_wallet ?s = Some ''alice''" "fs_fault (ap_files ?s) = (\<lambda>_. False)"
    by (simp_all add: desk_state_def two_files_def)
  have file_of: "wallet_file (?s\<lparr>ap_files := fs\<rparr>) ''alice'' = Inr ''d/alice.json''"
    "wallet_file ?s ''alice'' = Inr ''d/alice.json''" for fs
    using alice_file by (simp_all add: wallet_file_def desk_state_def)
  have len: "length (replicate 24 (3::u8)) = NONCE_LEN" by (simp add: NONCE_LEN_def)
  obtain fs1 where s1: "desk_mint_utxo toy_ext toy_vault (replicate 24 3) 144 ?s = (Inr first, ?s\<lparr>ap_files := fs1\<rparr>)"
    "fs_fault fs1 = (\<lambda>_. False)"
    using desk_change_plain [where m = "mint_utxo toy_ext toy_vault 144", OF cur(1) file_of(2) cur(2) loaded first] unfolding desk_mint_utxo_def by blast
  let ?s1 = "?s\<lparr>ap_files := fs1\<rparr>"
  have plain: "wf_encryption_ctx sample_wallet = None" by (simp add: sample_wallet_def)
  obtain fs2 where s2: "desk_finish toy_vault (replicate 24 3) (out, sample_wallet) ?s1 = (Inr out, ?s\<lparr>ap_files := fs2\<rparr>)"
    "fs_fault fs2 = (\<lambda>_. False)"
    using finish_plain [of ?s1 "''alice''" _ sample_wallet toy_vault "replicate 24 3" out] cur file_of s1(2) plain by auto
  let ?s2 = "?s\<lparr>ap_files := fs2\<rparr>"
  have "desk_finish toy_vault (replicate 24 3) (first, u) ?s = (Inr first, ?s1)"
    using desk_change_ok [OF s1(1) [unfolded desk_mint_utxo_def]] loaded first by auto
  then have "load_current toy_vault ?s1 = Inr u"
    using load_after_finish [OF loaded _ _ vault_ok_toy len] first(2) plain by simp
  then have loaded2: "load_current toy_vault ?s2 = Inr sample_wallet"
    using load_after_finish [OF _ s2(1) _ vault_ok_toy len] first(2) plain by simp
  obtain fs3 where s3: "desk_mint_utxo toy_ext toy_vault (replicate 24 3) 144 ?s2 = (Inr first, ?s2\<lparr>ap_files := fs3\<rparr>)"
    using desk_change_plain [where m = "mint_utxo toy_ext toy_vault 144", OF _ file_of(1) _ loaded2 first] s2(2) cur(1)
    unfolding desk_mint_utxo_def by auto
  have "mu_bip32_index first = 1" using mint_utxo_out [OF first(1)] by (simp add: sample_wallet_def)
  with overlapping_poll_reuses_address [OF vault_ok_toy len len sample_wallet_ok loaded beg s1(1) s2(1) s3] beg s1(1) s2(1) s3
  show ?thesis by auto
qed

section \<open>Waiting for each other\<close>

text \<open>C18: the commands in flight can all be run to their end from whatever point they have reached, in whatever order they took
  their locks, exactly unless a \<open>deselect\<close> of a selected wallet is among them together with a command on
  an encrypted one: those two can each hold the mutex the other waits for.\<close>

theorem commands_finish_iff:
  "(\<forall>ts. lock_step\<^sup>*\<^sup>* (start cs) ts \<longrightarrow> (\<exists>us. lock_step\<^sup>*\<^sup>* ts us \<and> finished us)) \<longleftrightarrow>
   \<not> (Deselect True \<in> set cs \<and> (ReadWallet True \<in> set cs \<or> ChangeWallet True \<in> set cs))"
proof
  assume ends: "\<forall>ts. lock_step\<^sup>*\<^sup>* (start cs) ts \<longrightarrow> (\<exists>us. lock_step\<^sup>*\<^sup>* ts us \<and> finished us)"
  show "\<not> (Deselect True \<in> set cs \<and> (ReadWallet True \<in> set cs \<or> ChangeWallet True \<in> set cs))"
  proof
    assume "Deselect True \<in> set cs \<and> (ReadWallet True \<in> set cs \<or> ChangeWallet True \<in> set cs)"
    then obtain ts where ts: "lock_step\<^sup>*\<^sup>* (start cs) ts" "stuck ts"
      by (metis deadlock in_set_conv_nth)
    with ends obtain us where "lock_step\<^sup>*\<^sup>* ts us" "finished us" by blast
    then show False using ts(2) by (metis converse_rtranclpE stuck_def)
  qed
next
  assume free: "\<not> (Deselect True \<in> set cs \<and> (ReadWallet True \<in> set cs \<or> ChangeWallet True \<in> set cs))"
  show "\<forall>ts. lock_step\<^sup>*\<^sup>* (start cs) ts \<longrightarrow> (\<exists>us. lock_step\<^sup>*\<^sup>* ts us \<and> finished us)"
  proof (intro allI impI)
    fix ts assume ts: "lock_step\<^sup>*\<^sup>* (start cs) ts"
    show "\<exists>us. lock_step\<^sup>*\<^sup>* ts us \<and> finished us"
      using free by (intro runs_to_end no_deadlock [of cs]) (auto intro: rtranclp_trans [OF ts])
  qed
qed

theorem commands_finish_iff_witness:
  "\<exists>us. lock_step\<^sup>*\<^sup>* (start [ChangeWallet True, Select True, Keygen True]) us \<and> finished us"
  using commands_finish_iff [of "[ChangeWallet True, Select True, Keygen True]"] by simp

end
