(* ===== verification/Regtest.thy ===== *)
theory Regtest
  imports Configs Wallets
begin

text \<open>
  The regtest orchestrator (\<open>hodl-regtest/src/\<close>): \<open>paths.rs\<close> (the layout of its directory), \<open>procs.rs\<close> (pid
  files and signals), \<open>btc.rs\<close> and \<open>daemons.rs\<close> (finding and starting the three programs) and the commands of
  \<open>main.rs\<close>. A command changes a \<open>Machine\<close>: the files, the directories and the live processes. What other
  programs do is the record \<open>Host\<close>: the environment, what \<open>bitcoind\<close> answers, and what the machine is after a
  program was started or signalled and the bounded wait for it is over. An answer of \<open>bitcoind\<close> depends on the
  calls made before. A write that fails leaves the file as it was. Printing is left out.
\<close>

type_synonym u16 = "16 word"

datatype RegtestError =
    NoHome
  | NotAFile string string
  | NotFound string
  | CreateDir string
  | Running string
  | NotRunning string
  | PortInUse u16
  | WriteFile string
  | ReadFile string
  | BitcoindExit
  | NotReady string
  | PidMissing
  | MalformedCookie
  | RpcPost string
  | RpcStatus string
  | RpcDecode string
  | RpcRefused string int string
  | RpcNoResult
  | RpcShape string
  | ParseGenesis
  | SpawnFailed string
  | SurvivedKill u32
  | AmountNotPositive
  | RemoveFailed

text \<open>An amount of BTC on the command line is an \<open>f64\<close>.\<close>

datatype BtcAmount = Finite rat | PlusInf | MinusInf | NotANumber

datatype RpcValue = RStr string | RNum nat | RFloat rat | RList "RpcValue list" | RNull | ROther

text \<open>What an HTTP call brings: no answer, or a success flag and the text as the \<open>RpcReply\<close> that serde finds in it.\<close>

datatype RpcResponse = Unreachable | Response bool "(RpcValue option \<times> (int \<times> string) option) option"

datatype Signal = SIGTERM | SIGKILL

record Machine =
  mc_files :: Disk
  mc_dirs :: "string fset"
  mc_alive :: "int fset"
  mc_refused :: "string \<Rightarrow> bool"
  mc_asked :: "(string \<times> string \<times> RpcValue list) list"

record Host =
  env_var :: "string \<Rightarrow> string option"
  split_paths :: "string \<Rightarrow> string list"
  is_file :: "string \<Rightarrow> bool"
  exe_dir :: "string option"
  port_bound :: "u16 \<Rightarrow> bool"
  run_bitcoind :: "string \<Rightarrow> string \<Rightarrow> Machine \<Rightarrow> bool \<times> Machine"
  rpc_ready :: "Machine \<Rightarrow> bool"
  rpc_answer :: "(string \<times> string \<times> RpcValue list) list \<Rightarrow> string \<Rightarrow> string \<times> string \<Rightarrow> string \<Rightarrow> RpcValue list
    \<Rightarrow> RpcResponse"
  spawn_child :: "string \<Rightarrow> u32 option"
  await_head :: "u16 \<Rightarrow> Machine \<Rightarrow> bool \<times> Machine"
  stop_bitcoind :: "string \<Rightarrow> Machine \<Rightarrow> Machine"
  after_signal :: "Signal \<Rightarrow> int \<Rightarrow> Machine \<Rightarrow> Machine"
  rm_reached :: "string \<Rightarrow> bool"

type_synonym 'a reg = "(Machine, RegtestError, 'a) act"

section \<open>The layout\<close>

definition BTC_RPC_PORT :: u16 where "BTC_RPC_PORT = 28443"
definition BTC_P2P_PORT :: u16 where "BTC_P2P_PORT = 28444"
definition SEQUENCER_PORT :: u16 where "SEQUENCER_PORT = 28080"
definition NODE_PORT :: u16 where "NODE_PORT = 28081"

record Layout =
  lo_root :: string

text \<open>The Linux branch of \<open>default_root\<close>.\<close>

definition default_root :: "Host \<Rightarrow> (RegtestError, string) result" where
  "default_root h =
     (let home = rbind (ok_or (env_var h ''HOME'') NoHome) (\<lambda>home. Inr (path_join (path_join
            (path_join (path_join home ''.local'') ''share'') ''hodlchain'') ''regtest''))
      in case env_var h ''XDG_DATA_HOME'' of
           Some xdg \<Rightarrow> if xdg \<noteq> [] then Inr (path_join (path_join xdg ''hodlchain'') ''regtest'') else home
         | None \<Rightarrow> home)"

definition Layout_resolve :: "Host \<Rightarrow> (RegtestError, Layout) result" where
  "Layout_resolve h = (case env_var h ''HODL_REGTEST_DATA'' of
     Some p \<Rightarrow> Inr \<lparr> lo_root = p \<rparr>
   | None \<Rightarrow> rbind (default_root h) (\<lambda>r. Inr \<lparr> lo_root = r \<rparr>))"

definition bitcoin_dir :: "Layout \<Rightarrow> string" where "bitcoin_dir l = path_join (lo_root l) ''bitcoin''"
definition seq_dir :: "Layout \<Rightarrow> string" where "seq_dir l = path_join (lo_root l) ''seq''"
definition node_dir :: "Layout \<Rightarrow> string" where "node_dir l = path_join (lo_root l) ''node''"
definition bitcoin_conf :: "Layout \<Rightarrow> string" where "bitcoin_conf l = path_join (bitcoin_dir l) ''bitcoin.conf''"
definition bitcoin_cookie :: "Layout \<Rightarrow> string" where
  "bitcoin_cookie l = path_join (path_join (bitcoin_dir l) ''regtest'') ''.cookie''"
definition bitcoin_pid :: "Layout \<Rightarrow> string" where
  "bitcoin_pid l = path_join (path_join (bitcoin_dir l) ''regtest'') ''bitcoind.pid''"
definition seq_config :: "Layout \<Rightarrow> string" where "seq_config l = path_join (seq_dir l) ''config.json''"
definition seq_log :: "Layout \<Rightarrow> string" where "seq_log l = path_join (seq_dir l) ''log''"
definition seq_pid :: "Layout \<Rightarrow> string" where "seq_pid l = path_join (seq_dir l) ''pid''"
definition seq_db_path :: "Layout \<Rightarrow> string" where "seq_db_path l = path_join (seq_dir l) ''hodl-sequencer.db''"
definition node_config :: "Layout \<Rightarrow> string" where "node_config l = path_join (node_dir l) ''config.json''"
definition node_log :: "Layout \<Rightarrow> string" where "node_log l = path_join (node_dir l) ''log''"
definition node_pid :: "Layout \<Rightarrow> string" where "node_pid l = path_join (node_dir l) ''pid''"
definition node_db_path :: "Layout \<Rightarrow> string" where "node_db_path l = path_join (node_dir l) ''hodl-node.db''"
definition l1_genesis_file :: "Layout \<Rightarrow> string" where "l1_genesis_file l = path_join (lo_root l) ''l1_genesis''"
definition mining_address_file :: "Layout \<Rightarrow> string" where
  "mining_address_file l = path_join (lo_root l) ''mining_address''"

definition Layout_exists :: "Layout \<Rightarrow> Machine \<Rightarrow> bool" where
  "Layout_exists l m \<longleftrightarrow> lo_root l |\<in>| mc_dirs m"

text \<open>\<open>create_dir_all\<close> of a directory directly below the root.\<close>

definition create_dir_all :: "Layout \<Rightarrow> string \<Rightarrow> unit reg" where
  "create_dir_all l d = op_write (\<lambda>m. if mc_refused m d then Inl (CreateDir d)
     else Inr (m\<lparr>mc_dirs := finsert (lo_root l) (finsert d (mc_dirs m))\<rparr>))"

definition ensure_exists :: "Layout \<Rightarrow> unit reg" where
  "ensure_exists l = op_iter (create_dir_all l) [bitcoin_dir l, seq_dir l, node_dir l]"

section \<open>Files and processes\<close>

definition write_file :: "string \<Rightarrow> FileText \<Rightarrow> unit reg" where
  "write_file f t = op_write (\<lambda>m. if mc_refused m f then Inl (WriteFile f)
     else Inr (m\<lparr>mc_files := (mc_files m)(f \<mapsto> t)\<rparr>))"

definition read_text :: "string \<Rightarrow> Machine \<Rightarrow> (RegtestError, string) result" where
  "read_text f m = (case mc_files m f of Some (Text s) \<Rightarrow> Inr s | _ \<Rightarrow> Inl (ReadFile f))"

definition remove_file :: "string \<Rightarrow> Machine \<Rightarrow> Machine" where
  "remove_file f m = (if mc_refused m f then m else m\<lparr>mc_files := (mc_files m)(f := None)\<rparr>)"

definition write_pid :: "string \<Rightarrow> u32 \<Rightarrow> unit reg" where
  "write_pid f pid = write_file f (Text (u32_to_string pid @ ''\<newline>''))"

definition read_pid :: "string \<Rightarrow> Machine \<Rightarrow> (RegtestError, u32 option) result" where
  "read_pid f m = (if mc_files m f = None then Inr None
     else rbind (read_text f m) (\<lambda>s. Inr (parse_u32 (str_trim s))))"

text \<open>\<open>kill\<close> takes the pid as a signed 32-bit number.\<close>

definition kill_target :: "u32 \<Rightarrow> int" where
  "kill_target pid = sint pid"

definition pid_alive :: "u32 \<Rightarrow> Machine \<Rightarrow> bool" where
  "pid_alive pid m \<longleftrightarrow> kill_target pid |\<in>| mc_alive m"

definition graceful_kill :: "Host \<Rightarrow> u32 \<Rightarrow> unit reg" where
  "graceful_kill h pid =
     op_bind (op_gets (pid_alive pid)) (\<lambda>alive.
     if \<not> alive then op_return ()
     else
       op_bind (op_modify (after_signal h SIGTERM (kill_target pid))) (\<lambda>_.
       op_bind (op_gets (pid_alive pid)) (\<lambda>alive.
       if \<not> alive then op_return ()
       else
         op_bind (op_modify (after_signal h SIGKILL (kill_target pid))) (\<lambda>_.
         op_result (\<lambda>m. if pid_alive pid m then Inl (SurvivedKill pid) else Inr ())))))"

definition pid_running :: "string \<Rightarrow> u32 option reg" where
  "pid_running f =
     op_bind (op_result (read_pid f)) (\<lambda>p. case p of
       None \<Rightarrow> op_return None
     | Some pid \<Rightarrow>
         op_bind (op_gets (pid_alive pid)) (\<lambda>alive.
         if alive then op_return (Some pid)
         else op_bind (op_modify (remove_file f)) (\<lambda>_. op_return None)))"

definition check_port_free :: "Host \<Rightarrow> u16 \<Rightarrow> unit reg" where
  "check_port_free h p = op_result (\<lambda>_. if port_bound h p then Inl (PortInUse p) else Inr ())"

definition require_running :: "string \<Rightarrow> string \<Rightarrow> unit reg" where
  "require_running name f =
     op_bind (pid_running f) (\<lambda>p. op_result (\<lambda>_. if p = None then Inl (NotRunning name) else Inr ()))"

section \<open>Finding programs\<close>

definition which :: "Host \<Rightarrow> string \<Rightarrow> string option" where
  "which h name = Option.bind (env_var h ''PATH'') (\<lambda>p. find (is_file h) (map (\<lambda>d. path_join d name) (split_paths h p)))"

definition find_one :: "Host \<Rightarrow> string \<Rightarrow> string \<Rightarrow> string option \<Rightarrow> (RegtestError, string) result" where
  "find_one h name env prefix =
     (case env_var h env of
        Some p \<Rightarrow> if is_file h p then Inr p else Inl (NotAFile env p)
      | None \<Rightarrow>
          (case which h name of
             Some p \<Rightarrow> Inr p
           | None \<Rightarrow>
               (case prefix of
                  Some d \<Rightarrow> if is_file h (path_join d name) then Inr (path_join d name) else Inl (NotFound name)
                | None \<Rightarrow> Inl (NotFound name))))"

definition discover :: "Host \<Rightarrow> (RegtestError, string \<times> string) result" where
  "discover h =
     (let prefix = env_var h ''BITCOIND_PREFIX''
      in rbind (find_one h ''bitcoind'' ''BITCOIND_BIN'' prefix) (\<lambda>bitcoind.
         rbind (find_one h ''bitcoin-cli'' ''BITCOIN_CLI_BIN'' prefix) (\<lambda>cli. Inr (bitcoind, cli))))"

definition find_binary :: "Host \<Rightarrow> string \<Rightarrow> (RegtestError, string) result" where
  "find_binary h name =
     (case exe_dir h of
        Some d \<Rightarrow>
          if is_file h (path_join d name) then Inr (path_join d name)
          else ok_or (which h name) (NotFound name)
      | None \<Rightarrow> ok_or (which h name) (NotFound name))"

section \<open>Talking to bitcoind\<close>

record Rpc =
  rpc_url :: string
  rpc_user :: string
  rpc_pass :: string

definition local_url :: "u16 \<Rightarrow> string" where
  "local_url p = ''http://127.0.0.1:'' @ u32_to_string (ucast p)"

definition from_cookie :: "string \<Rightarrow> string option \<Rightarrow> Machine \<Rightarrow> (RegtestError, Rpc) result" where
  "from_cookie cookie_path wallet m =
     rbind (read_text cookie_path m) (\<lambda>cookie.
     rbind (ok_or (split_once CHR '':'' (str_trim cookie)) MalformedCookie) (\<lambda>(user, pass).
     Inr \<lparr> rpc_url = (case wallet of Some w \<Rightarrow> local_url BTC_RPC_PORT @ ''/wallet/'' @ w | None \<Rightarrow> local_url BTC_RPC_PORT),
           rpc_user = user, rpc_pass = pass \<rparr>))"

definition rpc_call :: "Host \<Rightarrow> Rpc \<Rightarrow> string \<Rightarrow> RpcValue list \<Rightarrow> RpcValue reg" where
  "rpc_call h r meth params m =
     ((case rpc_answer h (mc_asked m) (rpc_url r) (rpc_user r, rpc_pass r) meth params of
         Unreachable \<Rightarrow> Inl (RpcPost meth)
       | Response success reply \<Rightarrow>
           if \<not> success then Inl (RpcStatus meth)
           else rbind (ok_or reply (RpcDecode meth)) (\<lambda>(result, err). case err of
             Some (code, msg) \<Rightarrow> Inl (RpcRefused meth code msg)
           | None \<Rightarrow> ok_or result RpcNoResult)),
      m\<lparr>mc_asked := mc_asked m @ [(rpc_url r, meth, params)]\<rparr>)"

definition as_string :: "RpcValue \<Rightarrow> (RegtestError, string) result" where
  "as_string v = (case v of RStr s \<Rightarrow> Inr s | _ \<Rightarrow> Inl (RpcShape ''string''))"

definition as_u64 :: "RpcValue \<Rightarrow> (RegtestError, nat) result" where
  "as_u64 v = (case v of RNum n \<Rightarrow> if n < 2 ^ 64 then Inr n else Inl (RpcShape ''u64'') | _ \<Rightarrow> Inl (RpcShape ''u64''))"

definition rpc_as :: "(RpcValue \<Rightarrow> (RegtestError, 'a) result) \<Rightarrow> RpcValue reg \<Rightarrow> 'a reg" where
  "rpc_as shape c = op_bind c (\<lambda>v. op_result (\<lambda>_. shape v))"

definition write_bitcoin_conf :: "Layout \<Rightarrow> unit reg" where
  "write_bitcoin_conf l = write_file (bitcoin_conf l) (Text (concat (map (\<lambda>s. s @ ''\<newline>'')
     [''fallbackfee=0.00001'', ''txindex=1'', ''[regtest]'', ''rpcport='' @ u32_to_string (ucast BTC_RPC_PORT),
      ''port='' @ u32_to_string (ucast BTC_P2P_PORT)])))"

definition start_bitcoind :: "Host \<Rightarrow> Layout \<Rightarrow> string \<Rightarrow> unit reg" where
  "start_bitcoind h l bin m = (case run_bitcoind h bin (bitcoin_dir l) m of
     (ok, m') \<Rightarrow> (if ok then Inr () else Inl BitcoindExit, m'))"

definition wait_for_rpc :: "Host \<Rightarrow> Layout \<Rightarrow> u32 reg" where
  "wait_for_rpc h l = op_result (\<lambda>m.
     if mc_files m (bitcoin_cookie l) = None \<or> \<not> rpc_ready h m then Inl (NotReady ''bitcoind'')
     else (case read_text (bitcoin_pid l) m of
             Inr s \<Rightarrow> ok_or (parse_u32 (str_trim s)) PidMissing
           | Inl _ \<Rightarrow> Inl PidMissing))"

section \<open>The daemons\<close>

definition write_seq_config :: "Layout \<Rightarrow> u32 \<Rightarrow> unit reg" where
  "write_seq_config l g = write_file (seq_config l) (SeqConfigJson
     \<lparr> sc_network = Regtest,
       sc_bitcoind = \<lparr> bc_url = local_url BTC_RPC_PORT @ ''/wallet/sequencer'', bc_auth = Cookie (bitcoin_cookie l) \<rparr>,
       sc_l1_genesis_height = g, sc_listen = ''127.0.0.1:'' @ u32_to_string (ucast SEQUENCER_PORT),
       sc_db_path = seq_db_path l, sc_poll_ms = Some 500, sc_block_interval_ms = Some 2000 \<rparr>)"

definition write_node_config :: "Layout \<Rightarrow> u32 \<Rightarrow> unit reg" where
  "write_node_config l g = write_file (node_config l) (NodeConfigJson
     \<lparr> nc_network = Regtest,
       nc_bitcoind = \<lparr> bc_url = local_url BTC_RPC_PORT, bc_auth = Cookie (bitcoin_cookie l) \<rparr>,
       nc_sequencer_url = local_url SEQUENCER_PORT, nc_l1_genesis_height = g,
       nc_listen = ''127.0.0.1:'' @ u32_to_string (ucast NODE_PORT), nc_db_path = node_db_path l, nc_poll_ms = Some 500 \<rparr>)"

text \<open>Opening the log creates it; the child runs on whatever the parent does next.\<close>

definition spawn :: "Host \<Rightarrow> string \<Rightarrow> string \<Rightarrow> string \<Rightarrow> u32 reg" where
  "spawn h bin log_path pid_path =
     op_bind (op_write (\<lambda>m. if mc_refused m log_path then Inl (WriteFile log_path)
       else Inr (if mc_files m log_path = None then m\<lparr>mc_files := (mc_files m)(log_path \<mapsto> Text [])\<rparr> else m))) (\<lambda>_.
     op_bind (op_result (\<lambda>_. ok_or (spawn_child h bin) (SpawnFailed bin))) (\<lambda>pid.
     op_bind (op_modify (\<lambda>m. m\<lparr>mc_alive := finsert (kill_target pid) (mc_alive m)\<rparr>)) (\<lambda>_.
     op_bind (write_pid pid_path pid) (\<lambda>_. op_return pid))))"

definition spawn_seq :: "Host \<Rightarrow> Layout \<Rightarrow> string \<Rightarrow> u32 reg" where
  "spawn_seq h l bin = spawn h bin (seq_log l) (seq_pid l)"

definition spawn_node :: "Host \<Rightarrow> Layout \<Rightarrow> string \<Rightarrow> u32 reg" where
  "spawn_node h l bin = spawn h bin (node_log l) (node_pid l)"

definition wait_for_head :: "Host \<Rightarrow> u16 \<Rightarrow> unit reg" where
  "wait_for_head h p m = (case await_head h p m of
     (ok, m') \<Rightarrow> (if ok then Inr () else Inl (NotReady (local_url p @ ''/head'')), m'))"

section \<open>Commands\<close>

definition first_time_bitcoin_setup :: "Host \<Rightarrow> Layout \<Rightarrow> Rpc \<Rightarrow> unit reg" where
  "first_time_bitcoin_setup h l rpc =
     op_bind (rpc_call h rpc ''createwallet'' [RStr ''user'']) (\<lambda>_.
     op_bind (rpc_call h rpc ''createwallet'' [RStr ''sequencer'']) (\<lambda>_.
     op_bind (op_result (from_cookie (bitcoin_cookie l) (Some ''user''))) (\<lambda>user.
     op_bind (op_result (from_cookie (bitcoin_cookie l) (Some ''sequencer''))) (\<lambda>sq.
     op_bind (rpc_as as_string (rpc_call h user ''getnewaddress'' [RStr ''mining'', RStr ''bech32m''])) (\<lambda>mining_addr.
     op_bind (write_file (mining_address_file l) (Text mining_addr)) (\<lambda>_.
     op_bind (rpc_call h rpc ''generatetoaddress'' [RNum 101, RStr mining_addr]) (\<lambda>_.
     op_bind (rpc_as as_string (rpc_call h sq ''getnewaddress'' [RStr ''fees'', RStr ''bech32m''])) (\<lambda>seq_addr.
     op_bind (rpc_call h user ''sendtoaddress'' [RStr seq_addr, RFloat 1]) (\<lambda>_.
     op_bind (rpc_call h rpc ''generatetoaddress'' [RNum 1, RStr mining_addr]) (\<lambda>_.
     op_bind (rpc_as as_u64 (rpc_call h rpc ''getblockcount'' [])) (\<lambda>height.
     write_file (l1_genesis_file l) (Text (nat_to_string height)))))))))))))"

definition load_wallet_if_exists :: "Host \<Rightarrow> Rpc \<Rightarrow> string \<Rightarrow> unit reg" where
  "load_wallet_if_exists h rpc name =
     op_bind (rpc_call h rpc ''listwallets'' []) (\<lambda>listed.
     if (case listed of RList vs \<Rightarrow> RStr name \<in> set vs | _ \<Rightarrow> False) then op_return ()
     else op_bind (rpc_call h rpc ''loadwallet'' [RStr name]) (\<lambda>_. op_return ()))"

definition read_l1_genesis :: "Layout \<Rightarrow> Machine \<Rightarrow> (RegtestError, u32) result" where
  "read_l1_genesis l m = rbind (read_text (l1_genesis_file l) m) (\<lambda>s. ok_or (parse_u32 (str_trim s)) ParseGenesis)"

definition read_mining_address :: "Layout \<Rightarrow> Machine \<Rightarrow> (RegtestError, string) result" where
  "read_mining_address l m = rbind (read_text (mining_address_file l) m) (\<lambda>s. Inr (str_trim s))"

definition not_running :: "string \<Rightarrow> string \<Rightarrow> unit reg" where
  "not_running name f = op_bind (pid_running f) (\<lambda>p. op_result (\<lambda>_. if p \<noteq> None then Inl (Running name) else Inr ()))"

definition cmd_start :: "Host \<Rightarrow> Layout \<Rightarrow> unit reg" where
  "cmd_start h l =
     op_bind (op_result (\<lambda>_. discover h)) (\<lambda>(bitcoind, bitcoin_cli).
     op_bind (op_result (\<lambda>_. find_binary h ''hodl-sequencer'')) (\<lambda>seq_bin.
     op_bind (op_result (\<lambda>_. find_binary h ''hodl-node'')) (\<lambda>node_bin.
     op_bind (op_gets (\<lambda>m. \<not> Layout_exists l m)) (\<lambda>fresh.
     op_bind (ensure_exists l) (\<lambda>_.
     op_bind (not_running ''bitcoind'' (bitcoin_pid l)) (\<lambda>_.
     op_bind (not_running ''hodl-sequencer'' (seq_pid l)) (\<lambda>_.
     op_bind (not_running ''hodl-node'' (node_pid l)) (\<lambda>_.
     op_bind (op_iter (check_port_free h) [BTC_RPC_PORT, SEQUENCER_PORT, NODE_PORT]) (\<lambda>_.
     op_bind (if fresh then write_bitcoin_conf l else op_return ()) (\<lambda>_.
     op_bind (start_bitcoind h l bitcoind) (\<lambda>_.
     op_bind (wait_for_rpc h l) (\<lambda>_.
     op_bind (op_result (from_cookie (bitcoin_cookie l) None)) (\<lambda>rpc.
     op_bind (if fresh then first_time_bitcoin_setup h l rpc
       else op_bind (load_wallet_if_exists h rpc ''user'') (\<lambda>_. load_wallet_if_exists h rpc ''sequencer'')) (\<lambda>_.
     op_bind (op_result (read_l1_genesis l)) (\<lambda>l1_genesis.
     op_bind (if fresh then op_bind (write_seq_config l l1_genesis) (\<lambda>_. write_node_config l l1_genesis)
       else op_return ()) (\<lambda>_.
     op_bind (spawn_seq h l seq_bin) (\<lambda>_.
     op_bind (wait_for_head h SEQUENCER_PORT) (\<lambda>_.
     op_bind (spawn_node h l node_bin) (\<lambda>_.
     wait_for_head h NODE_PORT)))))))))))))))))))"

definition stop_daemon :: "Host \<Rightarrow> string \<Rightarrow> unit reg" where
  "stop_daemon h f =
     op_bind (pid_running f) (\<lambda>p. case p of
       Some pid \<Rightarrow> op_bind (graceful_kill h pid) (\<lambda>_. op_modify (remove_file f))
     | None \<Rightarrow> op_return ())"

definition cmd_stop :: "Host \<Rightarrow> Layout \<Rightarrow> unit reg" where
  "cmd_stop h l =
     op_bind (stop_daemon h (seq_pid l)) (\<lambda>_.
     op_bind (stop_daemon h (node_pid l)) (\<lambda>_.
     op_bind (pid_running (bitcoin_pid l)) (\<lambda>p. case p of
       None \<Rightarrow> op_return ()
     | Some pid \<Rightarrow>
         op_bind (op_result (\<lambda>_. discover h)) (\<lambda>(_, cli).
         op_bind (op_modify (stop_bitcoind h cli)) (\<lambda>_.
         op_bind (op_gets (pid_alive pid)) (\<lambda>alive.
         if alive then graceful_kill h pid else op_return ()))))))"

text \<open>What \<open>status\<close> says of the three processes; \<open>None\<close> where nothing has been initialised.\<close>

definition cmd_status :: "Layout \<Rightarrow> (u32 option \<times> u32 option \<times> u32 option) option reg" where
  "cmd_status l =
     op_bind (op_gets (Layout_exists l)) (\<lambda>there.
     if \<not> there then op_return None
     else
       op_bind (pid_running (bitcoin_pid l)) (\<lambda>b.
       op_bind (pid_running (seq_pid l)) (\<lambda>s.
       op_bind (pid_running (node_pid l)) (\<lambda>n. op_return (Some (b, s, n))))))"

definition cmd_mine :: "Host \<Rightarrow> Layout \<Rightarrow> u32 \<Rightarrow> (nat \<times> nat) reg" where
  "cmd_mine h l n =
     op_bind (require_running ''bitcoind'' (bitcoin_pid l)) (\<lambda>_.
     op_bind (op_result (from_cookie (bitcoin_cookie l) None)) (\<lambda>rpc.
     op_bind (op_result (read_mining_address l)) (\<lambda>addr.
     op_bind (rpc_call h rpc ''generatetoaddress'' [RNum (unat n), RStr addr]) (\<lambda>res.
     op_bind (rpc_as as_u64 (rpc_call h rpc ''getblockcount'' [])) (\<lambda>height.
     op_return (case res of RList vs \<Rightarrow> length vs | _ \<Rightarrow> 0, height))))))"

definition not_positive :: "BtcAmount \<Rightarrow> bool" where
  "not_positive a = (case a of Finite r \<Rightarrow> r \<le> 0 | MinusInf \<Rightarrow> True | _ \<Rightarrow> False)"

definition cmd_fund :: "Host \<Rightarrow> Layout \<Rightarrow> string \<Rightarrow> BtcAmount \<Rightarrow> string reg" where
  "cmd_fund h l addr amount =
     op_bind (require_running ''bitcoind'' (bitcoin_pid l)) (\<lambda>_.
     if not_positive amount then op_result (\<lambda>_. Inl AmountNotPositive)
     else
       op_bind (op_result (from_cookie (bitcoin_cookie l) (Some ''user''))) (\<lambda>user.
       rpc_as as_string (rpc_call h user ''sendtoaddress''
         [RStr addr, case amount of Finite r \<Rightarrow> RFloat r | _ \<Rightarrow> RNull])))"

text \<open>\<open>remove_dir_all\<close> of the root; when it fails, some of what is below the root may be gone.\<close>

definition under :: "string \<Rightarrow> string \<Rightarrow> bool" where
  "under d f \<longleftrightarrow> f = d \<or> take (length (path_join d [])) f = path_join d []"

definition remove_below :: "(string \<Rightarrow> bool) \<Rightarrow> Machine \<Rightarrow> Machine" where
  "remove_below gone m = m\<lparr>mc_files := (\<lambda>f. if gone f then None else mc_files m f), mc_dirs := ffilter (\<lambda>d. \<not> gone d) (mc_dirs m)\<rparr>"

definition remove_root :: "Host \<Rightarrow> Layout \<Rightarrow> unit reg" where
  "remove_root h l m =
     (if mc_refused m (lo_root l)
      then (Inl RemoveFailed, remove_below (\<lambda>f. f \<noteq> lo_root l \<and> under (lo_root l) f \<and> rm_reached h f) m)
      else (Inr (), remove_below (under (lo_root l)) m))"

text \<open>The answer is what the user types at the prompt; the outcome of \<open>stop\<close> is dropped.\<close>

definition cmd_reset :: "Host \<Rightarrow> Layout \<Rightarrow> bool \<Rightarrow> string \<Rightarrow> unit reg" where
  "cmd_reset h l yes answer =
     (if \<not> yes \<and> to_ascii_lowercase (str_trim answer) \<notin> {''y'', ''yes''} then op_return ()
      else
        op_bind (op_modify (\<lambda>m. snd (cmd_stop h l m))) (\<lambda>_.
        op_bind (op_gets (Layout_exists l)) (\<lambda>there.
        if there then remove_root h l else op_return ())))"

definition cmd_logs :: "(string \<Rightarrow> string list) \<Rightarrow> Layout \<Rightarrow> (string list \<times> string list) reg" where
  "cmd_logs lines l = op_gets (\<lambda>m.
     let tail = (\<lambda>f. case read_text f m of Inr s \<Rightarrow> rev (take 40 (rev (lines s))) | Inl _ \<Rightarrow> [])
     in (tail (seq_log l), tail (node_log l)))"

datatype RegCmd = Start | Stop | Status | Mine u32 | Fund string BtcAmount | Reset bool string | Logs

text \<open>\<open>run\<close> after the arguments were parsed and the layout resolved; \<open>lines\<close> splits a text at line ends.\<close>

definition run_cmd :: "Host \<Rightarrow> (string \<Rightarrow> string list) \<Rightarrow> Layout \<Rightarrow> RegCmd \<Rightarrow> unit reg" where
  "run_cmd h lines l c = (case c of
     Start \<Rightarrow> cmd_start h l
   | Stop \<Rightarrow> cmd_stop h l
   | Status \<Rightarrow> op_bind (cmd_status l) (\<lambda>_. op_return ())
   | Mine n \<Rightarrow> op_bind (cmd_mine h l n) (\<lambda>_. op_return ())
   | Fund addr btc \<Rightarrow> op_bind (cmd_fund h l addr btc) (\<lambda>_. op_return ())
   | Reset yes answer \<Rightarrow> cmd_reset h l yes answer
   | Logs \<Rightarrow> op_bind (cmd_logs lines l) (\<lambda>_. op_return ()))"

end
