(* ===== verification/RegtestCorrect.thy ===== *)
theory RegtestCorrect
  imports Regtest
begin

text \<open>
  What the orchestrator's commands keep. \<open>anchored\<close>: both daemons are configured on the L1 height in the genesis
  file; \<open>half_made\<close>: the root directory is there and the genesis file is not, as a first start leaves it that
  stops before its end. The other programs are taken to leave the files of the orchestrator alone (\<open>quiet\<close>).
\<close>

section \<open>Outcomes\<close>

definition fails :: "('s \<Rightarrow> bool) \<Rightarrow> ('s, 'e, 'a) act \<Rightarrow> bool" where
  "fails P m \<longleftrightarrow> (\<forall>s. P s \<longrightarrow> (\<exists>e s'. m s = (Inl e, s') \<and> P s'))"

definition ensures :: "('s \<Rightarrow> bool) \<Rightarrow> ('s, 'e, 'a) act \<Rightarrow> ('a \<Rightarrow> 's \<Rightarrow> bool) \<Rightarrow> bool" where
  "ensures P m Q \<longleftrightarrow> (\<forall>s a s'. P s \<longrightarrow> m s = (Inr a, s') \<longrightarrow> Q a s')"

lemma fails_first: "fails P m \<Longrightarrow> fails P (op_bind m f)"
  by (fastforce simp: fails_def op_bind_def split: prod.splits sum.splits)

lemma fails_later: "keeps P m \<Longrightarrow> (\<And>a. fails P (f a)) \<Longrightarrow> fails P (op_bind m f)"
  by (fastforce simp: fails_def keeps_def op_bind_def split: prod.splits sum.splits)

lemma fails_gets: "(\<And>s. P s \<Longrightarrow> g s = a) \<Longrightarrow> fails P (f a) \<Longrightarrow> fails P (op_bind (op_gets g) f)"
  by (auto simp: fails_def op_bind_def)

lemma keeps_gets: "(\<And>s. P s \<Longrightarrow> g s = a) \<Longrightarrow> keeps P (f a) \<Longrightarrow> keeps P (op_bind (op_gets g) f)"
  by (auto simp: keeps_def op_bind_def)

lemma ensures_bind: "ensures P m Q \<Longrightarrow> (\<And>a. ensures (Q a) (f a) W) \<Longrightarrow> ensures P (op_bind m f) W"
  by (fastforce simp: ensures_def op_bind_Inr)

lemma ensures_any: "(\<And>a. ensures (\<lambda>_. True) (f a) W) \<Longrightarrow> ensures P (op_bind m f) W"
  by (fastforce simp: ensures_def op_bind_Inr)

lemma ensures_kept: "keeps P m \<Longrightarrow> (\<And>a. ensures P (f a) W) \<Longrightarrow> ensures P (op_bind m f) W"
  by (rule ensures_bind [where Q = "\<lambda>_. P"]) (auto simp: ensures_def keeps_def)

lemma ensures_gets: "(\<And>s. P s \<Longrightarrow> g s = a) \<Longrightarrow> ensures P (f a) W \<Longrightarrow> ensures P (op_bind (op_gets g) f) W"
  by (auto simp: ensures_def op_bind_def)

lemma ensures_last: "keeps P m \<Longrightarrow> ensures P m (\<lambda>_. P)"
  by (auto simp: ensures_def keeps_def)

section \<open>The files of the layout\<close>

definition own :: "Layout \<Rightarrow> string list" where
  "own l = [l1_genesis_file l, mining_address_file l, bitcoin_conf l, seq_config l, node_config l]"

definition same :: "Layout \<Rightarrow> Machine \<Rightarrow> Machine \<Rightarrow> bool" where
  "same l m m' \<longleftrightarrow> (Layout_exists l m' \<longleftrightarrow> Layout_exists l m) \<and> (\<forall>f\<in>set (own l). mc_files m' f = mc_files m f)"

definition quiet :: "Host \<Rightarrow> Layout \<Rightarrow> bool" where
  "quiet h l \<longleftrightarrow> (\<forall>m. (\<forall>b d. same l m (snd (run_bitcoind h b d m))) \<and> (\<forall>p. same l m (snd (await_head h p m))) \<and>
     (\<forall>s p. same l m (after_signal h s p m)) \<and> (\<forall>c. same l m (stop_bitcoind h c m)))"

lemmas layout_paths = seq_dir_def node_dir_def bitcoin_dir_def bitcoin_conf_def bitcoin_cookie_def bitcoin_pid_def
  seq_config_def seq_log_def seq_pid_def seq_db_path_def node_config_def node_log_def node_pid_def node_db_path_def
  l1_genesis_file_def mining_address_file_def

lemma layout_flat:
  "seq_config l = path_join (lo_root l) ''seq/config.json''" "node_config l = path_join (lo_root l) ''node/config.json''"
  "seq_log l = path_join (lo_root l) ''seq/log''" "node_log l = path_join (lo_root l) ''node/log''"
  "seq_pid l = path_join (lo_root l) ''seq/pid''" "node_pid l = path_join (lo_root l) ''node/pid''"
  "bitcoin_pid l = path_join (lo_root l) ''bitcoin/regtest/bitcoind.pid''"
  "bitcoin_conf l = path_join (lo_root l) ''bitcoin/bitcoin.conf''"
  "l1_genesis_file l = path_join (lo_root l) ''l1_genesis''"
  "mining_address_file l = path_join (lo_root l) ''mining_address''"
  by (simp_all add: layout_paths path_join_def)

lemma own_distinct: "distinct (own l @ [seq_log l, seq_pid l, node_log l, node_pid l, bitcoin_pid l])"
  by (simp add: own_def layout_flat path_join_inj)

lemma same_refl: "same l m m"
  by (simp add: same_def)

lemma same_trans: "same l m m' \<Longrightarrow> same l m' m'' \<Longrightarrow> same l m m''"
  by (simp add: same_def)

lemma same_exists: "same l m m' \<Longrightarrow> Layout_exists l m' \<longleftrightarrow> Layout_exists l m"
  by (simp add: same_def)

lemma same_file: "same l m m' \<Longrightarrow> f \<in> set (own l) \<Longrightarrow> mc_files m' f = mc_files m f"
  by (simp add: same_def)

lemma keeps_same: "(\<And>m. same l m (snd (a m))) \<Longrightarrow> keeps (same l m0) a"
  by (meson keeps_def same_trans)

section \<open>Commands on a directory that is there\<close>

lemma same_update:
  "mc_dirs m' = mc_dirs m \<Longrightarrow> (\<And>f. f \<in> set (own l) \<Longrightarrow> mc_files m' f = mc_files m f) \<Longrightarrow> same l m m'"
  by (simp add: same_def Layout_exists_def)

lemma same_remove: "f \<notin> set (own l) \<Longrightarrow> same l m (remove_file f m)"
  by (rule same_update) (auto simp: remove_file_def)

lemma pid_not_own: "seq_pid l \<notin> set (own l)" "node_pid l \<notin> set (own l)" "bitcoin_pid l \<notin> set (own l)"
  "seq_log l \<notin> set (own l)" "node_log l \<notin> set (own l)"
  using own_distinct [of l] by auto

lemma keeps_modify_same: "(\<And>m. same l m (f m)) \<Longrightarrow> keeps (same l m0) (op_modify f)"
  by (rule keeps_same) simp

lemma keeps_write_file: "f \<notin> set (own l) \<Longrightarrow> keeps (same l m0) (write_file f t)"
  by (rule keeps_same, rule same_update) (auto simp: write_file_def op_write_def)

lemma keeps_pid_running:
  assumes "f \<notin> set (own l)"
  shows "keeps (same l m0) (pid_running f)"
  unfolding pid_running_def using assms
  by (auto intro!: keeps_intros keeps_modify_same same_remove split: option.split)

lemma keeps_rpc_call: "keeps (same l m0) (rpc_call h r meth ps)"
  by (rule keeps_same, rule same_update) (auto simp: rpc_call_def)

lemma keeps_rpc_as: "keeps (same l m0) c \<Longrightarrow> keeps (same l m0) (rpc_as g c)"
  unfolding rpc_as_def by (intro keeps_intros)

lemma keeps_graceful_kill: "quiet h l \<Longrightarrow> keeps (same l m0) (graceful_kill h pid)"
  unfolding graceful_kill_def by (auto intro!: keeps_intros keeps_modify_same simp: quiet_def simp del: op_simps)

lemma quietD:
  assumes "quiet h l"
  shows "run_bitcoind h b d m = (ok, m') \<Longrightarrow> same l m m'" "await_head h p m = (ok, m') \<Longrightarrow> same l m m'"
  using assms by (metis quiet_def snd_conv)+

lemma keeps_await: "quiet h l \<Longrightarrow> keeps (same l m0) (wait_for_head h p)"
  by (rule keeps_same) (auto simp: wait_for_head_def dest: quietD split: prod.split)

lemma keeps_start_bitcoind: "quiet h l \<Longrightarrow> keeps (same l m0) (start_bitcoind h l b)"
  by (rule keeps_same) (auto simp: start_bitcoind_def dest: quietD split: prod.split)

lemma keeps_spawn:
  assumes "lf \<notin> set (own l)" "pid \<notin> set (own l)"
  shows "keeps (same l m0) (spawn h bin lf pid)"
proof -
  have "keeps (same l m0) (op_write (\<lambda>m. if mc_refused m lf then Inl (WriteFile lf)
      else Inr (if mc_files m lf = None then m\<lparr>mc_files := (mc_files m)(lf \<mapsto> Text [])\<rparr> else m)))"
    by (rule keeps_same, rule same_update) (use assms in \<open>auto simp: op_write_def\<close>)
  moreover have "keeps (same l m0) (op_modify (\<lambda>m. m\<lparr>mc_alive := finsert t (mc_alive m)\<rparr>))" for t
    by (intro keeps_modify_same same_update) auto
  ultimately show ?thesis
    unfolding spawn_def write_pid_def using assms by (auto intro!: keeps_intros keeps_write_file)
qed

lemma keeps_ensure: "Layout_exists l m0 \<Longrightarrow> keeps (same l m0) (ensure_exists l)"
  unfolding ensure_exists_def create_dir_all_def
  by (intro keeps_iter keeps_write) (auto simp: same_def Layout_exists_def split: if_splits)

lemmas keeps_parts = keeps_pid_running [OF pid_not_own(1)] keeps_pid_running [OF pid_not_own(2)]
  keeps_pid_running [OF pid_not_own(3)] keeps_rpc_call keeps_rpc_as keeps_graceful_kill keeps_await keeps_start_bitcoind
  keeps_spawn [OF pid_not_own(4) pid_not_own(1)] keeps_spawn [OF pid_not_own(5) pid_not_own(2)]

lemmas keeps_removes = same_remove [OF pid_not_own(1)] same_remove [OF pid_not_own(2)]

lemma keeps_stop: "quiet h l \<Longrightarrow> keeps (same l m0) (cmd_stop h l)"
  unfolding cmd_stop_def stop_daemon_def
  by (auto intro!: keeps_intros keeps_parts keeps_modify_same keeps_removes split: option.split simp: quiet_def simp del: op_simps)

lemma keeps_load_wallet: "keeps (same l m0) (load_wallet_if_exists h rpc name)"
  unfolding load_wallet_if_exists_def by (auto intro!: keeps_intros keeps_parts simp del: op_simps)

lemma keeps_not_running: "f \<notin> set (own l) \<Longrightarrow> keeps (same l m0) (not_running name f)"
  unfolding not_running_def by (intro keeps_intros keeps_pid_running)

lemma keeps_ports: "keeps P (op_iter (check_port_free h) ps)"
  unfolding check_port_free_def by (intro keeps_intros)

lemma keeps_wait_for_rpc: "keeps P (wait_for_rpc h l)"
  unfolding wait_for_rpc_def by (intro keeps_intros)

lemmas keeps_start_parts = keeps_parts keeps_load_wallet keeps_not_running keeps_ports keeps_wait_for_rpc keeps_ensure

lemma keeps_start:
  assumes "quiet h l" "Layout_exists l m0"
  shows "keeps (same l m0) (cmd_start h l)"
proof -
  have there: "\<And>m. same l m0 m \<Longrightarrow> (\<not> Layout_exists l m) = False"
    using assms(2) by (simp add: same_exists)
  show ?thesis
    unfolding cmd_start_def spawn_seq_def spawn_node_def prod.case_eq_if
    by (rule keeps_gets [OF there] keeps_bind keeps_start_parts keeps_pure assms pid_not_own | assumption | simp only: if_False)+
qed

definition resets :: "RegCmd \<Rightarrow> bool" where
  "resets c \<longleftrightarrow> (case c of Reset yes answer \<Rightarrow> True | _ \<Rightarrow> False)"

lemma run_cmd_same:
  assumes "quiet h l" "Layout_exists l m" "\<not> resets c"
  shows "same l m (snd (run_cmd h lines l c m))"
proof -
  have "keeps (same l m) (run_cmd h lines l c)"
    using assms keeps_start [of h l m] keeps_stop [of h l m]
    unfolding run_cmd_def cmd_status_def cmd_mine_def cmd_fund_def cmd_logs_def require_running_def
    by (auto intro!: keeps_intros keeps_parts simp: resets_def split: RegCmd.splits simp del: op_simps)
  then show ?thesis using same_refl by (rule keepsD)
qed

section \<open>A first start that did not end\<close>

definition half_made :: "Layout \<Rightarrow> Machine \<Rightarrow> bool" where
  "half_made l m \<longleftrightarrow> Layout_exists l m \<and> mc_files m (l1_genesis_file l) = None"

lemma half_made_same: "same l m m' \<Longrightarrow> half_made l m' \<longleftrightarrow> half_made l m"
  by (simp add: half_made_def same_exists same_file own_def)

lemma genesis_missing: "half_made l m0 \<Longrightarrow> fails (same l m0) (op_result (read_l1_genesis l))"
  by (auto simp: fails_def op_result_def read_l1_genesis_def read_text_def half_made_def same_file own_def)

lemma start_half_made:
  assumes "quiet h l" "half_made l m0"
  shows "fails (same l m0) (cmd_start h l)"
proof -
  have there: "\<And>m. same l m0 m \<Longrightarrow> (\<not> Layout_exists l m) = False" and exists: "Layout_exists l m0"
    using assms(2) by (simp_all add: same_exists half_made_def)
  show ?thesis
    unfolding cmd_start_def spawn_seq_def spawn_node_def prod.case_eq_if
    by (rule fails_gets [OF there] fails_first [OF genesis_missing [OF assms(2)]] fails_later keeps_gets [OF there] keeps_bind
        keeps_start_parts keeps_pure assms(1) exists pid_not_own | assumption | simp only: if_False)+
qed

section \<open>A first start that ends\<close>

text \<open>Both daemons are configured on the height \<open>g\<close> of the genesis file.\<close>

definition anchored :: "Layout \<Rightarrow> u32 \<Rightarrow> Machine \<Rightarrow> bool" where
  "anchored l g m \<longleftrightarrow> Layout_exists l m \<and> read_l1_genesis l m = Inr g \<and>
     (\<exists>s n. SequencerConfig_load (mc_files m) (seq_config l) = Inr s \<and> NodeConfig_load (mc_files m) (node_config l) = Inr n \<and>
       sc_l1_genesis_height s = g \<and> nc_l1_genesis_height n = g \<and> nc_network n = sc_network s \<and>
       nc_sequencer_url n = ''http://'' @ sc_listen s \<and> bc_auth (nc_bitcoind n) = bc_auth (sc_bitcoind s))"

lemma anchored_same: "same l m m' \<Longrightarrow> anchored l g m' \<longleftrightarrow> anchored l g m"
  by (simp add: anchored_def same_exists same_file own_def read_l1_genesis_def read_text_def SequencerConfig_load_def NodeConfig_load_def)

lemma exists_same: "same l m0 m \<Longrightarrow> Layout_exists l m0 \<Longrightarrow> Layout_exists l m"
  by (simp add: same_exists)

lemma keeps_anchored: "(\<And>m0. keeps (same l m0) a) \<Longrightarrow> keeps (anchored l g) a"
  using anchored_same same_refl unfolding keeps_def by blast

lemma config_files_distinct:
  "seq_config l \<noteq> node_config l" "seq_config l \<noteq> l1_genesis_file l" "node_config l \<noteq> l1_genesis_file l"
  using own_distinct [of l] by (auto simp: own_def)

lemma ensures_configs:
  "ensures (\<lambda>m. Layout_exists l m \<and> read_l1_genesis l m = Inr g)
     (op_bind (write_seq_config l g) (\<lambda>_. write_node_config l g)) (\<lambda>_. anchored l g)"
  using config_files_distinct [of l] config_files_distinct [of l, symmetric]
  by (auto simp: ensures_def op_success write_seq_config_def write_node_config_def write_file_def anchored_def
      SequencerConfig_load_def NodeConfig_load_def ok_or_def Layout_exists_def read_l1_genesis_def read_text_def
      local_url_def split: if_splits)

lemma keeps_exists: "(\<And>m0. keeps (same l m0) a) \<Longrightarrow> keeps (Layout_exists l) a"
  using same_exists same_refl unfolding keeps_def by blast

lemma exists_write_file: "keeps (Layout_exists l) (write_file f t)"
  by (auto simp: keeps_def write_file_def op_write_def Layout_exists_def)

lemma exists_setup: "keeps (Layout_exists l) (first_time_bitcoin_setup h l rpc)"
  unfolding first_time_bitcoin_setup_def
  by (intro keeps_bind keeps_pure keeps_exists [OF keeps_rpc_call] keeps_exists [OF keeps_rpc_as [OF keeps_rpc_call]] exists_write_file)

lemma exists_ensure: "ensures P (ensure_exists l) (\<lambda>_. Layout_exists l)"
  by (auto simp: ensures_def ensure_exists_def create_dir_all_def op_success Layout_exists_def split: if_splits)

lemma ensures_result: "ensures P (op_result r) (\<lambda>a m. P m \<and> r m = Inr a)"
  by (auto simp: ensures_def op_result_Inr)

lemma ensures_exI: "ensures P a (\<lambda>_. Q g) \<Longrightarrow> ensures P a (\<lambda>_ m. \<exists>g. Q g m)"
  by (auto simp: ensures_def)

text \<open>The part of a first start from the genesis height on.\<close>

lemma ensures_daemons:
  assumes "quiet h l"
  shows "ensures (\<lambda>m. Layout_exists l m \<and> read_l1_genesis l m = Inr g)
     (op_bind (op_bind (write_seq_config l g) (\<lambda>_. write_node_config l g)) (\<lambda>_.
      op_bind (spawn_seq h l seq_bin) (\<lambda>_. op_bind (wait_for_head h SEQUENCER_PORT) (\<lambda>_.
      op_bind (spawn_node h l node_bin) (\<lambda>_. wait_for_head h NODE_PORT))))) (\<lambda>_. anchored l g)"
  unfolding spawn_seq_def spawn_node_def
  by (rule ensures_bind [OF ensures_configs], rule ensures_last)
     (intro keeps_bind keeps_anchored keeps_start_parts pid_not_own assms)

lemma first_start:
  assumes "quiet h l"
  shows "ensures (\<lambda>m. \<not> Layout_exists l m) (cmd_start h l) (\<lambda>_ m. \<exists>g. anchored l g m)"
proof -
  have there: "\<And>m. \<not> Layout_exists l m \<Longrightarrow> (\<not> Layout_exists l m) = True"
    by simp
  note parts = keeps_exists [OF keeps_not_running] keeps_exists [OF keeps_start_bitcoind] exists_write_file exists_setup
    keeps_ports keeps_wait_for_rpc
  show ?thesis
    unfolding cmd_start_def prod.case_eq_if write_bitcoin_conf_def
    apply (rule ensures_kept [OF keeps_pure(3)])+
    apply (rule ensures_gets [OF there], assumption, rule ensures_bind [OF exists_ensure], unfold if_True)
    apply (rule ensures_kept, (rule parts pid_not_own assms)+)+
    apply (rule ensures_kept [OF keeps_pure(3)])
    apply (rule ensures_kept, (rule parts)+)
    apply (rule ensures_bind [OF ensures_result], rule ensures_exI, rule ensures_daemons [OF assms])
    done
qed

section \<open>Commands one after the other\<close>

fun run_cmds :: "(string \<Rightarrow> string list) \<Rightarrow> Layout \<Rightarrow> (Host \<times> RegCmd) list \<Rightarrow> Machine \<Rightarrow> Machine" where
  "run_cmds lines l [] m = m"
| "run_cmds lines l ((h, c) # cs) m = run_cmds lines l cs (snd (run_cmd h lines l c m))"

lemma run_cmds_same:
  "list_all (\<lambda>(h, c). quiet h l \<and> \<not> resets c) cs \<Longrightarrow> Layout_exists l m \<Longrightarrow> same l m (run_cmds lines l cs m)"
proof (induction cs arbitrary: m)
  case (Cons hc cs)
  then show ?case
    using run_cmd_same [of "fst hc" l m "snd hc" lines] by (cases hc) (auto intro: same_trans simp: same_exists)
qed (simp add: same_refl)

lemma removed_root: "remove_root h l m = (Inr u, m') \<Longrightarrow> \<not> Layout_exists l m'"
  by (auto simp: remove_root_def remove_below_def Layout_exists_def under_def split: if_splits)

lemma reset_removes:
  assumes "cmd_reset h l True answer m = (Inr u, m')"
  shows "\<not> Layout_exists l m'"
proof -
  have "cmd_reset h l True answer = op_bind (op_modify (\<lambda>m. snd (cmd_stop h l m))) (\<lambda>_.
        op_bind (op_gets (Layout_exists l)) (\<lambda>there. if there then remove_root h l else op_return ()))"
    by (simp only: cmd_reset_def) simp
  then show ?thesis using assms removed_root
    by (auto simp only: op_bind_Inr op_modify_def op_gets_def op_return_def prod.inject split: if_splits)
qed

section \<open>Starting twice\<close>

definition pid_files :: "Layout \<Rightarrow> string set" where
  "pid_files l = {bitcoin_pid l, seq_pid l, node_pid l}"

definition running :: "string \<Rightarrow> Machine \<Rightarrow> bool" where
  "running f m \<longleftrightarrow> (\<exists>p. read_pid f m = Inr (Some p) \<and> pid_alive p m)"

definition untouched :: "Layout \<Rightarrow> Machine \<Rightarrow> Machine \<Rightarrow> bool" where
  "untouched l m m' \<longleftrightarrow> mc_alive m' = mc_alive m \<and> mc_asked m' = mc_asked m \<and>
     (\<forall>f. f \<notin> pid_files l \<or> running f m \<longrightarrow> mc_files m' f = mc_files m f)"

lemma read_pid_cong: "mc_files m' f = mc_files m f \<Longrightarrow> read_pid f m' = read_pid f m"
  by (simp add: read_pid_def read_text_def)

lemma running_untouched: "untouched l m m' \<Longrightarrow> running f m \<Longrightarrow> running f m'"
  unfolding untouched_def running_def pid_alive_def by (metis read_pid_cong)

lemma pid_running_running: "running f m \<Longrightarrow> \<exists>p. pid_running f m = (Inr (Some p), m)"
  by (auto simp: running_def pid_running_def op_bind_def op_result_def)

lemma not_running_fails: "running f m0 \<Longrightarrow> fails (untouched l m0) (not_running name f)"
  using pid_running_running running_untouched by (fastforce simp: fails_def not_running_def op_bind_def op_result_def)

lemma not_running_keeps:
  assumes "f \<in> pid_files l"
  shows "keeps (untouched l m0) (not_running name f)"
proof -
  have "untouched l m0 (snd (pid_running f m))" if u: "untouched l m0 m" for m
  proof (cases "running f m0")
    case True
    then show ?thesis using u running_untouched pid_running_running by fastforce
  next
    case False
    then show ?thesis using u assms
      by (auto simp: untouched_def pid_running_def op_bind_def op_result_def remove_file_def split: sum.splits option.splits)
  qed
  then have "keeps (untouched l m0) (pid_running f)" by (simp add: keeps_def)
  then show ?thesis unfolding not_running_def by (intro keeps_bind keeps_pure)
qed

lemma start_twice:
  assumes "f \<in> pid_files l" "running f m0"
  shows "fails (untouched l m0) (cmd_start h l)"
proof -
  have dirs: "keeps (untouched l m0) (ensure_exists l)"
    unfolding ensure_exists_def create_dir_all_def
    by (intro keeps_iter keeps_write) (auto simp: untouched_def split: if_splits)
  have here: "bitcoin_pid l \<in> pid_files l" "seq_pid l \<in> pid_files l" "node_pid l \<in> pid_files l"
    by (simp_all add: pid_files_def)
  note before = fails_later keeps_pure dirs not_running_keeps here
  consider "running (bitcoin_pid l) m0" | "running (seq_pid l) m0" | "running (node_pid l) m0"
    using assms by (auto simp: pid_files_def)
  then show ?thesis
    unfolding cmd_start_def prod.case_eq_if
    by cases (rule fails_first [OF not_running_fails], assumption | rule before)+
qed

section \<open>Two inputs that are not checked\<close>

text \<open>A NaN is not at most zero, and JSON has no NaN: \<open>bitcoind\<close> is asked for the amount \<open>null\<close>.\<close>

lemma nan_amount_is_sent:
  assumes "require_running ''bitcoind'' (bitcoin_pid l) m = (Inr u, m1)"
    "from_cookie (bitcoin_cookie l) (Some ''user'') m1 = Inr user"
  shows "(rpc_url user, ''sendtoaddress'', [RStr addr, RNull]) \<in> set (mc_asked (snd (cmd_fund h l addr NotANumber m)))"
  using assms by (simp add: cmd_fund_def op_bind_def op_result_def not_positive_def rpc_as_def rpc_call_def ok_or_def split: RpcResponse.split option.split sum.split prod.split)

text \<open>The pid 4294967295 is \<open>kill\<close>'s -1: every process.\<close>

lemma signal_to_all:
  assumes "read_pid f m = Inr (Some 4294967295)" "- 1 |\<in>| mc_alive m" "- 1 |\<notin>| mc_alive (after_signal h SIGTERM (- 1) m)"
  shows "stop_daemon h f m = (Inr (), remove_file f (after_signal h SIGTERM (- 1) m))"
proof -
  have "kill_target 4294967295 = - 1" by (simp add: kill_target_def)
  then show ?thesis
    using assms by (simp add: stop_daemon_def pid_running_def graceful_kill_def op_bind_def op_result_def pid_alive_def)
qed

end
