(* ===== verification/NodeStartup.thy ===== *)
theory NodeStartup
  imports NodeSystem SeqStartup
begin

text \<open>The start of the node (\<open>run\<close> in \<open>hodl-node/src/main.rs\<close>), and a node that starts from a sequencer configured alike.\<close>

definition node_main :: "ext \<Rightarrow> (string \<Rightarrow> Service) \<Rightarrow> NodeConfig \<Rightarrow> (NodeStore, FullNode) op" where
  "node_main x net cfg =
     op_bind (node_bootstrap x (nc_l1_genesis_height cfg) (net (nc_sequencer_url cfg))) (\<lambda>(st, h).
     op_bind (op_gets id) (\<lambda>s. op_return (node_new st h s)))"

text \<open>A node that is configured on the sequencer's genesis height accepts its genesis block.\<close>

lemma node_joins:
  assumes "seq_main x seckey k sc c now seq_open = (Inr q0, s0)" and "(seq_step x js)\<^sup>*\<^sup>* (q0, []) (q, tasks)"
    and "net (nc_sequencer_url nc) = seq_router x l1 now' q" and "nc_l1_genesis_height nc = sc_l1_genesis_height sc"
  shows "\<exists>b fn s. seq_get_block (sh_store q) 0 = Inr (Some b) \<and> node_main x net nc node_open = (Inr fn, s) \<and> fn_store fn = s \<and>
    node_inv x fn [b] \<and> node_l1_cursor s = Inr (Some (sc_l1_genesis_height sc))"
proof -
  obtain b where b: "seq_inv x q0 [b]" "L2BlockHeader.l1_height (header b) = sc_l1_genesis_height sc"
    "anchor_outpoint (header b) \<noteq> None" using seq_main_genesis [OF assms(1)] by blast
  then obtain bs where inv: "seq_inv x q ([b] @ bs)" using seq_inv_reachable [OF assms(2)] by fastforce
  then have srv: "srv_block (seq_router x l1 now' q) 0 = Inr b" using seq_router_block [OF inv] by simp
  have "genesis_ok x b" using chain_genesis [OF seq_inv_chain [OF inv]] by simp
  moreover obtain a where "anchor_outpoint (header b) = Some a" using b(3) by blast
  ultimately obtain st s where s: "node_bootstrap x (sc_l1_genesis_height sc) (seq_router x l1 now' q) node_open =
      (Inr (st, node_head_of x b), s)" "node_inv x (node_new st (node_head_of x b) s) [b]"
      "node_l1_cursor s = Inr (Some (sc_l1_genesis_height sc))"
    using node_cold_start_succeeds [OF srv _ b(2)] by blast
  then have "node_main x net nc node_open = (Inr (node_new st (node_head_of x b) s), s)"
    using assms(3,4) by (simp add: node_main_def op_bind_def op_gets_def op_return_def)
  moreover have "seq_get_block (sh_store q) 0 = Inr (Some b)"
    using inv by (simp add: seq_inv_iff seq_db.mirrors_def)
  ultimately show ?thesis using s(2,3) by (intro exI conjI) (auto simp: node_new_def)
qed

end
