(* ===== verification/RegtestProperties.thy ===== *)
theory RegtestProperties
  imports RegtestCorrect NodeStartup SequencerProperties
begin

text \<open>
  Properties of the regtest orchestrator: what its directory says once it is set up, what an unfinished set-up
  leads to, and that nothing is started twice. The witnesses use one machine, empty at first, on which every
  program is found and does its part.
\<close>

definition sample_host :: Host where
  "sample_host =
     \<lparr> env_var = (\<lambda>v. if v = ''HODL_REGTEST_DATA'' then Some ''/r'' else Some ''/bin/x''),
       split_paths = (\<lambda>p. [p]), is_file = (\<lambda>_. True), exe_dir = Some ''/bin'', port_bound = (\<lambda>_. False),
       run_bitcoind = (\<lambda>b d m. (True, m\<lparr>mc_files := (mc_files m)(''/r/bitcoin/regtest/.cookie'' \<mapsto> Text ''u:p'',
          ''/r/bitcoin/regtest/bitcoind.pid'' \<mapsto> Text ''7''), mc_alive := finsert 7 (mc_alive m)\<rparr>)),
       rpc_ready = (\<lambda>_. True),
       rpc_answer = (\<lambda>asked url auth meth ps. Response True (Some (if meth = ''getnewaddress'' then Some (RStr ''bcrt1p'')
          else if meth = ''getblockcount'' then Some (RNum 102) else Some (RList []), None))),
       spawn_child = (\<lambda>b. Some 8), await_head = (\<lambda>p m. (True, m)),
       stop_bitcoind = (\<lambda>c m. m\<lparr>mc_alive := mc_alive m |-| {|7|}\<rparr>),
       after_signal = (\<lambda>s p m. m\<lparr>mc_alive := mc_alive m |-| {|p|}\<rparr>), rm_reached = (\<lambda>_. True) \<rparr>"

definition sample_layout :: Layout where
  "sample_layout = \<lparr> lo_root = ''/r'' \<rparr>"

definition empty_machine :: Machine where
  "empty_machine = \<lparr> mc_files = Map.empty, mc_dirs = {||}, mc_alive = {||}, mc_refused = (\<lambda>_. False), mc_asked = [] \<rparr>"

lemma sample_quiet: "quiet sample_host sample_layout"
  by (simp add: quiet_def sample_host_def same_def own_def layout_flat sample_layout_def path_join_def Layout_exists_def)

lemma sample_height: "nat_to_string 102 = ''102''"
  by code_simp

lemma sample_texts: "parse_u32 (str_trim ''102'') = Some 102" "parse_u32 (str_trim ''7'') = Some 7"
  "split_once CHR '':'' (str_trim ''u:p'') = Some (''u'', ''p'')"
  by (simp_all add: str_trim_def is_space_def parse_u32_def digit_of_def split_once_def Let_def)

lemmas sample_runs = cmd_start_def op_bind_def op_result_def op_write_def discover_def find_one_def find_binary_def
  ensure_exists_def create_dir_all_def not_running_def pid_running_def read_pid_def check_port_free_def write_bitcoin_conf_def
  write_file_def start_bitcoind_def wait_for_rpc_def read_text_def from_cookie_def first_time_bitcoin_setup_def rpc_call_def
  rpc_as_def as_string_def as_u64_def read_l1_genesis_def write_seq_config_def write_node_config_def spawn_seq_def spawn_node_def
  spawn_def write_pid_def wait_for_head_def ok_or_def pid_alive_def kill_target_def

lemma sample_start: "fst (cmd_start sample_host sample_layout empty_machine) = Inr ()"
  by (simp add: sample_runs sample_height sample_texts sample_host_def sample_layout_def empty_machine_def layout_flat bitcoin_cookie_def bitcoin_dir_def
     path_join_def Layout_exists_def)

text \<open>Once a first start has succeeded, the sequencer and the node are configured on the same network, on the same
  bitcoind credentials and on the L1 height in the genesis file, the node at the address the sequencer listens on;
  and no later command other than a reset changes that height.\<close>

theorem regtest_anchor_is_fixed:
  assumes "quiet h l" "\<not> Layout_exists l m" "cmd_start h l m = (Inr u, m')"
  shows "\<exists>g. \<forall>cs. list_all (\<lambda>(h, c). quiet h l \<and> \<not> resets c) cs \<longrightarrow> anchored l g (run_cmds lines l cs m')"
proof -
  obtain g where g: "anchored l g m'"
    using first_start [OF assms(1)] assms(2,3) unfolding ensures_def by blast
  then have "Layout_exists l m'" by (simp add: anchored_def)
  then show ?thesis using run_cmds_same g anchored_same by blast
qed

theorem regtest_anchor_is_fixed_witness:
  "\<exists>g. anchored sample_layout g (run_cmds (\<lambda>s. [s]) sample_layout
     [(sample_host, Stop), (sample_host, Start), (sample_host, Mine 1)] (snd (cmd_start sample_host sample_layout empty_machine)))"
proof -
  have "cmd_start sample_host sample_layout empty_machine = (Inr (), snd (cmd_start sample_host sample_layout empty_machine))"
    using sample_start by (simp add: prod_eq_iff)
  moreover have "\<not> Layout_exists sample_layout empty_machine"
    by (simp add: Layout_exists_def empty_machine_def)
  ultimately obtain g where g: "\<forall>cs. list_all (\<lambda>(h, c). quiet h sample_layout \<and> \<not> resets c) cs \<longrightarrow>
      anchored sample_layout g (run_cmds (\<lambda>s. [s]) sample_layout cs (snd (cmd_start sample_host sample_layout empty_machine)))"
    using regtest_anchor_is_fixed [OF sample_quiet] by blast
  show ?thesis
    by (rule exI [of _ g], rule g [rule_format]) (simp add: sample_quiet resets_def)
qed



text \<open>Where the directory is there without its genesis file, as a first start leaves it that stops before its end,
  every start fails, whatever was run in between, until a reset has removed the directory.\<close>

theorem regtest_unfinished_start_needs_reset:
  assumes "half_made l m" "quiet h l" "list_all (\<lambda>(h, c). quiet h l \<and> \<not> resets c) cs"
  shows "(\<exists>e. fst (cmd_start h l (run_cmds lines l cs m)) = Inl e) \<and>
    (\<forall>h answer u m'. cmd_reset h l True answer (run_cmds lines l cs m) = (Inr u, m') \<longrightarrow> \<not> Layout_exists l m')"
proof -
  have "same l m (run_cmds lines l cs m)"
    using run_cmds_same assms(1,3) by (auto simp: half_made_def)
  then show ?thesis
    using start_half_made [OF assms(2,1)] reset_removes unfolding fails_def by fastforce
qed

definition half_made_machine :: Machine where
  "half_made_machine = empty_machine\<lparr>mc_dirs := {|''/r''|}\<rparr>"

theorem regtest_unfinished_start_needs_reset_witness:
  "\<exists>e. fst (cmd_start sample_host sample_layout (run_cmds (\<lambda>s. [s]) sample_layout [(sample_host, Start), (sample_host, Stop)]
     half_made_machine)) = Inl e"
proof -
  have "half_made sample_layout half_made_machine"
    by (simp add: half_made_def half_made_machine_def empty_machine_def Layout_exists_def sample_layout_def)
  moreover have "list_all (\<lambda>(h, c). quiet h sample_layout \<and> \<not> resets c) [(sample_host, Start), (sample_host, Stop)]"
    by (simp add: sample_quiet resets_def)
  ultimately show ?thesis using regtest_unfinished_start_needs_reset [OF _ sample_quiet] by blast
qed

text \<open>A start while one of the three pid files names a live process fails before it starts or asks anything: the live
  processes are the same afterwards, and no file but stale pid files has changed.\<close>

theorem regtest_start_is_exclusive:
  assumes "f \<in> pid_files l" "running f m"
  shows "\<exists>e m'. cmd_start h l m = (Inl e, m') \<and> untouched l m m'"
  using start_twice [OF assms] unfolding fails_def by (simp add: untouched_def)

definition running_machine :: Machine where
  "running_machine = empty_machine\<lparr>mc_files := [''/r/seq/pid'' \<mapsto> Text ''7''], mc_alive := {|7|}\<rparr>"

theorem regtest_start_is_exclusive_witness:
  "\<exists>e m'. cmd_start sample_host sample_layout running_machine = (Inl e, m') \<and> untouched sample_layout running_machine m'"
proof (rule regtest_start_is_exclusive [of "seq_pid sample_layout"])
  show "running (seq_pid sample_layout) running_machine"
    by (simp add: running_def read_pid_def read_text_def running_machine_def seq_pid_def seq_dir_def sample_layout_def path_join_def
        sample_texts pid_alive_def kill_target_def)
qed (simp add: pid_files_def)

end
