(* ===== verification/HttpWire.thy ===== *)
theory HttpWire
  imports NodeApi SeqApi
begin

text \<open>
  What is between a client and a service: requests with a method and a URL, answers with a status and a body, the
  wallet's clients that make them (\<open>hodl-wallet/src/esplora.rs\<close>, \<open>api.rs\<close>) and the route tables of the two
  daemons (\<open>router\<close> in \<open>hodl-node/src/api.rs\<close> and \<open>hodl-sequencer/src/api.rs\<close>). A JSON body is the
  value it was written from. Which route a path goes to is for \<open>axum\<close> to say: a parameter, of which
  \<open>axum_ok\<close> states what is documented for paths without percent signs. The pages of the API documentation are left out.
\<close>

datatype Payload =
    PText string
  | PError Anyhow
  | PHead HeadResponse
  | PBalance BalanceResponse
  | PBlock L2Block
  | PWitness BlockWitness
  | PStrings "string list"
  | PMintReq SubmitMintRequest
  | PMintResp SubmitMintResponse
  | PTransferReq SignedTransfer
  | PTransferResp SubmitTransferResponse
  | PTx NodeTx
  | POutspend NodeOutspend
  | PUtxos "NodeAddressUtxo list"

datatype Method = GET | POST

record HttpRequest =
  rq_method :: Method
  rq_url :: string
  rq_body :: "Payload option"

type_synonym HttpAnswer = "nat \<times> Payload"
type_synonym Transport = "HttpRequest \<Rightarrow> HttpAnswer option"

section \<open>Clients\<close>

definition trim_end_slashes :: "string \<Rightarrow> string" where
  "trim_end_slashes s = rev (dropWhile (\<lambda>c. c = CHR ''/'') (rev s))"

definition url_at :: "string \<Rightarrow> string \<Rightarrow> string" where
  "url_at base p = trim_end_slashes base @ p"

definition is_success :: "nat \<Rightarrow> bool" where
  "is_success st \<longleftrightarrow> 200 \<le> st \<and> st < 300"

definition send_request :: "Transport \<Rightarrow> HttpRequest \<Rightarrow> (HttpError, HttpAnswer) result" where
  "send_request t r = ok_or (t r) HttpSend"

text \<open>\<open>GET\<close>, an error for any status but a success, and the body.\<close>

definition http_get :: "Transport \<Rightarrow> string \<Rightarrow> (HttpError, Payload) result" where
  "http_get t url =
     rbind (send_request t \<lparr> rq_method = GET, rq_url = url, rq_body = None \<rparr>) (\<lambda>(st, b).
     if \<not> is_success st then Inl (HttpStatus st) else Inr b)"

definition as_text :: "Payload \<Rightarrow> (HttpError, string) result" where
  "as_text p = (case p of PText s \<Rightarrow> Inr s | _ \<Rightarrow> Inl HttpDecode)"
definition as_head :: "Payload \<Rightarrow> (HttpError, HeadResponse) result" where
  "as_head p = (case p of PHead h \<Rightarrow> Inr h | _ \<Rightarrow> Inl HttpDecode)"
definition as_balance :: "Payload \<Rightarrow> (HttpError, BalanceResponse) result" where
  "as_balance p = (case p of PBalance b \<Rightarrow> Inr b | _ \<Rightarrow> Inl HttpDecode)"
definition as_block :: "Payload \<Rightarrow> (HttpError, L2Block) result" where
  "as_block p = (case p of PBlock b \<Rightarrow> Inr b | _ \<Rightarrow> Inl HttpDecode)"
definition as_witness :: "Payload \<Rightarrow> (HttpError, BlockWitness) result" where
  "as_witness p = (case p of PWitness w \<Rightarrow> Inr w | _ \<Rightarrow> Inl HttpDecode)"
definition as_strings :: "Payload \<Rightarrow> (HttpError, string list) result" where
  "as_strings p = (case p of PStrings ss \<Rightarrow> Inr ss | _ \<Rightarrow> Inl HttpDecode)"

definition as_tx :: "Payload \<Rightarrow> (HttpError, EsploraTx) result" where
  "as_tx p = (case p of
     PTx tx \<Rightarrow> Inr \<lparr> et_vout = map (\<lambda>o'. \<lparr> scriptpubkey = nvo_scriptpubkey o', vout_value = nvo_value o' \<rparr>) (nt_vout tx),
                     et_block_height = ts_block_height (nt_status tx) \<rparr>
   | _ \<Rightarrow> Inl HttpDecode)"

definition as_outspend :: "Payload \<Rightarrow> (HttpError, Outspend) result" where
  "as_outspend p = (case p of
     POutspend s \<Rightarrow> Inr \<lparr> spent = no_spent s, os_txid = no_txid s, os_block_height = no_block_height s \<rparr>
   | _ \<Rightarrow> Inl HttpDecode)"

definition as_utxos :: "ext \<Rightarrow> Payload \<Rightarrow> (HttpError, AddressUtxo list) result" where
  "as_utxos x p = (case p of
     PUtxos us \<Rightarrow> rfold (\<lambda>u out. rbind (ok_or (txid_from_str x (na_txid u)) HttpDecode) (\<lambda>t.
         Inr (out @ [\<lparr> au_txid = t, au_vout = na_vout u, au_value = na_value u,
                       au_block_height = ts_block_height (na_status u) \<rparr>]))) us []
   | _ \<Rightarrow> Inl HttpDecode)"

subsection \<open>Esplora\<close>

definition wire_get_tx :: "ext \<Rightarrow> Transport \<Rightarrow> string \<Rightarrow> Txid \<Rightarrow> (HttpError, EsploraTx) result" where
  "wire_get_tx x t base tid = rbind (http_get t (url_at base (''/tx/'' @ txid_to_string x tid))) as_tx"

definition wire_get_outspend :: "ext \<Rightarrow> Transport \<Rightarrow> string \<Rightarrow> Txid \<Rightarrow> u32 \<Rightarrow> (HttpError, Outspend) result" where
  "wire_get_outspend x t base tid v =
     rbind (http_get t (url_at base (''/tx/'' @ txid_to_string x tid @ ''/outspend/'' @ u32_to_string v))) as_outspend"

definition wire_tx_exists :: "ext \<Rightarrow> Transport \<Rightarrow> string \<Rightarrow> Txid \<Rightarrow> (HttpError, bool) result" where
  "wire_tx_exists x t base tid =
     rbind (send_request t \<lparr> rq_method = GET, rq_url = url_at base (''/tx/'' @ txid_to_string x tid), rq_body = None \<rparr>) (\<lambda>(st, b).
     if is_success st then Inr True else if st = 404 then Inr False else Inl (HttpStatus st))"

definition wire_tip_height :: "Transport \<Rightarrow> string \<Rightarrow> (HttpError, u32) result" where
  "wire_tip_height t base =
     rbind (rbind (http_get t (url_at base ''/blocks/tip/height'')) as_text) (\<lambda>s. ok_or (parse_u32 (str_trim s)) HttpDecode)"

definition wire_address_utxos :: "ext \<Rightarrow> Transport \<Rightarrow> string \<Rightarrow> string \<Rightarrow> (HttpError, AddressUtxo list) result" where
  "wire_address_utxos x t base addr =
     rbind (http_get t (url_at base (''/address/'' @ addr @ ''/utxo''))) (as_utxos x)"

text \<open>\<open>raw\<close> is the consensus encoding of the transaction.\<close>

definition wire_broadcast :: "ext \<Rightarrow> Transport \<Rightarrow> string \<Rightarrow> bytes \<Rightarrow> (HttpError, Txid) result" where
  "wire_broadcast x t base raw =
     rbind (send_request t \<lparr> rq_method = POST, rq_url = url_at base ''/tx'', rq_body = Some (PText (hex_encode x raw)) \<rparr>) (\<lambda>(st, b).
     if \<not> is_success st then Inl (HttpStatus st)
     else rbind (as_text b) (\<lambda>text. ok_or (txid_from_str x (str_trim text)) HttpDecode))"

definition wire_esplora :: "ext \<Rightarrow> Transport \<Rightarrow> string \<Rightarrow> EsploraClient" where
  "wire_esplora x t base =
     \<lparr> get_tx = wire_get_tx x t base, get_outspend = wire_get_outspend x t base, tx_exists = wire_tx_exists x t base,
       es_tip_height = wire_tip_height t base, address_utxos = wire_address_utxos x t base \<rparr>"

subsection \<open>The L2 interface\<close>

text \<open>The answer to a submission is decoded whatever its status.\<close>

definition http_post :: "Transport \<Rightarrow> string \<Rightarrow> Payload \<Rightarrow> (HttpError, Payload) result" where
  "http_post t url content =
     rbind (send_request t \<lparr> rq_method = POST, rq_url = url, rq_body = Some content \<rparr>) (\<lambda>(st, b). Inr b)"

definition wire_submit_mint :: "Transport \<Rightarrow> string \<Rightarrow> SubmitMintRequest \<Rightarrow> (HttpError, SubmitMintResponse) result" where
  "wire_submit_mint t base req = rbind (http_post t (url_at base ''/mint'') (PMintReq req)) (\<lambda>p.
     case p of PMintResp r \<Rightarrow> Inr r | _ \<Rightarrow> Inl HttpDecode)"

definition wire_submit_transfer :: "Transport \<Rightarrow> string \<Rightarrow> SignedTransfer \<Rightarrow> (HttpError, SubmitTransferResponse) result" where
  "wire_submit_transfer t base req = rbind (http_post t (url_at base ''/transfer'') (PTransferReq req)) (\<lambda>p.
     case p of PTransferResp r \<Rightarrow> Inr r | _ \<Rightarrow> Inl HttpDecode)"

definition wire_get_block :: "Transport \<Rightarrow> string \<Rightarrow> u32 \<Rightarrow> (HttpError, L2Block) result" where
  "wire_get_block t base height = rbind (http_get t (url_at base (''/block/'' @ u32_to_string height))) as_block"

text \<open>\<open>error_for_status\<close> lets all but the client and server errors pass.\<close>

definition wire_head :: "Transport \<Rightarrow> string \<Rightarrow> (HttpError, HeadResponse) result" where
  "wire_head t base =
     rbind (send_request t \<lparr> rq_method = GET, rq_url = url_at base ''/head'', rq_body = None \<rparr>) (\<lambda>(st, b).
     if 400 \<le> st \<and> st < 600 then Inl (HttpStatus st) else as_head b)"

definition wire_balance :: "ext \<Rightarrow> Transport \<Rightarrow> string \<Rightarrow> L2Address \<Rightarrow> (HttpError, BalanceResponse) result" where
  "wire_balance x t base addr =
     rbind (http_get t (url_at base (''/balance/'' @ hex_encode x (serialize addr)))) as_balance"

definition wire_get_witness :: "Transport \<Rightarrow> string \<Rightarrow> u32 \<Rightarrow> (HttpError, BlockWitness) result" where
  "wire_get_witness t base height = rbind (http_get t (url_at base (''/witness/'' @ u32_to_string height))) as_witness"

definition wire_get_nullifiers :: "Transport \<Rightarrow> string \<Rightarrow> (HttpError, string list) result" where
  "wire_get_nullifiers t base = rbind (http_get t (url_at base ''/nullifiers'')) as_strings"

definition wire_service :: "ext \<Rightarrow> Transport \<Rightarrow> string \<Rightarrow> Service" where
  "wire_service x t base =
     \<lparr> srv_submit_mint = wire_submit_mint t base, srv_submit_transfer = wire_submit_transfer t base,
       srv_block = wire_get_block t base, srv_head = wire_head t base, srv_balance = wire_balance x t base,
       srv_witness = wire_get_witness t base, srv_nullifiers = wire_get_nullifiers t base \<rparr>"

section \<open>Routes\<close>

type_synonym Handler = "string list \<Rightarrow> Payload option \<Rightarrow> HttpAnswer"

text \<open>The routing of \<open>axum\<close>: of the routes' methods and patterns, which one a request goes to and what the pattern's
  parameters are, or the status of a refusal.\<close>

type_synonym Routing = "(Method \<times> string) list \<Rightarrow> Method \<Rightarrow> string \<Rightarrow> (nat, nat \<times> string list) result"

definition dispatch :: "Routing \<Rightarrow> (Method \<times> string \<times> Handler) list \<Rightarrow> Method \<Rightarrow> string \<Rightarrow> Payload option \<Rightarrow> HttpAnswer" where
  "dispatch ax routes meth p content =
     (case ax (map (\<lambda>(m, pat, f). (m, pat)) routes) meth p of
        Inl st \<Rightarrow> (st, PText [])
      | Inr (i, ps) \<Rightarrow> snd (snd (routes ! i)) ps content)"

definition answer :: "('a \<Rightarrow> Payload) \<Rightarrow> (Anyhow, 'a) result \<Rightarrow> HttpAnswer" where
  "answer f r = (case r of Inl e \<Rightarrow> (500, PError e) | Inr a \<Rightarrow> (200, f a))"

definition answer_response :: "('a \<Rightarrow> Payload) \<Rightarrow> 'a Response \<Rightarrow> HttpAnswer" where
  "answer_response f r = (case r of
     RespOk a \<Rightarrow> (200, f a) | RespNotFound msg \<Rightarrow> (404, PText msg) | RespBadRequest msg \<Rightarrow> (400, PText msg))"

definition answer_fallible :: "('a \<Rightarrow> Payload) \<Rightarrow> (Anyhow, 'a Response) result \<Rightarrow> HttpAnswer" where
  "answer_fallible f r = (case r of Inl e \<Rightarrow> (500, PError e) | Inr a \<Rightarrow> answer_response f a)"

text \<open>The extractors: a path parameter as text or as a number, and a body.\<close>

definition with_height :: "(u32 \<Rightarrow> HttpAnswer) \<Rightarrow> Handler" where
  "with_height f ps content = (case parse_u32 (hd ps) of Some h \<Rightarrow> f h | None \<Rightarrow> (400, PText []))"

definition node_routes :: "ext \<Rightarrow> NodeRpc \<Rightarrow> FullNode \<Rightarrow> (Method \<times> string \<times> Handler) list" where
  "node_routes x c q =
     [(GET, ''/head'', \<lambda>ps body. (200, PHead (node_get_head q))),
      (GET, ''/balance/:addr'', \<lambda>ps body. answer PBalance (node_get_balance x (hd ps) q)),
      (GET, ''/block/:height'', with_height (\<lambda>h. answer_fallible PBlock (node_get_block_handler q h))),
      (GET, ''/witness/:height'', with_height (\<lambda>h. answer_fallible PWitness (node_get_witness_handler q h))),
      (GET, ''/nullifiers'', \<lambda>ps body. (200, PStrings (node_get_nullifiers q))),
      (GET, ''/tx/:txid'', \<lambda>ps body. answer_fallible PTx (esplora_get_tx x c (hd ps))),
      (GET, ''/tx/:txid/outspend/:vout'', \<lambda>ps body. case parse_u32 (ps ! 1) of
         Some v \<Rightarrow> answer POutspend (esplora_outspend x q (hd ps) v) | None \<Rightarrow> (400, PText [])),
      (POST, ''/tx'', \<lambda>ps body. case body of
         Some (PText s) \<Rightarrow> answer_response PText (esplora_broadcast x c s) | _ \<Rightarrow> (400, PText [])),
      (GET, ''/address/:addr/utxo'', \<lambda>ps body. answer PUtxos (esplora_address_utxos c (hd ps))),
      (GET, ''/blocks/tip/height'', \<lambda>ps body. answer PText (esplora_tip_height c))]"

text \<open>The answers of a sequencer in the state \<open>q\<close>; what a submission does to the state is \<open>submit_mint\<close> and
  \<open>submit_transfer\<close>.\<close>

definition row_response :: "string \<Rightarrow> 'a option \<Rightarrow> 'a Response" where
  "row_response msg v = (case v of Some a \<Rightarrow> RespOk a | None \<Rightarrow> RespNotFound msg)"

definition seq_routes :: "ext \<Rightarrow> L1View \<Rightarrow> u64 \<Rightarrow> Sequencer \<Rightarrow> (Method \<times> string \<times> Handler) list" where
  "seq_routes x l1 now q =
     [(POST, ''/mint'', \<lambda>ps body. case body of
         Some (PMintReq req) \<Rightarrow> (200, PMintResp (fst (submit_mint x l1 req now q))) | _ \<Rightarrow> (422, PText [])),
      (POST, ''/transfer'', \<lambda>ps body. case body of
         Some (PTransferReq t) \<Rightarrow> (200, PTransferResp (fst (submit_transfer x t now q))) | _ \<Rightarrow> (422, PText [])),
      (GET, ''/head'', \<lambda>ps body. (200, PHead (seq_get_head q))),
      (GET, ''/balance/:addr'', \<lambda>ps body. answer PBalance (seq_get_balance x (hd ps) q)),
      (GET, ''/block/:height'', with_height (\<lambda>h. answer_fallible PBlock
         (rbind (seq_get_block_handler q h) (\<lambda>b. Inr (row_response ''no such block'' b))))),
      (GET, ''/witness/:height'', with_height (\<lambda>h. answer_fallible PWitness
         (rbind (seq_get_witness_handler q h) (\<lambda>w. Inr (row_response ''no witness at that height'' w)))))]"

text \<open>A server at a base URL.\<close>

definition serve_at :: "Routing \<Rightarrow> string \<Rightarrow> (Method \<times> string \<times> Handler) list \<Rightarrow> Transport" where
  "serve_at ax base routes r =
     (let host = trim_end_slashes base
      in if take (length host) (rq_url r) = host
         then Some (dispatch ax routes (rq_method r) (drop (length host) (rq_url r)) (rq_body r)) else None)"

section \<open>Routing as documented\<close>

fun segments :: "string \<Rightarrow> string list" where
  "segments [] = [[]]"
| "segments (c # s) = (if c = CHR ''/'' then [] # segments s
     else (case segments s of [] \<Rightarrow> [[c]] | p # ps \<Rightarrow> (c # p) # ps))"

fun seg_match :: "string list \<Rightarrow> string list \<Rightarrow> string list option" where
  "seg_match [] [] = Some []"
| "seg_match (p # ps) (s # ss) =
     (if p \<noteq> [] \<and> hd p = CHR '':'' then if s = [] then None else map_option ((#) s) (seg_match ps ss)
      else if p = s then seg_match ps ss else None)"
| "seg_match _ _ = None"

text \<open>The route whose pattern matches the path and whose method is the request's; 404 where no pattern
  matches, 405 where only the method differs.\<close>

definition documented_routing :: Routing where
  "documented_routing routes meth p =
     (let hits = filter (\<lambda>(i, m, pat). seg_match (segments pat) (segments p) \<noteq> None) (enumerate 0 routes)
      in if hits = [] then Inl 404
         else case find (\<lambda>(i, m, pat). m = meth) hits of
                None \<Rightarrow> Inl 405
              | Some (i, m, pat) \<Rightarrow> Inr (i, the (seg_match (segments pat) (segments p))))"

definition axum_ok :: "Routing \<Rightarrow> bool" where
  "axum_ok ax \<longleftrightarrow> (\<forall>routes meth p. CHR ''%'' \<notin> set p \<longrightarrow> ax routes meth p = documented_routing routes meth p)"

text \<open>Text that is one segment of a path.\<close>

definition plain :: "string \<Rightarrow> bool" where
  "plain s \<longleftrightarrow> s \<noteq> [] \<and> CHR ''/'' \<notin> set s \<and> CHR ''%'' \<notin> set s"

end
