(* ===== verification/HttpCorrect.thy ===== *)
theory HttpCorrect
  imports HttpWire
begin

text \<open>
  The URLs the clients form are those the routers know: a client of a server at a base URL sees the service that the
  handlers present.
\<close>

section \<open>Paths\<close>

lemma segments_single: "CHR ''/'' \<notin> set s \<Longrightarrow> segments s = [s]"
  by (induction s) auto

lemma segments_append: "CHR ''/'' \<notin> set s \<Longrightarrow> segments (s @ CHR ''/'' # t) = s # segments t"
  by (induction s) auto

lemma serve_at_url: "serve_at ax base routes \<lparr> rq_method = m, rq_url = url_at base p, rq_body = b \<rparr> = Some (dispatch ax routes m p b)"
  by (simp add: serve_at_def url_at_def Let_def)

lemma axum_ok_match: "axum_ok ax \<Longrightarrow> CHR ''%'' \<notin> set p \<Longrightarrow> ax routes meth p = documented_routing routes meth p"
  by (simp add: axum_ok_def)

lemma plain_simps: "plain s \<Longrightarrow> s \<noteq> []" "plain s \<Longrightarrow> segments s = [s]" "plain s \<Longrightarrow> CHR ''%'' \<notin> set s"
  "plain s \<Longrightarrow> segments (s @ CHR ''/'' # t) = s # segments t"
  by (simp_all add: plain_def segments_single segments_append)

lemma plain_digits:
  assumes "\<And>c. c \<in> set s \<Longrightarrow> digit_of c \<noteq> None" "s \<noteq> []"
  shows "plain s"
  using assms by (force simp: plain_def digit_of_def)

lemma plain_u32: "plain (u32_to_string v)"
  by (rule plain_digits) (auto simp: u32_to_string_def dest: digit_of_nat_to_string)

lemma plain_hex: "hex_ok x \<Longrightarrow> bs \<noteq> [] \<Longrightarrow> plain (hex_encode x bs)"
  using hex_ok_length [of x bs] hex_ok_digits [of x _ bs] by (force simp: plain_def)

lemma trim_same:
  assumes "\<And>ch. ch \<in> set s \<Longrightarrow> \<not> is_space ch"
  shows "str_trim s = s"
proof -
  have "dropWhile is_space t = t" if "set t \<subseteq> set s" for t
    using that assms by (cases t) auto
  then show ?thesis by (simp add: str_trim_def)
qed

lemma trim_u32: "str_trim (u32_to_string v) = u32_to_string v"
  unfolding u32_to_string_def
  by (rule trim_same, drule digit_of_nat_to_string) (auto simp: digit_of_def is_space_def Let_def split: if_splits)

lemma trim_hex: "hex_ok x \<Longrightarrow> str_trim (hex_encode x bs) = hex_encode x bs"
  by (rule trim_same, drule (1) hex_ok_digits) (auto simp: is_space_def)

lemma is_success_simps [simp]: "is_success 200" "\<not> is_success 404"
  by (simp_all add: is_success_def)

lemma rbind_again [simp]: "rbind r Inr = r"
  by (cases r) simp_all

section \<open>The node\<close>

lemma http_answer: "rbind (case answer f r of (st, b) \<Rightarrow> if \<not> is_success st then Inl (HttpStatus st) else Inr b) g = rbind (http r) (\<lambda>a. g (f a))"
  by (cases r) (simp_all add: answer_def is_success_def http_def map_err_def)

lemma http_answer_fallible:
  "rbind (case answer_fallible f r of (st, b) \<Rightarrow> if \<not> is_success st then Inl (HttpStatus st) else Inr b) g = rbind (http_response r) (\<lambda>a. g (f a))"
  by (auto simp: answer_fallible_def answer_response_def is_success_def http_def map_err_def http_response_def split: sum.splits Response.splits)

lemma http_get_served:
  "http_get (serve_at ax base routes) (url_at base p) =
     (case dispatch ax routes GET p None of (st, b) \<Rightarrow> if \<not> is_success st then Inl (HttpStatus st) else Inr b)"
  by (simp add: http_get_def send_request_def serve_at_url ok_or_def)

lemma node_dispatch:
  assumes "axum_ok ax"
  shows "dispatch ax (node_routes x c q) GET ''/head'' None = (200, PHead (node_get_head q))"
    "plain a \<Longrightarrow> dispatch ax (node_routes x c q) GET (''/balance/'' @ a) None = answer PBalance (node_get_balance x a q)"
    "plain a \<Longrightarrow> dispatch ax (node_routes x c q) GET (''/block/'' @ a) None =
       with_height (\<lambda>h. answer_fallible PBlock (node_get_block_handler q h)) [a] None"
    "plain a \<Longrightarrow> dispatch ax (node_routes x c q) GET (''/witness/'' @ a) None =
       with_height (\<lambda>h. answer_fallible PWitness (node_get_witness_handler q h)) [a] None"
    "dispatch ax (node_routes x c q) GET ''/nullifiers'' None = (200, PStrings (node_get_nullifiers q))"
    "plain a \<Longrightarrow> dispatch ax (node_routes x c q) GET (''/tx/'' @ a) None = answer_fallible PTx (esplora_get_tx x c a)"
    "plain a \<Longrightarrow> plain b \<Longrightarrow> dispatch ax (node_routes x c q) GET (''/tx/'' @ a @ ''/outspend/'' @ b) None =
       (case parse_u32 b of Some v \<Rightarrow> answer POutspend (esplora_outspend x q a v) | None \<Rightarrow> (400, PText []))"
    "dispatch ax (node_routes x c q) POST ''/tx'' (Some (PText s)) = answer_response PText (esplora_broadcast x c s)"
    "plain a \<Longrightarrow> dispatch ax (node_routes x c q) GET (''/address/'' @ a @ ''/utxo'') None = answer PUtxos (esplora_address_utxos c a)"
    "dispatch ax (node_routes x c q) GET ''/blocks/tip/height'' None = answer PText (esplora_tip_height c)"
    "dispatch ax (node_routes x c q) POST ''/mint'' p = (404, PText [])"
    "dispatch ax (node_routes x c q) POST ''/transfer'' p = (404, PText [])"
  by (simp_all add: dispatch_def node_routes_def axum_ok_match [OF assms] documented_routing_def plain_simps cong: option.case_cong)

lemma node_service_over_http:
  assumes "axum_ok ax" "hex_ok x"
  shows "wire_service x (serve_at ax base (node_routes x c q)) base = node_router x q"
proof -
  note d = node_dispatch [OF assms(1), where x = x and c = c and q = q, unfolded append.simps]
  have key: "plain (hex_encode x (serialize a))" for a
    by (rule plain_hex [OF assms(2)]) (metis length_serialize list.size(3) zero_neq_numeral)
  show ?thesis
    unfolding wire_service_def node_router_def
    by (simp add: fun_eq_iff wire_submit_mint_def wire_submit_transfer_def wire_get_block_def wire_head_def wire_balance_def
        wire_get_witness_def wire_get_nullifiers_def http_post_def send_request_def serve_at_url ok_or_def http_get_served d
        key plain_u32 with_height_def http_answer http_answer_fallible as_head_def as_balance_def as_block_def
        as_witness_def as_strings_def)
qed

lemma http_response_exists:
  "(case answer_fallible f r of (st, b) \<Rightarrow> if is_success st then Inr True else if st = 404 then Inr False else Inl (HttpStatus st)) =
   (case http_response r of Inr _ \<Rightarrow> Inr True | Inl e \<Rightarrow> if e = HttpStatus 404 then Inr False else Inl e)"
  by (auto simp: answer_fallible_def answer_response_def is_success_def http_def map_err_def http_response_def split: sum.splits Response.splits)

lemma node_esplora_over_http:
  assumes "axum_ok ax" "\<And>t. plain (txid_to_string x t)"
  shows "get_tx (wire_esplora x (serve_at ax base (node_routes x c q)) base) t = get_tx (node_esplora x c q) t"
    "get_outspend (wire_esplora x (serve_at ax base (node_routes x c q)) base) t v = get_outspend (node_esplora x c q) t v"
    "tx_exists (wire_esplora x (serve_at ax base (node_routes x c q)) base) t = tx_exists (node_esplora x c q) t"
    "es_tip_height (wire_esplora x (serve_at ax base (node_routes x c q)) base) = es_tip_height (node_esplora x c q)"
    "plain a \<Longrightarrow> address_utxos (wire_esplora x (serve_at ax base (node_routes x c q)) base) a = address_utxos (node_esplora x c q) a"
proof -
  note d = node_dispatch [OF assms(1), where x = x and c = c and q = q, unfolded append.simps]
  show "get_tx (wire_esplora x (serve_at ax base (node_routes x c q)) base) t = get_tx (node_esplora x c q) t"
    by (simp add: wire_esplora_def node_esplora_def wire_get_tx_def http_get_served d assms(2) http_answer_fallible as_tx_def)
  show "get_outspend (wire_esplora x (serve_at ax base (node_routes x c q)) base) t v = get_outspend (node_esplora x c q) t v"
    using d(7) [OF assms(2) plain_u32]
    by (simp add: wire_esplora_def node_esplora_def wire_get_outspend_def http_get_served http_answer as_outspend_def)
  show "tx_exists (wire_esplora x (serve_at ax base (node_routes x c q)) base) t = tx_exists (node_esplora x c q) t"
    by (simp add: wire_esplora_def node_esplora_def wire_tx_exists_def send_request_def serve_at_url ok_or_def d assms(2)
        http_response_exists)
  show "es_tip_height (wire_esplora x (serve_at ax base (node_routes x c q)) base) = es_tip_height (node_esplora x c q)"
    by (cases "node_block_count c") (simp_all add: wire_esplora_def node_esplora_def wire_tip_height_def http_get_served d
        answer_def is_success_def as_text_def esplora_tip_height_def http_def map_err_def trim_u32)
  show "address_utxos (wire_esplora x (serve_at ax base (node_routes x c q)) base) a = address_utxos (node_esplora x c q) a"
    if "plain a" using d(9) [OF that]
    by (simp add: wire_esplora_def node_esplora_def wire_address_utxos_def http_get_served http_answer as_utxos_def)
qed

lemma broadcast_over_http:
  assumes "axum_ok ax" "hex_ok x" "txid_str_ok x" "send_raw_transaction c raw = Inr t" "str_trim (txid_to_string x t) = txid_to_string x t"
  shows "wire_broadcast x (serve_at ax base (node_routes x c q)) base raw = Inr t"
proof -
  show ?thesis
    using assms hex_ok_decode [OF assms(2)] trim_hex [OF assms(2)]
    by (simp add: wire_broadcast_def send_request_def serve_at_url ok_or_def node_dispatch answer_response_def esplora_broadcast_def
       as_text_def is_success_def txid_str_ok_def)
qed

section \<open>The sequencer\<close>

lemma seq_dispatch:
  assumes "axum_ok ax"
  shows "dispatch ax (seq_routes x l1 now q) GET ''/head'' None = (200, PHead (seq_get_head q))"
    "plain a \<Longrightarrow> dispatch ax (seq_routes x l1 now q) GET (''/balance/'' @ a) None = answer PBalance (seq_get_balance x a q)"
    "plain a \<Longrightarrow> dispatch ax (seq_routes x l1 now q) GET (''/block/'' @ a) None =
       with_height (\<lambda>h. answer_fallible PBlock (rbind (seq_get_block_handler q h) (\<lambda>b. Inr (row_response ''no such block'' b)))) [a] None"
    "plain a \<Longrightarrow> dispatch ax (seq_routes x l1 now q) GET (''/witness/'' @ a) None =
       with_height (\<lambda>h. answer_fallible PWitness
         (rbind (seq_get_witness_handler q h) (\<lambda>w. Inr (row_response ''no witness at that height'' w)))) [a] None"
    "dispatch ax (seq_routes x l1 now q) GET ''/nullifiers'' None = (404, PText [])"
    "dispatch ax (seq_routes x l1 now q) POST ''/mint'' (Some (PMintReq req)) = (200, PMintResp (fst (submit_mint x l1 req now q)))"
    "dispatch ax (seq_routes x l1 now q) POST ''/transfer'' (Some (PTransferReq tr)) = (200, PTransferResp (fst (submit_transfer x tr now q)))"
  by (simp_all add: dispatch_def seq_routes_def axum_ok_match [OF assms] documented_routing_def plain_simps)

lemma http_response_row: "http_response (rbind r (\<lambda>v. Inr (row_response msg v))) = http_row r"
  by (cases r) (auto simp: http_response_def http_row_def http_def row_response_def map_err_def ok_or_def split: option.split)

lemma seq_service_over_http:
  assumes "axum_ok ax" "hex_ok x"
  shows "wire_service x (serve_at ax base (seq_routes x l1 now q)) base = seq_router x l1 now q"
proof -
  note d = seq_dispatch [OF assms(1), where x = x and q = q, unfolded append.simps]
  have key: "plain (hex_encode x (serialize a))" for a
    by (rule plain_hex [OF assms(2)]) (metis length_serialize list.size(3) zero_neq_numeral)
  show ?thesis
    unfolding wire_service_def seq_router_def
    by (simp add: fun_eq_iff wire_submit_mint_def wire_submit_transfer_def wire_get_block_def wire_head_def wire_balance_def
        wire_get_witness_def wire_get_nullifiers_def http_post_def send_request_def serve_at_url ok_or_def http_get_served d
        key plain_u32 with_height_def http_answer http_answer_fallible http_response_row as_head_def as_balance_def
        as_block_def as_witness_def as_strings_def)
qed

end
