(* ===== verification/HttpProperties.thy ===== *)
theory HttpProperties
  imports HttpCorrect NodeSample
begin

text \<open>
  The wallet's clients against the routers of the two daemons.
\<close>





text \<open>A wallet without a node asks the sequencer for the nullifiers, which has no such route.\<close>

lemma nullifiers_need_a_node:
  assumes "axum_ok ax" "hex_ok x"
    and "node_url api = None" "sequencer_url api = wire_service x (serve_at ax base (seq_routes x l1 now s)) base"
  shows "api_get_nullifiers api = Inl (HttpStatus 404)"
  using assms seq_service_over_http [OF assms(1,2), of base l1 now s] by (simp add: api_get_nullifiers_def api_base_def seq_router_def)

end
