(* ===== verification/Spec2Isabelle.thy ===== *)
theory Spec2Isabelle
  imports CoreProperties CommitProperties ClientProperties SequencerProperties NodeProperties
    WalletProperties WalletNetProperties WalletReadProperties FrontProperties RegtestProperties HttpProperties
begin

text \<open>
  HODLCHAIN: a verification library for the hodlchain proof of concept.

  The program. Bitcoin is locked on L1 (a Taproot output with a relative time lock) and atoms are minted for it on
  an L2 ledger. A sequencer builds one L2 block per interval from its mempool and posts, on each new L1 block, an
  attestation of its head: a transaction that spends the previous attestation's second output (the anchor) and
  carries height, block hash and state root in an \<open>OP_RETURN\<close>. A full node follows the chain of attestations on its
  own \<open>bitcoind\<close>, fetches the L2 blocks from the sequencer, re-executes them and serves them, with witnesses and
  an Esplora interface. A wallet keeps keys, deposits and a verified head in a file; it follows the attestation chain
  over Esplora and checks every L2 block against the head with a witness, without trusting sequencer or node. A
  command line and a desktop application drive the wallet; an orchestrator runs all of it on regtest.

  Theories and sources. All paths are below \<open>src/crates/\<close>.

  \<^item> \<open>Prelude\<close>, \<open>Codec\<close>, \<open>Externals\<close>, \<open>Float64\<close>, \<open>Effect\<close>: Rust's words, results, text and byte strings; prefix-free codes
    (locales \<open>prefix_code\<close>, \<open>fixed_code\<close>); the third-party functions as the record \<open>ext\<close>; binary64; operations that change
    a state and may fail (\<open>act\<close>).
  \<^item> \<open>hodl-core\<close>: \<open>Consensus\<close> (\<open>consensus.rs\<close>), \<open>Hash\<close> (\<open>hash.rs\<close>), \<open>L1\<close> (\<open>l1.rs\<close>), \<open>Address\<close> (\<open>address.rs\<close>, \<open>config.rs\<close>), \<open>OpReturn\<close>
    (\<open>op_return.rs\<close>), \<open>Tx\<close> (\<open>tx.rs\<close>), \<open>Proof\<close> (\<open>proof.rs\<close>), \<open>Smt\<close> (\<open>smt.rs\<close>), \<open>State\<close> (\<open>state.rs\<close>), \<open>Block\<close> (\<open>block.rs\<close>,
    \<open>witness.rs\<close>), \<open>Rpc\<close> (\<open>rpc.rs\<close>). \<open>SmtTree\<close>, \<open>SmtCorrect\<close> (the tree as a function of the account map), \<open>Ledger\<close>, \<open>Transfers\<close>
    (runs of the ledger, locale \<open>ledger_invariant\<close>), \<open>Binding\<close> (what hashes commit to) and \<open>Chain\<close> (what an L2 chain is) prove
    about them.
  \<^item> \<open>hodl-sequencer\<close>: \<open>SeqStore\<close> (\<open>store.rs\<close>), \<open>Bitcoind\<close> (\<open>bitcoind.rs\<close>), \<open>Producer\<close> (\<open>shared.rs\<close>, \<open>producer.rs\<close>), \<open>SeqApi\<close> (\<open>api.rs\<close>,
    \<open>main.rs\<close>), \<open>SeqStartup\<close> (\<open>main.rs\<close>), \<open>SeqSystem\<close> (ticks and requests as a step relation). \<open>StoreLaws\<close> is the contract of both
    stores (locales \<open>key_value\<close>, \<open>block_store\<close>, \<open>ready_store\<close>); \<open>ProducerCorrect\<close>, \<open>SeqInvariant\<close>, \<open>SeqAttest\<close>, \<open>SeqTyped\<close> (the types
    of the texts in the store) and \<open>SeqLiveness\<close> prove about it.
  \<^item> \<open>hodl-node\<close>: \<open>NodeStore\<close> (\<open>store.rs\<close>), \<open>NodeL1\<close> (\<open>bitcoind.rs\<close>, \<open>seq_client.rs\<close>), \<open>Follower\<close> (\<open>shared.rs\<close>, \<open>follower.rs\<close>,
    \<open>main.rs\<close>), \<open>NodeApi\<close> (\<open>api.rs\<close>), \<open>NodeStartup\<close> (\<open>main.rs\<close>), \<open>NodeSystem\<close> (rounds and cursor writes as a step relation),
    \<open>FollowerCorrect\<close>.
  \<^item> \<open>hodl-wallet\<close>: \<open>Esplora\<close> (\<open>esplora.rs\<close>), \<open>LightClient\<close> (\<open>verify.rs\<close>), \<open>Encryption\<close>, \<open>WalletFile\<close> (\<open>wallet.rs\<close>), \<open>Wallets\<close>,
    \<open>Reclaim\<close>, \<open>WalletHistory\<close>, \<open>WalletOps\<close>, \<open>WalletBalance\<close> (\<open>ops.rs\<close>), \<open>WalletCli\<close> (\<open>main.rs\<close>). \<open>LightClientCorrect\<close>, \<open>WalkCorrect\<close>,
    \<open>WalletInvariant\<close> and \<open>WalletStored\<close> (locale \<open>wallet_change\<close>: what every operation keeps) prove about them.
  \<^item> \<open>hodl-desktop\<close>: \<open>Desktop\<close> (\<open>state.rs\<close>, \<open>commands.rs\<close>), \<open>DesktopCorrect\<close> (commands one at a time), \<open>DesktopRaces\<close> (commands that
    overlap), \<open>DesktopLocks\<close> (the two mutexes).
  \<^item> \<open>HttpWire\<close>, \<open>HttpCorrect\<close>: the URLs, statuses and bodies between the wallet's clients (\<open>esplora.rs\<close>, \<open>api.rs\<close>) and the routers
    of the two daemons.
  \<^item> \<open>Configs\<close> (the two \<open>config.rs\<close>), \<open>Regtest\<close>, \<open>RegtestCorrect\<close> (\<open>hodl-regtest\<close>).
  \<^item> \<open>Sample\<close>, \<open>SeqSample\<close>, \<open>NodeSample\<close>, \<open>WalletSample\<close>: one concrete scenario, from a deposit to the node that serves the block
    with its mint, on which the properties are applied; the \<open>Properties\<close> theories and this one hold the properties.

  State and operations. A struct is a record, an enum a datatype, an integer a word of its width; \<open>BTreeMap\<close>s are maps or
  association lists in key order. A function with \<open>?\<close> is a \<open>result\<close>, or an \<open>act\<close> where it changes state, and keeps what it
  changed before the error. A handler that takes locks one after the other is as many steps as locked sections where
  something can come between; the whole systems are inductive relations over such steps with the answers of \<open>bitcoind\<close>,
  clocks and peers chosen anew at each step. A database statement may be refused at any time (\<open>sq_fault\<close>, \<open>nd_fault\<close>),
  a file operation as well (\<open>fs_fault\<close>), leaving what the operating system would leave.

  What is shown. The light client refines the full ledger in both directions; sequencer and node hold exactly an L2
  chain whatever is sent and answered, and one follows the other; supply, deposits and nonces are accounted for in every
  run; an accepted mint lands in the next block; what the sequencer stores as text it can always read back, so its loop
  fails only where \<open>bitcoind\<close> does; hashes and roots commit to what they should, or listed byte strings
  collide; a wallet file only grows, under any commands and refused writes; and where the code fails to meet this
  (lost updates between overlapping desktop commands, a deadlock, restarts that stay stuck, unchecked answers), the
  failure is a theorem.

  Bounds. No theorem assumes a hash injective: it says that its claim holds or that two of the byte strings it lists
  collide. Heights are \<open>u32\<close>: \<open>can_grow\<close> says that the head is below the largest, which takes 2^32 blocks of thirty seconds,
  more than four thousand years. Loops over the L1 chain that other parties can keep going (\<open>walk_loop\<close>,
  \<open>scan_block\<close>) are partial functions, and that they end, or do not, is proved; everything else is total, and there is no
  fuel. \<open>mint_fn\<close> is exact binary64 arithmetic, with \<open>exp\<close> a parameter within the bounds its theorem states.

  Parameters. \<open>ext\<close> (hashing, signatures, hexadecimal, script and address construction), \<open>vault\<close> (key derivation,
  authenticated encryption, mnemonics), \<open>btc\<close> (sighashes and the serialised transaction), \<open>serde\<close> (JSON of one list),
  \<open>SeqRpc\<close>, \<open>NodeRpc\<close> and \<open>L1View\<close> (\<open>bitcoind\<close>), \<open>Internet\<close> (what is behind a URL), \<open>Supply\<close> (clock and random identifiers),
  \<open>Routing\<close> (\<open>axum\<close>) and \<open>Host\<close> (other programs). \<open>toy_ext\<close> and the samples show that what is assumed of them can hold.

  Not modelled: argument parsing and printing, the pages of the API documentation (\<open>schemas.rs\<close>) and \<open>lib.rs\<close> module lists,
  the set-up of Tauri, Tokio and logging, the JSON text itself, the zeroing of keys in memory, the web front end, and
  what \<open>status\<close> of the orchestrator prints beyond the process ids. A tick of the producer is one step, since requests
  only reach the mempool, which it touches once; a failed write leaves a file as it was, except in the wallet's
  save and the orchestrator's removal of its directory, where what is left is an argument.
\<close>

section \<open>The light client\<close>

text \<open>C1: the light client refines the full node. If the verified head matches a full ledger and
  \<open>verify_one_l2_block\<close> accepts the block and witness that the server returned, then applying
  the block's transactions to the full ledger succeeds, the header's state root is the root of
  the resulting ledger, and the new head is exactly the one computed from that ledger; the only
  alternative is a SHA-256 collision among the preimages listed in the witness.\<close>

theorem light_client_step_sound:
  assumes "verify_one_l2_block x head height att tip api es ev = Inr (head', ev')"
    and "head_matches x head S"
  shows "\<exists>block w. api_get_block api height = Inr block \<and> api_get_witness api height = Inr w \<and>
    ((\<exists>S'. apply_txs x (txs block) S = Inr S' \<and> head' = full_result x head height block S' \<and>
        head_matches x head' S' \<and> bh_state_root (header block) = state_root x S') \<or>
     collides (sha256 x) (witness_preimages x S w))"
  using verify_one_sound [OF assms] full_result_matches by fast

theorem light_client_step_sound_witness:
  "\<exists>block w. api_get_block sample_api 1 = Inr block \<and> api_get_witness sample_api 1 = Inr w \<and>
    ((\<exists>S'. apply_txs toy_ext (txs block) ledger0 = Inr S' \<and>
        full_result toy_ext head0 1 block1 ledger2 = full_result toy_ext head0 1 block S' \<and>
        head_matches toy_ext (full_result toy_ext head0 1 block1 ledger2) S' \<and>
        bh_state_root (header block) = state_root toy_ext S') \<or>
     collides (sha256 toy_ext) (witness_preimages toy_ext ledger0 w))"
  by (rule light_client_step_sound [OF sample_step [of "Some attestation1" "[]"] head0_matches]) simp

text \<open>C2: an honest block is accepted. When the server returns the block that follows the head
  on the full ledger together with the witness \<open>BlockWitness::build\<close> makes for it, and the
  mints check out on L1, \<open>verify_one_l2_block\<close> succeeds and its new head matches the full
  ledger after the block.\<close>

theorem light_client_step_complete:
  assumes "head_matches x head S"
    and "api_get_block api height = Inr block"
    and "api_get_witness api height = Inr (BlockWitness_build x S (txs block) height)"
    and "bh_height (header block) = height" and "prev_hash (header block) = vh_block_hash head"
    and "txs_root (header block) = compute_txs_root x (txs block)"
    and "apply_txs x (txs block) S = Inr S'" and "bh_state_root (header block) = state_root x S'"
    and "att = None \<or> att = Some (Attestation_new height (L2Block_hash x block) (state_root x S'))"
    and "prefetch_l1_for_block x es block tip = Inr l1" and "verify_mints x l1 (txs block) = Inr ()"
  shows "\<exists>head' ev'. verify_one_l2_block x head height att tip api es ev = Inr (head', ev') \<and>
    head_matches x head' S' \<and> vh_block_hash head' = L2Block_hash x block \<and> vh_l2_height head' = height"
  using verify_one_complete [OF assms(1-8) _ assms(10,11), of att ev] assms(9) full_result_matches
  by (auto simp: Attestation_new_def full_result_def)

theorem light_client_step_complete_witness:
  "\<exists>head' ev'. verify_one_l2_block toy_ext head0 1 (Some attestation1) 100 sample_api sample_esplora [] =
      Inr (head', ev') \<and>
    head_matches toy_ext head' ledger2 \<and> vh_block_hash head' = L2Block_hash toy_ext block1 \<and>
    vh_l2_height head' = 1"
proof (rule light_client_step_complete [OF head0_matches sample_served])
  show "apply_txs toy_ext (txs block1) ledger0 = Inr ledger2"
    using apply_sample_txs by (simp add: block1_def)
  show "prefetch_l1_for_block toy_ext sample_esplora block1 100 = Inr sample_l1" by (rule sample_prefetch)
  show "verify_mints toy_ext sample_l1 (txs block1) = Inr ()" by (rule sample_mints)
qed (simp_all add: block1_def attestation1_def)

end
